(* ===== verification/CS_Prelude.thy ===== *)
theory CS_Prelude
  imports Main "HOL-Library.Word"
begin

unbundle bit_operations_syntax

text \<open>
  Shared vocabulary of the development: the error codes and exceptions of
  \<open>include/common.h\<close>, the outcome of running a C++ function (a value, an exception, an
  execution blocked for ever, or undefined behaviour), state-passing computations with
  exceptions, and the generic facts on lists and words the component theories rely on.
\<close>

section \<open>Machine integers and byte strings\<close>

type_synonym u8 = "8 word"
type_synonym u16 = "16 word"
type_synonym u32 = "32 word"
type_synonym u64 = "64 word"

text \<open>A \<open>std::string\<close> is a sequence of bytes, here a \<^typ>\<open>string\<close>; \<open>byte_of\<close> and
  \<open>chr_of\<close> are the \<open>reinterpret_cast\<close> between its \<open>char\<close>s and \<open>uint8_t\<close>.\<close>

definition byte_of :: "char \<Rightarrow> u8" where
  "byte_of c = of_nat (of_char c)"

definition chr_of :: "u8 \<Rightarrow> char" where
  "chr_of b = char_of (unat b)"

text \<open>The bytes a C API sees through \<open>c_str()\<close>: everything before the first NUL.\<close>

definition NUL :: char where
  "NUL = CHR 0x00"

definition c_str :: "string \<Rightarrow> string" where
  "c_str s = takeWhile (\<lambda>c. c \<noteq> NUL) s"

section \<open>Errors\<close>

datatype error_code =
    Ok | BadRequest | Unauthorized | Forbidden | NotFound | Conflict
  | PayloadTooLarge | Unprocessable | Internal | Unavailable

fun code_value :: "error_code \<Rightarrow> int" where
  "code_value Ok = 0"
| "code_value BadRequest = 400"
| "code_value Unauthorized = 401"
| "code_value Forbidden = 403"
| "code_value NotFound = 404"
| "code_value Conflict = 409"
| "code_value PayloadTooLarge = 413"
| "code_value Unprocessable = 422"
| "code_value Internal = 500"
| "code_value Unavailable = 503"

text \<open>\<open>StdException\<close> stands for every other \<open>std::exception\<close>, with its \<open>what()\<close>.\<close>

datatype exn = CloudError error_code string | StdException string

section \<open>Computations\<close>

text \<open>
  \<open>Blocked\<close> is an execution that waits for ever (a condition variable nobody signals, a
  loop that has used up its bound), \<open>Undef\<close> one that reaches undefined behaviour. Neither
  is caught by a handler.
\<close>

datatype 'a outcome = Ret 'a | Raise exn | Blocked | Undef

type_synonym ('s, 'a) cpp = "'s \<Rightarrow> 'a outcome \<times> 's"

definition return :: "'a \<Rightarrow> ('s, 'a) cpp" where
  "return x = (\<lambda>s. (Ret x, s))"

definition throw :: "exn \<Rightarrow> ('s, 'a) cpp" where
  "throw e = (\<lambda>s. (Raise e, s))"

definition blocked :: "('s, 'a) cpp" where
  "blocked = (\<lambda>s. (Blocked, s))"

definition undef :: "('s, 'a) cpp" where
  "undef = (\<lambda>s. (Undef, s))"

definition bindE :: "('s, 'a) cpp \<Rightarrow> ('a \<Rightarrow> ('s, 'b) cpp) \<Rightarrow> ('s, 'b) cpp" where
  "bindE m f = (\<lambda>s. case m s of
       (Ret x, t) \<Rightarrow> f x t
     | (Raise e, t) \<Rightarrow> (Raise e, t)
     | (Blocked, t) \<Rightarrow> (Blocked, t)
     | (Undef, t) \<Rightarrow> (Undef, t))"

definition gets :: "('s \<Rightarrow> 'a) \<Rightarrow> ('s, 'a) cpp" where
  "gets f = (\<lambda>s. (Ret (f s), s))"

definition modify :: "('s \<Rightarrow> 's) \<Rightarrow> ('s, unit) cpp" where
  "modify f = (\<lambda>s. (Ret (), f s))"

text \<open>\<open>catchE m h\<close> is \<open>try { m } catch (e) { h(e) }\<close>; \<open>finallyE m c\<close> runs the clean-up
  \<open>c\<close> (a destructor) when \<open>m\<close> returns and when it throws.\<close>

definition catchE :: "('s, 'a) cpp \<Rightarrow> (exn \<Rightarrow> ('s, 'a) cpp) \<Rightarrow> ('s, 'a) cpp" where
  "catchE m h = (\<lambda>s. case m s of
       (Ret x, t) \<Rightarrow> (Ret x, t)
     | (Raise e, t) \<Rightarrow> h e t
     | (Blocked, t) \<Rightarrow> (Blocked, t)
     | (Undef, t) \<Rightarrow> (Undef, t))"

definition finallyE :: "('s, 'a) cpp \<Rightarrow> ('s \<Rightarrow> 's) \<Rightarrow> ('s, 'a) cpp" where
  "finallyE m c = (\<lambda>s. case m s of
       (Ret x, t) \<Rightarrow> (Ret x, c t)
     | (Raise e, t) \<Rightarrow> (Raise e, c t)
     | (Blocked, t) \<Rightarrow> (Blocked, t)
     | (Undef, t) \<Rightarrow> (Undef, t))"

text \<open>A pure part of the code that may throw.\<close>

definition liftS :: "exn + 'a \<Rightarrow> ('s, 'a) cpp" where
  "liftS r = (case r of Inl e \<Rightarrow> throw e | Inr x \<Rightarrow> return x)"

text \<open>A range-based \<open>for\<close> whose body may throw.\<close>

fun forE :: "'a list \<Rightarrow> ('a \<Rightarrow> ('s, unit) cpp) \<Rightarrow> ('s, unit) cpp" where
  "forE [] f = return ()"
| "forE (x # xs) f = bindE (f x) (\<lambda>_. forE xs f)"

named_theorems run_simps "rewriting a computation applied to a state"

lemma return_run [simp, run_simps]: "return x s = (Ret x, s)"
  by (simp add: return_def)

lemma throw_run [simp, run_simps]: "throw e s = (Raise e, s)"
  by (simp add: throw_def)

lemma blocked_run [simp, run_simps]: "blocked s = (Blocked, s)"
  by (simp add: blocked_def)

lemma undef_run [simp, run_simps]: "undef s = (Undef, s)"
  by (simp add: undef_def)

lemma gets_run [simp, run_simps]: "gets f s = (Ret (f s), s)"
  by (simp add: gets_def)

lemma modify_run [simp, run_simps]: "modify f s = (Ret (), f s)"
  by (simp add: modify_def)

lemma bindE_run [run_simps]:
  "m s = (Ret x, t) \<Longrightarrow> bindE m f s = f x t"
  "m s = (Raise e, t) \<Longrightarrow> bindE m f s = (Raise e, t)"
  "m s = (Blocked, t) \<Longrightarrow> bindE m f s = (Blocked, t)"
  "m s = (Undef, t) \<Longrightarrow> bindE m f s = (Undef, t)"
  by (simp_all add: bindE_def)

lemma catchE_run [run_simps]:
  "m s = (Ret x, t) \<Longrightarrow> catchE m h s = (Ret x, t)"
  "m s = (Raise e, t) \<Longrightarrow> catchE m h s = h e t"
  "m s = (Blocked, t) \<Longrightarrow> catchE m h s = (Blocked, t)"
  "m s = (Undef, t) \<Longrightarrow> catchE m h s = (Undef, t)"
  by (simp_all add: catchE_def)

lemma finallyE_run [run_simps]:
  "m s = (Ret x, t) \<Longrightarrow> finallyE m c s = (Ret x, c t)"
  "m s = (Raise e, t) \<Longrightarrow> finallyE m c s = (Raise e, c t)"
  "m s = (Blocked, t) \<Longrightarrow> finallyE m c s = (Blocked, t)"
  "m s = (Undef, t) \<Longrightarrow> finallyE m c s = (Undef, t)"
  by (simp_all add: finallyE_def)

lemma liftS_run [simp, run_simps]:
  "liftS (Inl e) s = (Raise e, s)"
  "liftS (Inr x) s = (Ret x, s)"
  by (simp_all add: liftS_def)

text \<open>Inversion of a successful run, the workhorse of the "if it succeeds, then" proofs.\<close>

lemma bindE_RetD:
  assumes "bindE m f s = (Ret y, u)"
  obtains x t where "m s = (Ret x, t)" and "f x t = (Ret y, u)"
  using assms by (auto simp: bindE_def split: prod.splits outcome.splits)

lemma bindE_assoc: "bindE (bindE m f) g = bindE m (\<lambda>x. bindE (f x) g)"
  by (auto simp: bindE_def fun_eq_iff split: prod.splits outcome.splits)

lemma bindE_return_left [simp]: "bindE (return x) f = f x"
  by (simp add: bindE_def fun_eq_iff)

lemma bindE_throw_left [simp]: "bindE (throw e) f = throw e"
  by (simp add: bindE_def fun_eq_iff)

lemma bindE_Pair [simp]:
  "bindE (Pair (Ret x)) f = f x"
  "bindE (Pair (Raise e)) f = Pair (Raise e)"
  by (simp_all add: bindE_def fun_eq_iff)

lemma forE_append: "forE (xs @ ys) f = bindE (forE xs f) (\<lambda>_. forE ys f)"
  by (induction xs) (simp_all add: bindE_assoc)

section \<open>Partial correctness\<close>

text \<open>
  \<open>triple P m Q E\<close>: started in a state of \<open>P\<close>, a run of \<open>m\<close> that returns ends in \<open>Q\<close>, one
  that throws ends in \<open>E\<close>. It is used for invariants, which have to hold on the error paths too;
  that an operation does return is stated by the run lemmas of the components.
\<close>

definition triple :: "('s \<Rightarrow> bool) \<Rightarrow> ('s, 'a) cpp \<Rightarrow> ('a \<Rightarrow> 's \<Rightarrow> bool) \<Rightarrow> ('s \<Rightarrow> bool) \<Rightarrow> bool" where
  "triple P m Q E \<longleftrightarrow> (\<forall>s. P s \<longrightarrow> (case m s of
       (Ret x, t) \<Rightarrow> Q x t
     | (Raise e, t) \<Rightarrow> E t
     | (Blocked, t) \<Rightarrow> True
     | (Undef, t) \<Rightarrow> True))"

named_theorems triple_intros "rules of the triples, one per construct or operation"

lemma triple_Ret: "triple P m Q E \<Longrightarrow> P s \<Longrightarrow> m s = (Ret x, t) \<Longrightarrow> Q x t"
  unfolding triple_def by force

lemma triple_Raise: "triple P m Q E \<Longrightarrow> P s \<Longrightarrow> m s = (Raise e, t) \<Longrightarrow> E t"
  unfolding triple_def by force

lemma triple_runI:
  "(\<And>s. P s \<Longrightarrow> (\<exists>t. m s = (Blocked, t)) \<or> (\<exists>x t. m s = (Ret x, t) \<and> Q x t)) \<Longrightarrow> triple P m Q E"
  unfolding triple_def by fastforce

lemma triple_bind [triple_intros]:
  "triple P m R E \<Longrightarrow> (\<And>x. triple (R x) (f x) Q E) \<Longrightarrow> triple P (bindE m f) Q E"
  unfolding triple_def bindE_def by (fastforce split: prod.splits outcome.splits)

lemma triple_conseq:
  "triple P' m Q' E' \<Longrightarrow> (\<And>s. P s \<Longrightarrow> P' s) \<Longrightarrow> (\<And>x s. Q' x s \<Longrightarrow> Q x s) \<Longrightarrow> (\<And>s. E' s \<Longrightarrow> E s) \<Longrightarrow>
   triple P m Q E"
  unfolding triple_def by (fastforce split: prod.splits outcome.splits)

lemma triple_pre: "triple P' m Q E \<Longrightarrow> (\<And>s. P s \<Longrightarrow> P' s) \<Longrightarrow> triple P m Q E"
  by (erule triple_conseq)

lemma triple_post: "triple P m Q' E \<Longrightarrow> (\<And>x s. Q' x s \<Longrightarrow> Q x s) \<Longrightarrow> triple P m Q E"
  by (erule triple_conseq)

lemma triple_return [triple_intros]: "(\<And>s. P s \<Longrightarrow> Q x s) \<Longrightarrow> triple P (return x) Q E"
  by (simp add: triple_def)

lemma triple_throw [triple_intros]: "(\<And>s. P s \<Longrightarrow> E s) \<Longrightarrow> triple P (throw e) Q E"
  by (simp add: triple_def)

lemma triple_gets: "(\<And>s. P s \<Longrightarrow> Q (f s) s) \<Longrightarrow> triple P (gets f) Q E"
  by (simp add: triple_def)

lemma triple_modify: "(\<And>s. P s \<Longrightarrow> Q () (f s)) \<Longrightarrow> triple P (modify f) Q E"
  by (simp add: triple_def)

lemma triple_if [triple_intros]:
  "(b \<Longrightarrow> triple P m Q E) \<Longrightarrow> (\<not> b \<Longrightarrow> triple P n Q E) \<Longrightarrow> triple P (if b then m else n) Q E"
  by simp

lemma triple_case_option [triple_intros]:
  "(x = None \<Longrightarrow> triple P m Q E) \<Longrightarrow> (\<And>y. x = Some y \<Longrightarrow> triple P (n y) Q E) \<Longrightarrow>
   triple P (case x of None \<Rightarrow> m | Some y \<Rightarrow> n y) Q E"
  by (cases x) simp_all

lemma triple_case_sum [triple_intros]:
  "(\<And>y. x = Inl y \<Longrightarrow> triple P (m y) Q E) \<Longrightarrow> (\<And>y. x = Inr y \<Longrightarrow> triple P (n y) Q E) \<Longrightarrow>
   triple P (case x of Inl y \<Rightarrow> m y | Inr y \<Rightarrow> n y) Q E"
  by (cases x) simp_all

lemma triple_case_prod [triple_intros]:
  "(\<And>y z. x = (y, z) \<Longrightarrow> triple P (m y z) Q E) \<Longrightarrow> triple P (case x of (y, z) \<Rightarrow> m y z) Q E"
  by (cases x) simp

lemma triple_liftS: "(\<And>s. P s \<Longrightarrow> E s) \<Longrightarrow> (\<And>x s. r = Inr x \<Longrightarrow> P s \<Longrightarrow> Q x s) \<Longrightarrow> triple P (liftS r) Q E"
  by (cases r) (simp_all add: triple_def)

lemma triple_forE:
  "(\<And>x. x \<in> set xs \<Longrightarrow> triple P (f x) (\<lambda>_. P) E) \<Longrightarrow> triple P (forE xs f) (\<lambda>_. P) E"
  by (induction xs) (auto intro!: triple_bind triple_return)

lemma triple_result:
  assumes "triple P m Q E" and "\<And>s x t. m s = (Ret x, t) \<Longrightarrow> G x"
  shows "triple P m (\<lambda>x s. Q x s \<and> G x) E"
  unfolding triple_def
proof (intro allI impI)
  fix s
  assume "P s"
  then show "case m s of (Ret x, t) \<Rightarrow> Q x t \<and> G x | (Raise e, t) \<Rightarrow> E t | (Blocked, t) \<Rightarrow> True | (Undef, t) \<Rightarrow> True"
    using triple_Ret [OF assms(1)] triple_Raise [OF assms(1)] assms(2) by (cases "m s"; cases "fst (m s)") auto
qed

lemma triple_False: "triple (\<lambda>s. False) m Q E"
  by (simp add: triple_def)

lemma triple_pure: "(b \<Longrightarrow> triple P m Q E) \<Longrightarrow> triple (\<lambda>s. P s \<and> b) m Q E"
  by (auto simp: triple_def)

section \<open>Generic facts\<close>

lemma byte_of_chr_of [simp]: "byte_of (chr_of b) = b"
proof -
  have "unat b < 256" using unsigned_less [of b, where ?'a = nat] by simp
  then show ?thesis by (simp add: byte_of_def chr_of_def)
qed

lemma chr_of_byte_of [simp]: "chr_of (byte_of c) = c"
proof -
  have "(of_char c :: nat) < 256" by (simp add: of_char_def)
  then show ?thesis by (simp add: byte_of_def chr_of_def unat_of_nat)
qed

lemma map_byte_chr [simp]: "map byte_of (map chr_of bs) = bs"
  by (simp add: comp_def)

lemma map_chr_byte [simp]: "map chr_of (map byte_of s) = s"
  by (simp add: comp_def)

lemma c_str_id: "NUL \<notin> set s \<Longrightarrow> c_str s = s"
  by (auto simp: c_str_def takeWhile_eq_all_conv)

lemma c_str_no_NUL: "NUL \<notin> set (c_str s)"
  by (auto simp: c_str_def dest: set_takeWhileD)

end
