(* ===== verification/CS_Utils.thy ===== *)
theory CS_Utils
  imports CS_Prelude
begin

text \<open>
  The pure part of \<open>src/utils.cpp\<close>: trimming, splitting, path joining, the path-prefix
  test, hex coding, the parent and base name of a path and the big-endian readers and
  writers; and the parts of the C++ standard library the server uses on strings
  (\<open>substr\<close>, \<open>find\<close>, \<open>find_last_of\<close>, \<open>std::to_string\<close>, \<open>std::stoull\<close>).
  The file-system helpers of the same source file are in \<open>Os_Utils\<close>.
\<close>

section \<open>String functions of the standard library\<close>

definition substr :: "string \<Rightarrow> nat \<Rightarrow> nat \<Rightarrow> string" where
  "substr s pos n = take n (drop pos s)"

definition find_first :: "char \<Rightarrow> string \<Rightarrow> nat option" where
  "find_first c s = (if c \<in> set s then Some (length (takeWhile (\<lambda>x. x \<noteq> c) s)) else None)"

definition find_last_of :: "char \<Rightarrow> string \<Rightarrow> nat option" where
  "find_last_of c s =
     (if c \<in> set s then Some (length s - Suc (length (takeWhile (\<lambda>x. x \<noteq> c) (rev s)))) else None)"

definition char_code :: "char \<Rightarrow> nat" where
  "char_code c = of_char c"

definition isspace :: "char \<Rightarrow> bool" where
  "isspace c \<longleftrightarrow> char_code c = 32 \<or> (9 \<le> char_code c \<and> char_code c \<le> 13)"

definition isdigit :: "char \<Rightarrow> bool" where
  "isdigit c \<longleftrightarrow> 48 \<le> char_code c \<and> char_code c \<le> 57"

definition isalpha :: "char \<Rightarrow> bool" where
  "isalpha c \<longleftrightarrow> (65 \<le> char_code c \<and> char_code c \<le> 90) \<or> (97 \<le> char_code c \<and> char_code c \<le> 122)"

definition isalnum :: "char \<Rightarrow> bool" where
  "isalnum c \<longleftrightarrow> isalpha c \<or> isdigit c"

fun to_string_nat :: "nat \<Rightarrow> string" where
  "to_string_nat n =
     (if n < 10 then [char_of (48 + n)] else to_string_nat (n div 10) @ [char_of (48 + n mod 10)])"

declare to_string_nat.simps [simp del]

definition to_string_int :: "int \<Rightarrow> string" where
  "to_string_int i = (if i < 0 then CHR ''-'' # to_string_nat (nat (- i)) else to_string_nat (nat i))"

definition digits_value :: "string \<Rightarrow> nat" where
  "digits_value ds = foldl (\<lambda>a c. 10 * a + (char_code c - 48)) 0 ds"

text \<open>\<open>std::stoull\<close>: leading white space, an optional sign, then decimal digits; anything
  after the digits is ignored, a minus sign negates modulo \<open>2 ^ 64\<close>.\<close>

definition stoull :: "string \<Rightarrow> exn + u64" where
  "stoull s =
     (let t = dropWhile isspace s;
          neg = (t \<noteq> [] \<and> hd t = CHR ''-'');
          u = (if t \<noteq> [] \<and> (hd t = CHR ''-'' \<or> hd t = CHR ''+'') then tl t else t);
          ds = takeWhile isdigit u
      in if ds = [] then Inl (StdException ''stoull'')
         else if digits_value ds \<ge> 2 ^ 64 then Inl (StdException ''stoull'')
         else Inr (if neg then - of_nat (digits_value ds) else of_nat (digits_value ds)))"

section \<open>utils.cpp\<close>

function (sequential) trim_a :: "string \<Rightarrow> nat \<Rightarrow> nat" where
  "trim_a s a = (if a < length s \<and> isspace (s ! a) then trim_a s (Suc a) else a)"
  by pat_completeness auto
termination
  by (relation "measure (\<lambda>(s, a). length s - a)") auto

fun trim_b :: "string \<Rightarrow> nat \<Rightarrow> nat \<Rightarrow> nat" where
  "trim_b s a b = (if a < b \<and> isspace (s ! (b - 1)) then trim_b s a (b - 1) else b)"

declare trim_a.simps [simp del] trim_b.simps [simp del]

definition trim :: "string \<Rightarrow> string" where
  "trim s = (let a = trim_a s 0; b = trim_b s a (length s) in substr s a (b - a))"

fun split_go :: "char \<Rightarrow> string \<Rightarrow> string list \<Rightarrow> string \<Rightarrow> string list" where
  "split_go delim [] out cur = out @ [cur]"
| "split_go delim (c # cs) out cur =
     (if c = delim then split_go delim cs (out @ [cur]) []
      else split_go delim cs out (cur @ [c]))"

definition split :: "string \<Rightarrow> char \<Rightarrow> string list" where
  "split s delim = split_go delim s [] []"

definition joinPath :: "string \<Rightarrow> string \<Rightarrow> string" where
  "joinPath a b =
     (if a = [] then b
      else if b = [] then a
      else if last a = CHR ''/'' \<and> hd b = CHR ''/'' then a @ substr b 1 (length b)
      else if last a \<noteq> CHR ''/'' \<and> hd b \<noteq> CHR ''/'' then a @ ''/'' @ b
      else a @ b)"

text \<open>\<open>root.back()\<close> on an empty root is undefined: \<open>None\<close>.\<close>

definition startsWithPath :: "string \<Rightarrow> string \<Rightarrow> bool option" where
  "startsWithPath path root =
     (if path = root then Some True
      else if root = [] then None
      else (let prefix = (if last root = CHR ''/'' then root else root @ ''/'')
            in Some (take (length prefix) path = prefix)))"

definition kHex :: string where
  "kHex = ''0123456789abcdef''"

definition hex_digits :: "u8 \<Rightarrow> string" where
  "hex_digits b = [kHex ! unat (drop_bit 4 b AND 0xF), kHex ! unat (b AND 0xF)]"

definition toHex :: "u8 list \<Rightarrow> string" where
  "toHex data = concat (map hex_digits data)"

definition nibble :: "char \<Rightarrow> int" where
  "nibble c =
     (let n = int (char_code c) in
      if int (char_code CHR ''0'') \<le> n \<and> n \<le> int (char_code CHR ''9'') then n - int (char_code CHR ''0'')
      else if int (char_code CHR ''a'') \<le> n \<and> n \<le> int (char_code CHR ''f'') then n - int (char_code CHR ''a'') + 10
      else if int (char_code CHR ''A'') \<le> n \<and> n \<le> int (char_code CHR ''F'') then n - int (char_code CHR ''A'') + 10
      else -1)"

fun fromHex_go :: "string \<Rightarrow> u8 list option" where
  "fromHex_go (h # l # rest) =
     (let hi = nibble h; lo = nibble l in
      if hi < 0 \<or> lo < 0 then None
      else map_option ((#) (push_bit 4 (of_int hi) OR of_int lo)) (fromHex_go rest))"
| "fromHex_go _ = Some []"

definition fromHex :: "string \<Rightarrow> u8 list" where
  "fromHex hex =
     (if length hex mod 2 \<noteq> 0 then []
      else (case fromHex_go hex of None \<Rightarrow> [] | Some out \<Rightarrow> out))"

definition parentDir :: "string \<Rightarrow> string" where
  "parentDir path =
     (case find_last_of CHR ''/'' path of
        None \<Rightarrow> ''.''
      | Some pos \<Rightarrow> if pos = 0 then ''/'' else substr path 0 pos)"

definition baseName :: "string \<Rightarrow> string" where
  "baseName path =
     (case find_last_of CHR ''/'' path of
        None \<Rightarrow> path
      | Some pos \<Rightarrow> drop (pos + 1) path)"

definition writeU64Be :: "u64 \<Rightarrow> u8 list" where
  "writeU64Be v =
     [ucast (drop_bit 56 v), ucast (drop_bit 48 v), ucast (drop_bit 40 v), ucast (drop_bit 32 v),
      ucast (drop_bit 24 v), ucast (drop_bit 16 v), ucast (drop_bit 8 v), ucast v]"

definition readU64Be :: "u8 list \<Rightarrow> u64" where
  "readU64Be p =
     push_bit 56 (ucast (p ! 0)) OR push_bit 48 (ucast (p ! 1)) OR
     push_bit 40 (ucast (p ! 2)) OR push_bit 32 (ucast (p ! 3)) OR
     push_bit 24 (ucast (p ! 4)) OR push_bit 16 (ucast (p ! 5)) OR
     push_bit 8 (ucast (p ! 6)) OR ucast (p ! 7)"

definition writeU32Be :: "u32 \<Rightarrow> u8 list" where
  "writeU32Be v =
     [ucast (drop_bit 24 v), ucast (drop_bit 16 v), ucast (drop_bit 8 v), ucast v]"

definition readU32Be :: "u8 list \<Rightarrow> u32" where
  "readU32Be p =
     push_bit 24 (ucast (p ! 0)) OR push_bit 16 (ucast (p ! 1)) OR
     push_bit 8 (ucast (p ! 2)) OR ucast (p ! 3)"

definition writeU16Be :: "u16 \<Rightarrow> u8 list" where
  "writeU16Be v = [ucast (drop_bit 8 v), ucast v]"

definition readU16Be :: "u8 list \<Rightarrow> u16" where
  "readU16Be p = push_bit 8 (ucast (p ! 0)) OR ucast (p ! 1)"

section \<open>Big-endian codecs\<close>

text \<open>The interface the frame codec relies on: a fixed-width writer and its reader.\<close>

locale be_codec =
  fixes enc :: "'w \<Rightarrow> u8 list" and dec :: "u8 list \<Rightarrow> 'w" and width :: nat
  assumes length_enc: "length (enc v) = width"
    and dec_enc: "dec (enc v @ rest) = v"
    and enc_dec: "length bs = width \<Longrightarrow> enc (dec bs) = bs"
begin

lemma dec_enc_exact: "dec (enc v) = v"
  using dec_enc [of v "[]"] by simp

lemma enc_inj: "enc v = enc w \<longleftrightarrow> v = w"
  using dec_enc_exact by metis

lemma take_enc: "take width (enc v @ rest) = enc v"
  by (simp add: length_enc)

lemma drop_enc: "drop width (enc v @ rest) = rest"
  by (simp add: length_enc)

end

lemma bit_u8_beyond: "8 \<le> n \<Longrightarrow> \<not> bit (b :: u8) n"
  by (auto dest: bit_imp_le_length)

text \<open>One byte lane of a word, moved out and back.\<close>

lemma bit_lane:
  fixes v :: "'a::len word"
  shows "bit (push_bit k (ucast (ucast (drop_bit k v) :: u8)) :: 'a word) n \<longleftrightarrow>
    k \<le> n \<and> n < k + 8 \<and> bit v n"
  by (auto simp: bit_simps dest: bit_imp_le_length)

lemma bit_lane0:
  fixes v :: "'a::len word"
  shows "bit (ucast (ucast v :: u8) :: 'a word) n \<longleftrightarrow> n < 8 \<and> bit v n"
  by (auto simp: bit_simps dest: bit_imp_le_length)

lemmas be_bits = bit_or_iff bit_lane bit_lane0

lemma writeU16Be_inverse: "readU16Be (writeU16Be v @ rest) = v"
proof (rule bit_word_eqI)
  fix n assume "n < LENGTH(16)"
  then show "bit (readU16Be (writeU16Be v @ rest)) n = bit v n"
    unfolding readU16Be_def writeU16Be_def by (auto simp: be_bits)
qed

lemma writeU32Be_inverse: "readU32Be (writeU32Be v @ rest) = v"
proof (rule bit_word_eqI)
  fix n assume "n < LENGTH(32)"
  then have "n < 8 \<or> 8 \<le> n \<and> n < 16 \<or> 16 \<le> n \<and> n < 24 \<or> 24 \<le> n \<and> n < 32"
    by simp linarith
  then show "bit (readU32Be (writeU32Be v @ rest)) n = bit v n"
    unfolding readU32Be_def writeU32Be_def by (elim disjE) (simp_all add: be_bits)
qed

lemma writeU64Be_inverse: "readU64Be (writeU64Be v @ rest) = v"
proof (rule bit_word_eqI)
  fix n assume "n < LENGTH(64)"
  then have "n < 8 \<or> 8 \<le> n \<and> n < 16 \<or> 16 \<le> n \<and> n < 24 \<or> 24 \<le> n \<and> n < 32
      \<or> 32 \<le> n \<and> n < 40 \<or> 40 \<le> n \<and> n < 48 \<or> 48 \<le> n \<and> n < 56 \<or> 56 \<le> n \<and> n < 64"
    by simp linarith
  then show "bit (readU64Be (writeU64Be v @ rest)) n = bit v n"
    unfolding readU64Be_def writeU64Be_def by (elim disjE) (simp_all add: be_bits)
qed

lemma length_eq_numeral_iff:
  "length xs = 2 \<longleftrightarrow> (\<exists>a b. xs = [a, b])"
  "length xs = 4 \<longleftrightarrow> (\<exists>a b c d. xs = [a, b, c, d])"
  "length xs = 8 \<longleftrightarrow> (\<exists>a b c d e f g h. xs = [a, b, c, d, e, f, g, h])"
  by (auto simp: numeral_eq_Suc length_Suc_conv)

lemmas byte_out_bits = bit_simps bit_u8_beyond

lemma readU16Be_inverse: "length bs = 2 \<Longrightarrow> writeU16Be (readU16Be bs) = bs"
  unfolding readU16Be_def writeU16Be_def
  by (auto simp: length_eq_numeral_iff intro!: bit_word_eqI) (auto simp: byte_out_bits)

lemma readU32Be_inverse: "length bs = 4 \<Longrightarrow> writeU32Be (readU32Be bs) = bs"
  unfolding readU32Be_def writeU32Be_def
  by (auto simp: length_eq_numeral_iff intro!: bit_word_eqI) (auto simp: byte_out_bits)

lemma readU64Be_inverse: "length bs = 8 \<Longrightarrow> writeU64Be (readU64Be bs) = bs"
  unfolding readU64Be_def writeU64Be_def
  by (auto simp: length_eq_numeral_iff intro!: bit_word_eqI) (auto simp: byte_out_bits)

interpretation be16: be_codec writeU16Be readU16Be 2
  by unfold_locales (simp_all add: writeU16Be_inverse readU16Be_inverse, simp add: writeU16Be_def)

interpretation be32: be_codec writeU32Be readU32Be 4
  by unfold_locales (simp_all add: writeU32Be_inverse readU32Be_inverse, simp add: writeU32Be_def)

interpretation be64: be_codec writeU64Be readU64Be 8
  by unfold_locales (simp_all add: writeU64Be_inverse readU64Be_inverse, simp add: writeU64Be_def)

section \<open>Splitting and joining\<close>

text \<open>The inverse of \<open>split\<close>: the parts written with the delimiter between them.\<close>

fun join_with :: "char \<Rightarrow> string list \<Rightarrow> string" where
  "join_with d [] = []"
| "join_with d [x] = x"
| "join_with d (x # y # ys) = x @ d # join_with d (y # ys)"

lemma join_with_Cons: "xs \<noteq> [] \<Longrightarrow> join_with d (x # xs) = x @ d # join_with d xs"
  by (cases xs) simp_all

lemma join_with_append:
  "xs \<noteq> [] \<Longrightarrow> ys \<noteq> [] \<Longrightarrow> join_with d (xs @ ys) = join_with d xs @ d # join_with d ys"
proof (induction xs)
  case (Cons x xs)
  then show ?case
    by (cases "xs = []") (simp_all add: join_with_Cons)
qed simp

lemma split_go_acc: "split_go d s out cur = out @ split_go d s [] cur"
proof (induction s arbitrary: out cur)
  case (Cons c s)
  show ?case
  proof (cases "c = d")
    case True
    have "split_go d s (out @ [cur]) [] = (out @ [cur]) @ split_go d s [] []" by (rule Cons.IH)
    moreover have "split_go d s ([] @ [cur]) [] = ([] @ [cur]) @ split_go d s [] []" by (rule Cons.IH)
    ultimately show ?thesis using True by simp
  next
    case False
    then show ?thesis using Cons.IH [of out "cur @ [c]"] by simp
  qed
qed simp

lemma split_go_nonempty [simp]: "split_go d s out cur \<noteq> []"
  by (induction s arbitrary: out cur) auto

lemma split_go_join: "join_with d (split_go d s [] cur) = cur @ s"
proof (induction s arbitrary: cur)
  case (Cons c s)
  show ?case
    using Cons.IH [of "[]"] Cons.IH [of "cur @ [c]"] split_go_acc [of d s "[cur]" "[]"]
    by (simp add: join_with_Cons)
qed simp

lemma split_go_no_delim:
  "d \<notin> set cur \<Longrightarrow> x \<in> set (split_go d s [] cur) \<Longrightarrow> d \<notin> set x"
proof (induction s arbitrary: cur)
  case (Cons c s)
  show ?case
  proof (cases "c = d")
    case True
    with Cons.prems show ?thesis
      using split_go_acc [of d s "[cur]" "[]"] Cons.IH [of "[]"] by auto
  next
    case False
    with Cons.prems show ?thesis using Cons.IH [of "cur @ [c]"] by auto
  qed
qed simp

lemma split_join: "join_with d (split s d) = s"
  by (simp add: split_def split_go_join)

lemma split_no_delim: "x \<in> set (split s d) \<Longrightarrow> d \<notin> set x"
  using split_go_no_delim [of d "[]"] by (simp add: split_def)

lemma split_nonempty [simp]: "split s d \<noteq> []"
  by (simp add: split_def)

lemma split_go_plain:
  "d \<notin> set x \<Longrightarrow> split_go d (x @ d # s) [] cur = (cur @ x) # split_go d s [] []"
proof (induction x arbitrary: cur)
  case Nil
  then show ?case using split_go_acc [of d s "[cur]" "[]"] by simp
qed auto

lemma split_go_last: "d \<notin> set x \<Longrightarrow> split_go d x [] cur = [cur @ x]"
  by (induction x arbitrary: cur) auto

lemma split_join_with:
  "xs \<noteq> [] \<Longrightarrow> (\<And>x. x \<in> set xs \<Longrightarrow> d \<notin> set x) \<Longrightarrow> split (join_with d xs) d = xs"
proof (induction xs)
  case (Cons x xs)
  then show ?case
    by (cases "xs = []") (simp_all add: join_with_Cons split_def split_go_plain split_go_last)
qed simp

section \<open>Trimming\<close>

lemma trim_a_add: "trim_a s a = a + length (takeWhile isspace (drop a s))"
proof (induction s a rule: trim_a.induct)
  case (1 s a)
  show ?case
  proof (cases "a < length s \<and> isspace (s ! a)")
    case True
    then have "drop a s = s ! a # drop (Suc a) s" by (simp add: Cons_nth_drop_Suc)
    with True "1" show ?thesis by (subst trim_a.simps) simp
  next
    case False
    then have "takeWhile isspace (drop a s) = []"
      by (cases "a < length s") (auto simp: takeWhile_eq_Nil_iff hd_drop_conv_nth)
    with False show ?thesis by (subst trim_a.simps) auto
  qed
qed

lemma trim_b_step: "a < b \<Longrightarrow> isspace (s ! (b - 1)) \<Longrightarrow> trim_b s a b = trim_b s a (b - 1)"
  by (subst trim_b.simps) simp

lemma trim_b_end: "\<not> (a < b \<and> isspace (s ! (b - 1))) \<Longrightarrow> trim_b s a b = b"
  by (subst trim_b.simps) auto

text \<open>Every character dropped at the end is white space, and the scan stops at the first one
  that is not, or at \<open>a\<close>.\<close>

lemma trim_b_spec:
  "a \<le> b \<Longrightarrow> a \<le> trim_b s a b \<and> trim_b s a b \<le> b
     \<and> (trim_b s a b = a \<or> \<not> isspace (s ! (trim_b s a b - 1)))
     \<and> (\<forall>i. trim_b s a b \<le> i \<and> i < b \<longrightarrow> isspace (s ! i))"
proof (induction s a b rule: trim_b.induct)
  case (1 s a b)
  show ?case
  proof (cases "a < b \<and> isspace (s ! (b - 1))")
    case True
    then have "a \<le> b - 1" by linarith
    note IH = "1.IH" [OF True this]
    have "i < b - 1 \<or> i = b - 1" if "i < b" for i using that by linarith
    with True IH show ?thesis
      by (simp only: trim_b_step) (metis diff_le_self le_trans)
  next
    case False
    with "1.prems" show ?thesis using trim_b_end [OF False] by auto
  qed
qed

lemmas trim_b_bounds = trim_b_spec [THEN conjunct1] trim_b_spec [THEN conjunct2, THEN conjunct1]
lemmas trim_b_stop = trim_b_spec [THEN conjunct2, THEN conjunct2, THEN conjunct1]
lemmas trim_b_spaces = trim_b_spec [THEN conjunct2, THEN conjunct2, THEN conjunct2, rule_format]

lemma trim_a_le: "trim_a s 0 \<le> length s"
  by (simp add: trim_a_add length_takeWhile_le)

lemma trim_parts:
  "\<exists>pre post. s = pre @ trim s @ post \<and> (\<forall>c \<in> set pre. isspace c) \<and> (\<forall>c \<in> set post. isspace c)"
proof -
  define a where "a = trim_a s 0"
  define b where "b = trim_b s a (length s)"
  have a: "a = length (takeWhile isspace s)" by (simp add: a_def trim_a_add)
  have ab: "a \<le> b" "b \<le> length s"
    using trim_b_bounds trim_a_le by (auto simp: a_def b_def)
  have "s = take a s @ substr s a (b - a) @ drop b s"
    using ab by (simp add: substr_def)
      (metis append_take_drop_id le_add_diff_inverse drop_drop add.commute)
  moreover have "\<forall>c \<in> set (take a s). isspace c"
    by (simp add: a takeWhile_eq_take [symmetric] del: set_takeWhileD) (auto dest: set_takeWhileD)
  moreover have "\<forall>c \<in> set (drop b s). isspace c"
  proof
    fix c assume "c \<in> set (drop b s)"
    then obtain i where "i < length (drop b s)" and "c = drop b s ! i" by (auto simp: in_set_conv_nth)
    then show "isspace c"
      using trim_b_spaces [of a "length s" s "b + i"] ab by (auto simp: b_def)
  qed
  ultimately show ?thesis
    by (auto simp: trim_def Let_def a_def b_def)
qed

lemma trim_ends: "trim s \<noteq> [] \<Longrightarrow> \<not> isspace (hd (trim s)) \<and> \<not> isspace (last (trim s))"
proof -
  assume ne: "trim s \<noteq> []"
  define a where "a = trim_a s 0"
  define b where "b = trim_b s a (length s)"
  have a: "a = length (takeWhile isspace s)" by (simp add: a_def trim_a_add)
  have ab: "a \<le> b" "b \<le> length s"
    using trim_b_bounds trim_a_le by (auto simp: a_def b_def)
  have t: "trim s = take (b - a) (drop a s)"
    by (simp add: trim_def substr_def Let_def a_def b_def)
  with ne have "a < b" by auto
  then have "hd (trim s) = s ! a" and "last (trim s) = s ! (b - 1)"
    using ab by (simp_all add: t hd_conv_nth last_conv_nth)
  moreover have "\<not> isspace (s ! a)"
    using \<open>a < b\<close> ab nth_length_takeWhile [of isspace s] by (simp add: a)
  moreover have "\<not> isspace (s ! (b - 1))"
    using trim_b_stop [of a "length s" s] \<open>a < b\<close> ab by (simp add: b_def)
  ultimately show ?thesis by simp
qed

section \<open>Paths\<close>

lemma joinPath_last:
  "a \<noteq> [] \<Longrightarrow> b \<noteq> [] \<Longrightarrow> CHR ''/'' \<notin> set b \<Longrightarrow>
     joinPath a b = (if last a = CHR ''/'' then a @ b else a @ ''/'' @ b)"
  by (cases b) (auto simp: joinPath_def)

text \<open>The prefix test holds exactly for the root itself and for the paths below it: a sibling
  such as \<open>/data/user2\<close> of \<open>/data/user\<close> is not inside.\<close>

lemma startsWithPath_iff:
  "root \<noteq> [] \<Longrightarrow> startsWithPath path root =
     Some (path = root \<or> (\<exists>rest. path = (if last root = CHR ''/'' then root else root @ ''/'') @ rest))"
  by (auto simp: startsWithPath_def Let_def)
    (metis append_take_drop_id append.assoc append_Cons append_Nil)+

lemma startsWithPath_joinPath:
  assumes "startsWithPath cur root = Some True" and "root \<noteq> []"
    and "name \<noteq> []" and "CHR ''/'' \<notin> set name"
  shows "startsWithPath (joinPath cur name) root = Some True"
proof -
  let ?prefix = "if last root = CHR ''/'' then root else root @ ''/''"
  have "cur = root \<or> (\<exists>rest. cur = ?prefix @ rest)"
    using assms(1,2) by (simp add: startsWithPath_iff)
  then have "\<exists>rest. joinPath cur name = ?prefix @ rest"
    using assms(2,3,4) by (auto simp: joinPath_last)
  then show ?thesis using assms(2) by (simp add: startsWithPath_iff)
qed

lemma takeWhile_shorter: "x \<in> set xs \<Longrightarrow> \<not> P x \<Longrightarrow> length (takeWhile P xs) < length xs"
  by (induction xs) auto

lemma find_last_of_Some:
  assumes "find_last_of c s = Some i"
  shows "i < length s" and "s = take i s @ c # drop (Suc i) s" and "c \<notin> set (drop (Suc i) s)"
proof -
  let ?t = "takeWhile (\<lambda>x. x \<noteq> c) (rev s)"
  have c: "c \<in> set s" and i: "i = length s - Suc (length ?t)"
    using assms by (auto simp: find_last_of_def split: if_splits)
  have lt: "length ?t < length s"
    using c takeWhile_shorter [of c "rev s" "\<lambda>x. x \<noteq> c"] by simp
  then have hit: "rev s ! length ?t = c"
    using nth_length_takeWhile [of "\<lambda>x. x \<noteq> c" "rev s"] by simp
  show i_lt: "i < length s" using lt i by linarith
  have "s ! i = c" using hit lt i by (simp add: rev_nth)
  with i_lt show "s = take i s @ c # drop (Suc i) s"
    using id_take_nth_drop by metis
  have "drop (Suc i) s = rev ?t"
    using lt i takeWhile_eq_take [of "\<lambda>x. x \<noteq> c" "rev s"]
    by (metis Suc_diff_Suc diff_diff_cancel length_rev less_imp_le rev_rev_ident rev_take)
  then show "c \<notin> set (drop (Suc i) s)" by (auto dest: set_takeWhileD)
qed

lemma find_last_of_None: "find_last_of c s = None \<longleftrightarrow> c \<notin> set s"
  by (simp add: find_last_of_def)

lemma find_last_of_snoc:
  assumes "c \<notin> set b"
  shows "find_last_of c (a @ c # b) = Some (length a)"
proof -
  have "takeWhile (\<lambda>x. x \<noteq> c) (rev (a @ c # b)) = rev b"
    using assms by (auto simp: takeWhile_append takeWhile_eq_all_conv)
  then show ?thesis by (simp add: find_last_of_def)
qed

lemma baseName_no_slash: "CHR ''/'' \<notin> set (baseName p)"
  using find_last_of_Some [of "CHR ''/''" p]
  by (auto simp: baseName_def find_last_of_None split: option.splits)

lemma baseName_append: "CHR ''/'' \<notin> set b \<Longrightarrow> baseName (a @ ''/'' @ b) = b"
  by (simp add: baseName_def find_last_of_snoc)

lemma parentDir_append:
  "CHR ''/'' \<notin> set b \<Longrightarrow> parentDir (a @ ''/'' @ b) = (if a = [] then ''/'' else a)"
  by (simp add: parentDir_def find_last_of_snoc substr_def)

section \<open>Hex coding\<close>

definition is_hex :: "char \<Rightarrow> bool" where
  "is_hex c \<longleftrightarrow> c \<in> set kHex"

lemma kHex_nth_nibble: "n < 16 \<Longrightarrow> nibble (kHex ! n) = int n \<and> is_hex (kHex ! n)"
proof -
  have "\<forall>n < 16. nibble (kHex ! n) = int n \<and> is_hex (kHex ! n)"
    by (simp add: kHex_def is_hex_def nibble_def char_code_def numeral_eq_Suc All_less_Suc)
  then show "n < 16 \<Longrightarrow> nibble (kHex ! n) = int n \<and> is_hex (kHex ! n)" by blast
qed

lemma and_0xF_bound: "unat (b AND 0xF :: u8) < 16"
proof -
  have "b AND 0xF \<le> 0xF" by (rule word_and_le1)
  then have "unat (b AND 0xF) \<le> unat (0xF :: u8)" by (rule word_le_nat_alt [THEN iffD1])
  then show ?thesis by simp
qed

lemma nibbles_join: "push_bit 4 (drop_bit 4 b AND 0xF) OR (b AND 0xF) = (b :: u8)"
proof (rule bit_word_eqI)
  fix n assume n: "n < LENGTH(8)"
  have mask: "(0xF :: u8) = mask 4" by (simp add: mask_eq_exp_minus_1)
  show "bit (push_bit 4 (drop_bit 4 b AND 0xF) OR (b AND 0xF)) n = bit b n"
    using n by (auto simp: mask bit_simps)
qed

lemma length_hex_digits [simp]: "length (hex_digits b) = 2"
  by (simp add: hex_digits_def)

lemma length_toHex: "length (toHex bs) = 2 * length bs"
  by (induction bs) (simp_all add: toHex_def)

lemma toHex_is_hex: "c \<in> set (toHex bs) \<Longrightarrow> is_hex c"
  using kHex_nth_nibble and_0xF_bound by (auto simp: toHex_def hex_digits_def)

lemma fromHex_go_toHex: "fromHex_go (toHex bs) = Some bs"
proof (induction bs)
  case (Cons b bs)
  have hi: "nibble (kHex ! unat (drop_bit 4 b AND 0xF)) = int (unat (drop_bit 4 b AND 0xF))"
    and lo: "nibble (kHex ! unat (b AND 0xF)) = int (unat (b AND 0xF))"
    using kHex_nth_nibble and_0xF_bound by blast+
  have "toHex (b # bs) =
      kHex ! unat (drop_bit 4 b AND 0xF) # kHex ! unat (b AND 0xF) # toHex bs"
    by (simp add: toHex_def hex_digits_def)
  with Cons show ?case using nibbles_join [of b] by (simp add: hi lo Let_def)
qed (simp add: toHex_def)

lemma fromHex_toHex: "fromHex (toHex bs) = bs"
  by (simp add: fromHex_def length_toHex fromHex_go_toHex)

section \<open>Decimal text\<close>

lemma digit_char: "n < 10 \<Longrightarrow> char_code (char_of (48 + n)) = 48 + n \<and> isdigit (char_of (48 + n))"
  by (simp add: char_code_def isdigit_def)

lemma digits_value_snoc: "digits_value (ds @ [c]) = 10 * digits_value ds + (char_code c - 48)"
  by (simp add: digits_value_def)

lemma to_string_nat_digits: "digits_value (to_string_nat n) = n \<and> (\<forall>c \<in> set (to_string_nat n). isdigit c)"
proof (induction n rule: to_string_nat.induct)
  case (1 n)
  show ?case
  proof (cases "n < 10")
    case True
    then show ?thesis
      using digit_char [of n] by (subst (1 2) to_string_nat.simps) (simp add: digits_value_def)
  next
    case False
    with "1" digit_char [of "n mod 10"] show ?thesis
      by (subst (1 2) to_string_nat.simps) (auto simp: digits_value_snoc)
  qed
qed

lemma to_string_nat_nonempty: "to_string_nat n \<noteq> []"
  by (subst to_string_nat.simps) simp

lemma to_string_nat_inj: "to_string_nat m = to_string_nat n \<longleftrightarrow> m = n"
  using to_string_nat_digits by metis

lemma isdigit_simps: "isdigit c \<Longrightarrow> \<not> isspace c \<and> c \<noteq> CHR ''-'' \<and> c \<noteq> CHR ''+'' \<and> c \<noteq> CHR '':'' \<and> c \<noteq> CHR ''|'' \<and> c \<noteq> NUL"
  by (auto simp: isdigit_def isspace_def char_code_def NUL_def)

lemma stoull_to_string:
  assumes "n < 2 ^ 64" and "rest = [] \<or> \<not> isdigit (hd rest)"
  shows "stoull (to_string_nat n @ rest) = Inr (of_nat n)"
proof -
  let ?s = "to_string_nat n"
  have d: "\<forall>c \<in> set ?s. isdigit c" and v: "digits_value ?s = n"
    using to_string_nat_digits by auto
  obtain c cs where s: "?s = c # cs" using to_string_nat_nonempty by (cases ?s) auto
  then have c: "isdigit c" using d by simp
  have "takeWhile isdigit (?s @ rest) = ?s"
    using d assms(2) by (cases rest) (auto simp: takeWhile_append)
  then show ?thesis
    using c assms(1) v isdigit_simps [OF c] by (simp add: stoull_def Let_def s)
qed

lemma to_string_int_inj: "to_string_int i = to_string_int j \<longleftrightarrow> i = j"
proof -
  have "CHR ''-'' # s \<noteq> to_string_nat n" for s n
    using to_string_nat_digits [of n] isdigit_simps by (metis list.set_intros(1))
  then show ?thesis
    by (auto simp: to_string_int_def to_string_nat_inj) metis+
qed

lemma to_string_int_chars:
  "c \<in> set (to_string_int i) \<Longrightarrow> c \<noteq> CHR ''|'' \<and> c \<noteq> CHR '':'' \<and> c \<noteq> NUL"
  using to_string_nat_digits isdigit_simps
  by (fastforce simp: to_string_int_def NUL_def split: if_splits)

end
