(* ===== verification/Services.thy ===== *)
theory Services
  imports CS_Utils
begin

text \<open>
  What the program calls and this repository does not contain: the operating system, the Redis
  client, the MySQL client, the message digests. Each is a record of functions over an abstract
  state (\<open>'f\<close>, \<open>'r\<close>, \<open>'m\<close>) that the definitions of the model take as an argument; nothing is
  assumed of them here. The theory also holds the server configuration
  (\<open>include/config.h\<close>) and the state the server threads through its calls.
\<close>

section \<open>Configuration\<close>

record config =
  listenIp :: string
  listenPort :: u16
  storageRoot :: string
  logFile :: string
  mysqlHost :: string
  mysqlPort :: u16
  mysqlUser :: string
  mysqlPassword :: string
  mysqlDb :: string
  mysqlPoolSize :: int
  redisHost :: string
  redisPort :: u16
  redisPassword :: string
  redisDb :: int
  chunkSize :: u32
  maxConnections :: int
  sessionTtlSec :: int
  connIdleTimeoutSec :: int
  maxUploadBytes :: u64
  challengeBytes :: u32
  copyWorkers :: int
  copySleepUs :: int

definition usersRoot :: "config \<Rightarrow> string" where
  "usersRoot c = storageRoot c @ ''/users''"

definition objectsRoot :: "config \<Rightarrow> string" where
  "objectsRoot c = storageRoot c @ ''/objects''"

definition tmpRoot :: "config \<Rightarrow> string" where
  "tmpRoot c = storageRoot c @ ''/tmp''"

section \<open>The operating system\<close>

type_synonym errno = int

definition ENOENT :: errno where "ENOENT = 2"
definition EEXIST :: errno where "EEXIST = 17"

text \<open>\<open>struct stat\<close> with the fields the server reads, and the mode tests of
  \<open>sys/stat.h\<close>.\<close>

record stat_buf =
  st_mode :: u32
  st_size :: int
  st_mtime :: int

definition S_IFMT :: "u32 \<Rightarrow> u32" where "S_IFMT m = m AND 0xF000"
definition S_ISREG :: "u32 \<Rightarrow> bool" where "S_ISREG m \<longleftrightarrow> S_IFMT m = 0x8000"
definition S_ISDIR :: "u32 \<Rightarrow> bool" where "S_ISDIR m \<longleftrightarrow> S_IFMT m = 0x4000"
definition S_ISLNK :: "u32 \<Rightarrow> bool" where "S_ISLNK m \<longleftrightarrow> S_IFMT m = 0xA000"
definition S_ISFIFO :: "u32 \<Rightarrow> bool" where "S_ISFIFO m \<longleftrightarrow> S_IFMT m = 0x1000"
definition S_ISSOCK :: "u32 \<Rightarrow> bool" where "S_ISSOCK m \<longleftrightarrow> S_IFMT m = 0xC000"
definition S_ISCHR :: "u32 \<Rightarrow> bool" where "S_ISCHR m \<longleftrightarrow> S_IFMT m = 0x2000"
definition S_ISBLK :: "u32 \<Rightarrow> bool" where "S_ISBLK m \<longleftrightarrow> S_IFMT m = 0x6000"

datatype open_flags = O_RDONLY | O_WRONLY_CREAT_TRUNC | O_RDWR_CREAT

text \<open>
  A call that only reports success returns \<open>None\<close> for it and \<open>Some errno\<close> otherwise; \<open>open\<close>
  returns the descriptor or the error; \<open>read\<close>, \<open>write\<close>, \<open>pread\<close> and \<open>pwrite\<close> return
  \<open>None\<close> for \<open>-1\<close>. \<open>ifs_bytes\<close> is the sequence of bytes a \<open>std::ifstream\<close> opened on the
  path delivers, \<open>None\<close> when it cannot be opened. \<open>os_random\<close> is \<open>std::random_device\<close>
  feeding the generator of \<open>randomHex\<close>.
\<close>

record 'f posix =
  os_lstat :: "string \<Rightarrow> 'f \<Rightarrow> stat_buf option"
  os_stat :: "string \<Rightarrow> 'f \<Rightarrow> stat_buf option"
  os_fstat :: "int \<Rightarrow> 'f \<Rightarrow> stat_buf option"
  os_realpath :: "string \<Rightarrow> 'f \<Rightarrow> string option"
  os_mkdir :: "string \<Rightarrow> 'f \<Rightarrow> errno option \<times> 'f"
  os_unlink :: "string \<Rightarrow> 'f \<Rightarrow> errno option \<times> 'f"
  os_rmdir :: "string \<Rightarrow> 'f \<Rightarrow> errno option \<times> 'f"
  os_rename :: "string \<Rightarrow> string \<Rightarrow> 'f \<Rightarrow> errno option \<times> 'f"
  os_chmod :: "string \<Rightarrow> nat \<Rightarrow> 'f \<Rightarrow> errno option \<times> 'f"
  os_open :: "string \<Rightarrow> open_flags \<Rightarrow> 'f \<Rightarrow> (errno + int) \<times> 'f"
  os_close :: "int \<Rightarrow> 'f \<Rightarrow> 'f"
  os_fsync :: "int \<Rightarrow> 'f \<Rightarrow> 'f"
  os_read :: "int \<Rightarrow> nat \<Rightarrow> 'f \<Rightarrow> string option \<times> 'f"
  os_write :: "int \<Rightarrow> string \<Rightarrow> 'f \<Rightarrow> nat option \<times> 'f"
  os_pread :: "int \<Rightarrow> nat \<Rightarrow> int \<Rightarrow> 'f \<Rightarrow> string option"
  os_pwrite :: "int \<Rightarrow> string \<Rightarrow> int \<Rightarrow> 'f \<Rightarrow> nat option \<times> 'f"
  os_ftruncate :: "int \<Rightarrow> int \<Rightarrow> 'f \<Rightarrow> errno option \<times> 'f"
  os_readdir :: "string \<Rightarrow> 'f \<Rightarrow> string list option"
  os_strerror :: "errno \<Rightarrow> string"
  os_random :: "nat \<Rightarrow> 'f \<Rightarrow> u8 list \<times> 'f"
  ifs_bytes :: "string \<Rightarrow> 'f \<Rightarrow> string option"

section \<open>Redis\<close>

text \<open>\<open>redisCommand\<close> of hiredis: the argument vector the format string denotes (each \<open>%s\<close> the
  C string, each \<open>%b\<close> the counted bytes), and the reply, \<open>None\<close> for a null reply.\<close>

datatype redis_reply =
    R_STRING string | R_INTEGER int | R_STATUS string | R_NIL | R_ERROR string

datatype redis_conn = ConnNull | ConnErr string | ConnOk

record 'r hiredis =
  redisConnect :: "string \<Rightarrow> u16 \<Rightarrow> 'r \<Rightarrow> redis_conn \<times> 'r"
  redisErr :: "'r \<Rightarrow> bool"
  redisFree :: "'r \<Rightarrow> 'r"
  redisCommand :: "string list \<Rightarrow> 'r \<Rightarrow> redis_reply option \<times> 'r"

section \<open>MySQL\<close>

datatype sql_value = SqlInt int | SqlUInt u64 | SqlString string

record sql_result =
  sql_rows :: "sql_value list list"
  sql_insert_id :: u64

text \<open>
  The client calls the pool and the prepared statements make, on a connection handle:
  \<open>mysql_ping\<close> (\<open>True\<close> for 0), connecting one handle, closing it, preparing a statement and
  executing it with its bound parameters. \<open>sql_rows\<close> are the rows that
  \<open>mysql_stmt_fetch\<close> delivers with return code 0 before it returns another code. \<open>my_query\<close> is
  \<open>mysql_query\<close> followed by \<open>mysql_store_result\<close>: the error text, or the rows of the stored
  result as text (\<open>None\<close> for SQL's NULL), or no result.
\<close>

datatype my_conn = MyInitFail | MyConnFail string | MyConnected nat

record 'm mysql_client =
  my_ping :: "nat \<Rightarrow> 'm \<Rightarrow> bool \<times> 'm"
  my_connect :: "'m \<Rightarrow> my_conn \<times> 'm"
  my_close :: "nat \<Rightarrow> 'm \<Rightarrow> 'm"
  my_prepare :: "nat \<Rightarrow> string \<Rightarrow> 'm \<Rightarrow> string option \<times> 'm"
  my_execute :: "nat \<Rightarrow> string \<Rightarrow> sql_value list \<Rightarrow> 'm \<Rightarrow> (string + sql_result) \<times> 'm"
  my_query :: "nat \<Rightarrow> string \<Rightarrow> 'm \<Rightarrow> (string + string option list list option) \<times> 'm"

section \<open>The environment and the server's state\<close>

datatype digest_alg = MD5 | SHA256

datatype evp_result = EvpDigest "u8 list" | EvpAllocFail | EvpInitFail | EvpUpdateFail | EvpFinalFail

text \<open>\<open>evp\<close> is a run of the digest interface of OpenSSL: allocate a context, initialise it, update
  it once with each of the given pieces, finalise; or the call that failed. \<open>loop_bound\<close> bounds the number of
  turns of the loops over operating-system calls; a loop that needs more is \<open>Blocked\<close>.\<close>

record ('r, 'm, 'f) env =
  cfg :: config
  os :: "'f posix"
  rds :: "'r hiredis"
  sql :: "'m mysql_client"
  evp :: "digest_alg \<Rightarrow> string list \<Rightarrow> evp_result"
  loop_bound :: nat

text \<open>The state: the file system, the Redis service with whether \<open>RedisStore::ctx_\<close> is non-null,
  the MySQL service with the idle queue and the stop flag of \<open>MysqlPool\<close>.\<close>

record ('r, 'm, 'f) world =
  w_os :: 'f
  w_redis :: 'r
  ctx_set :: bool
  w_mysql :: 'm
  idle_conns :: "nat list"
  pool_stopping :: bool

definition on_os :: "('f \<Rightarrow> 'a \<times> 'f) \<Rightarrow> (('r, 'm, 'f, 'z) world_scheme, 'a) cpp" where
  "on_os g = (\<lambda>w. case g (w_os w) of (x, f) \<Rightarrow> (Ret x, w\<lparr>w_os := f\<rparr>))"

definition on_redis :: "('r \<Rightarrow> 'a \<times> 'r) \<Rightarrow> (('r, 'm, 'f, 'z) world_scheme, 'a) cpp" where
  "on_redis g = (\<lambda>w. case g (w_redis w) of (x, r) \<Rightarrow> (Ret x, w\<lparr>w_redis := r\<rparr>))"

definition on_mysql :: "('m \<Rightarrow> 'a \<times> 'm) \<Rightarrow> (('r, 'm, 'f, 'z) world_scheme, 'a) cpp" where
  "on_mysql g = (\<lambda>w. case g (w_mysql w) of (x, m) \<Rightarrow> (Ret x, w\<lparr>w_mysql := m\<rparr>))"

lemma on_os_run [run_simps]: "on_os g w = (Ret (fst (g (w_os w))), w\<lparr>w_os := snd (g (w_os w))\<rparr>)"
  by (simp add: on_os_def split: prod.splits)

lemma on_redis_run [run_simps]:
  "on_redis g w = (Ret (fst (g (w_redis w))), w\<lparr>w_redis := snd (g (w_redis w))\<rparr>)"
  by (simp add: on_redis_def split: prod.splits)

lemma on_mysql_run [run_simps]:
  "on_mysql g w = (Ret (fst (g (w_mysql w))), w\<lparr>w_mysql := snd (g (w_mysql w))\<rparr>)"
  by (simp add: on_mysql_def split: prod.splits)

section \<open>Computations that touch the file system only\<close>

definition os_frame :: "(('r, 'm, 'f, 'z) world_scheme, 'a) cpp \<Rightarrow> bool" where
  "os_frame m \<longleftrightarrow> (\<forall>w. \<exists>r f. m w = (r, w\<lparr>w_os := f\<rparr>))"

named_theorems os_frame_intros "computations that touch the file system only"

lemma os_frameI: "(\<And>w. \<exists>r. m w = (r, w)) \<Longrightarrow> os_frame m"
  unfolding os_frame_def by (metis world.surjective world.update_convs(1))

lemma os_frame_basic [os_frame_intros]:
  "os_frame (return x)" "os_frame (throw e)" "os_frame (gets g)" "os_frame blocked" "os_frame (liftS r)"
  "os_frame (Pair z)"
  by (intro os_frameI; cases r; simp)+

lemma os_frame_on_os [os_frame_intros]: "os_frame (on_os g)"
  unfolding os_frame_def on_os_run by blast

lemma os_frame_bind [os_frame_intros]:
  assumes "os_frame m" and "\<And>x. os_frame (f x)"
  shows "os_frame (bindE m f)"
  unfolding os_frame_def
proof
  fix w
  obtain r g where m: "m w = (r, w\<lparr>w_os := g\<rparr>)" using assms(1) unfolding os_frame_def by blast
  show "\<exists>r f'. bindE m f w = (r, w\<lparr>w_os := f'\<rparr>)"
  proof (cases r)
    case (Ret x)
    obtain r' g' where "f x (w\<lparr>w_os := g\<rparr>) = (r', w\<lparr>w_os := g\<rparr>\<lparr>w_os := g'\<rparr>)"
      using assms(2) [of x] unfolding os_frame_def by blast
    with m Ret show ?thesis by (auto simp: bindE_run)
  qed (use m in \<open>auto simp: bindE_run\<close>)
qed

lemma os_frame_cases [os_frame_intros]:
  "(b \<Longrightarrow> os_frame m) \<Longrightarrow> (\<not> b \<Longrightarrow> os_frame n) \<Longrightarrow> os_frame (if b then m else n)"
  "(z = None \<Longrightarrow> os_frame m) \<Longrightarrow> (\<And>y. z = Some y \<Longrightarrow> os_frame (k y)) \<Longrightarrow>
   os_frame (case z of None \<Rightarrow> m | Some y \<Rightarrow> k y)"
  "(\<And>y. os_frame (j y)) \<Longrightarrow> (\<And>y. os_frame (k' y)) \<Longrightarrow> os_frame (case v of Inl y \<Rightarrow> j y | Inr y \<Rightarrow> k' y)"
  by (cases z; cases v; simp)+

section \<open>Computations that leave the connection's own state alone\<close>

text \<open>The services are shared by all connections; what a connection adds to the state is the
  record extension, which their operations do not see.\<close>

definition more_frame :: "(('r, 'm, 'f, 'z) world_scheme, 'a) cpp \<Rightarrow> bool" where
  "more_frame m \<longleftrightarrow> (\<forall>w. world.more (snd (m w)) = world.more w)"

named_theorems more_frame_intros "computations that leave the connection's own state alone"

lemma os_more_frame: "os_frame m \<Longrightarrow> more_frame m"
  unfolding os_frame_def more_frame_def
proof
  fix w
  assume "\<forall>w. \<exists>r f. m w = (r, w\<lparr>w_os := f\<rparr>)"
  then obtain r f where "m w = (r, w\<lparr>w_os := f\<rparr>)" by blast
  then show "world.more (snd (m w)) = world.more w" by simp
qed

lemma more_frame_basic [more_frame_intros]:
  "more_frame (return x)" "more_frame (throw e)" "more_frame (gets g)" "more_frame (liftS r)"
  "more_frame (on_os h)" "more_frame (on_redis i)" "more_frame (on_mysql j)" "more_frame (Pair y)"
  by (simp_all add: os_more_frame os_frame_intros) (simp_all add: more_frame_def on_redis_run on_mysql_run)

lemma more_frameD: "more_frame m \<Longrightarrow> world.more (snd (m w)) = world.more w"
  by (simp add: more_frame_def)

lemma more_snd_if:
  "(b \<Longrightarrow> world.more (snd x) = z) \<Longrightarrow> (\<not> b \<Longrightarrow> world.more (snd y) = z) \<Longrightarrow>
   world.more (snd (if b then x else y)) = z"
  by simp

lemma more_frame_replies [more_frame_intros]:
  "more_frame m \<Longrightarrow> (\<And>e. more_frame (k e)) \<Longrightarrow> more_frame n \<Longrightarrow>
   more_frame (case c of ConnNull \<Rightarrow> m | ConnErr e \<Rightarrow> k e | ConnOk \<Rightarrow> n)"
  "(\<And>e. more_frame (k e)) \<Longrightarrow> more_frame n \<Longrightarrow> more_frame (case y of R_ERROR e \<Rightarrow> k e | _ \<Rightarrow> n)"
  "more_frame m \<Longrightarrow> (\<And>e. more_frame (k e)) \<Longrightarrow> (\<And>h. more_frame (l h)) \<Longrightarrow>
   more_frame (case d of MyInitFail \<Rightarrow> m | MyConnFail e \<Rightarrow> k e | MyConnected h \<Rightarrow> l h)"
  by (cases c; cases y; cases d; simp)+

lemma more_frame_modify: "(\<And>w. world.more (f w) = world.more w) \<Longrightarrow> more_frame (modify f)"
  by (simp add: more_frame_def)

lemma more_frame_bind [more_frame_intros]:
  "more_frame m \<Longrightarrow> (\<And>x. more_frame (f x)) \<Longrightarrow> more_frame (bindE m f)"
  "more_frame m \<Longrightarrow> (\<And>x. more_frame (h x)) \<Longrightarrow> more_frame (catchE m h)"
  unfolding more_frame_def bindE_def catchE_def
  by (auto split: prod.splits outcome.splits) (metis snd_conv)+

lemma more_frame_finally:
  "more_frame m \<Longrightarrow> (\<And>w. world.more (c w) = world.more w) \<Longrightarrow> more_frame (finallyE m c)"
  unfolding more_frame_def finallyE_def by (auto split: prod.splits outcome.splits) (metis snd_conv)+

lemma more_frame_cases [more_frame_intros]:
  "(b \<Longrightarrow> more_frame m) \<Longrightarrow> (\<not> b \<Longrightarrow> more_frame n) \<Longrightarrow> more_frame (if b then m else n)"
  "(z = None \<Longrightarrow> more_frame m) \<Longrightarrow> (\<And>y. z = Some y \<Longrightarrow> more_frame (k y)) \<Longrightarrow>
   more_frame (case z of None \<Rightarrow> m | Some y \<Rightarrow> k y)"
  "(\<And>y. more_frame (l y)) \<Longrightarrow> (\<And>y. more_frame (k' y)) \<Longrightarrow> more_frame (case v of Inl y \<Rightarrow> l y | Inr y \<Rightarrow> k' y)"
  "(\<And>y z. more_frame (g y z)) \<Longrightarrow> more_frame (case pr of (y, z) \<Rightarrow> g y z)"
  by (cases z; cases v; cases pr; simp)+

lemma more_frame_forE [more_frame_intros]: "(\<And>x. more_frame (f x)) \<Longrightarrow> more_frame (forE xs f)"
  by (induction xs) (simp_all only: forE.simps more_frame_intros)

end
