(* ===== verification/Redis_Store.thy ===== *)
theory Redis_Store
  imports Services
begin

text \<open>
  \<open>src/redis_store.cpp\<close>: the connection set-up, the seven commands the server issues, and
  the session, object, reference, path and challenge entries built from them. The commands go to
  the parameter \<open>redisCommand\<close>; the locale \<open>redis_service\<close> states the documented effect of
  those commands on the keys, and the laws of the store are derived from it.
\<close>

section \<open>Connection\<close>

definition ensure :: "('r, 'm, 'f) env \<Rightarrow> (('r, 'm, 'f, 'z) world_scheme, unit) cpp" where
  "ensure A = (\<lambda>w.
     if ctx_set w \<and> \<not> redisErr (rds A) (w_redis w) then (Ret (), w)
     else
       bindE (if ctx_set w then bindE (on_redis (\<lambda>r. ((), redisFree (rds A) r)))
                               (\<lambda>_. modify (\<lambda>w. w\<lparr>ctx_set := False\<rparr>)) else return ()) (\<lambda>_.
       bindE (on_redis (redisConnect (rds A) (c_str (redisHost (cfg A))) (redisPort (cfg A)))) (\<lambda>c.
       bindE (case c of
                ConnNull \<Rightarrow> throw (StdException ''redis connect failed: alloc failed'')
              | ConnErr e \<Rightarrow> bindE (on_redis (\<lambda>r. ((), redisFree (rds A) r)))
                               (\<lambda>_. throw (StdException (''redis connect failed: '' @ e)))
              | ConnOk \<Rightarrow> modify (\<lambda>w. w\<lparr>ctx_set := True\<rparr>)) (\<lambda>_.
       bindE (if redisPassword (cfg A) \<noteq> [] then
                bindE (on_redis (redisCommand (rds A) [''AUTH'', c_str (redisPassword (cfg A))])) (\<lambda>r.
                case r of
                  None \<Rightarrow> throw (StdException ''redis auth failed: auth failed'')
                | Some (R_ERROR e) \<Rightarrow> throw (StdException (''redis auth failed: '' @ e))
                | Some _ \<Rightarrow> return ())
              else return ()) (\<lambda>_.
       bindE (on_redis (redisCommand (rds A) [''SELECT'', to_string_int (redisDb (cfg A))])) (\<lambda>r.
       case r of
         None \<Rightarrow> throw (StdException ''redis select failed: select failed'')
       | Some (R_ERROR e) \<Rightarrow> throw (StdException (''redis select failed: '' @ e))
       | Some _ \<Rightarrow> return ()))))) w)"

text \<open>The destructor.\<close>

definition freeRedis :: "('r, 'm, 'f) env \<Rightarrow> (('r, 'm, 'f, 'z) world_scheme, unit) cpp" where
  "freeRedis A = bindE (gets ctx_set) (\<lambda>set.
     if set then bindE (on_redis (\<lambda>r. ((), redisFree (rds A) r))) (\<lambda>_. modify (\<lambda>w. w\<lparr>ctx_set := False\<rparr>))
     else return ())"

definition command :: "('r, 'm, 'f) env \<Rightarrow> string list \<Rightarrow>
    (('r, 'm, 'f, 'z) world_scheme, redis_reply option) cpp" where
  "command A args = bindE (ensure A) (\<lambda>_. on_redis (redisCommand (rds A) args))"

definition ping :: "('r, 'm, 'f) env \<Rightarrow> (('r, 'm, 'f, 'z) world_scheme, bool) cpp" where
  "ping A = bindE (command A [''PING'']) (\<lambda>r. return (r = Some (R_STATUS ''PONG'')))"

section \<open>Commands\<close>

definition cmdGet :: "('r, 'm, 'f) env \<Rightarrow> string \<Rightarrow> (('r, 'm, 'f, 'z) world_scheme, string) cpp" where
  "cmdGet A key = bindE (command A [''GET'', c_str key]) (\<lambda>r.
     return (case r of Some (R_STRING s) \<Rightarrow> s | _ \<Rightarrow> []))"

definition cmdSetEx :: "('r, 'm, 'f) env \<Rightarrow> string \<Rightarrow> string \<Rightarrow> int \<Rightarrow>
    (('r, 'm, 'f, 'z) world_scheme, unit) cpp" where
  "cmdSetEx A key value ttl =
     bindE (command A [''SETEX'', c_str key, to_string_int ttl, value]) (\<lambda>_. return ())"

definition cmdSet :: "('r, 'm, 'f) env \<Rightarrow> string \<Rightarrow> string \<Rightarrow>
    (('r, 'm, 'f, 'z) world_scheme, unit) cpp" where
  "cmdSet A key value = bindE (command A [''SET'', c_str key, value]) (\<lambda>_. return ())"

definition cmdDel :: "('r, 'm, 'f) env \<Rightarrow> string \<Rightarrow> (('r, 'm, 'f, 'z) world_scheme, unit) cpp" where
  "cmdDel A key = bindE (command A [''DEL'', c_str key]) (\<lambda>_. return ())"

definition integer_of :: "redis_reply option \<Rightarrow> int" where
  "integer_of r = (case r of Some (R_INTEGER n) \<Rightarrow> n | _ \<Rightarrow> 0)"

definition cmdSAdd :: "('r, 'm, 'f) env \<Rightarrow> string \<Rightarrow> string \<Rightarrow>
    (('r, 'm, 'f, 'z) world_scheme, int) cpp" where
  "cmdSAdd A key member =
     bindE (command A [''SADD'', c_str key, c_str member]) (\<lambda>r. return (integer_of r))"

definition cmdSRem :: "('r, 'm, 'f) env \<Rightarrow> string \<Rightarrow> string \<Rightarrow>
    (('r, 'm, 'f, 'z) world_scheme, int) cpp" where
  "cmdSRem A key member =
     bindE (command A [''SREM'', c_str key, c_str member]) (\<lambda>r. return (integer_of r))"

definition cmdSCard :: "('r, 'm, 'f) env \<Rightarrow> string \<Rightarrow> (('r, 'm, 'f, 'z) world_scheme, int) cpp" where
  "cmdSCard A key = bindE (command A [''SCARD'', c_str key]) (\<lambda>r. return (integer_of r))"

section \<open>Entries\<close>

definition sessionKey :: "string \<Rightarrow> string" where "sessionKey token = ''cs:session:'' @ token"
definition objKey :: "string \<Rightarrow> string" where "objKey md5 = ''cs:obj:'' @ md5"
definition objsizeKey :: "string \<Rightarrow> string" where "objsizeKey md5 = ''cs:objsize:'' @ md5"
definition refsKey :: "string \<Rightarrow> string" where "refsKey md5 = ''cs:refs:'' @ md5"

definition pathKey :: "int \<Rightarrow> string \<Rightarrow> string" where
  "pathKey userId virtualPath = ''cs:path:'' @ to_string_int userId @ '':'' @ virtualPath"

definition chalKey :: "string \<Rightarrow> string \<Rightarrow> string" where
  "chalKey token md5 = ''cs:chal:'' @ token @ '':'' @ md5"

definition refMember :: "int \<Rightarrow> string \<Rightarrow> string" where
  "refMember userId virtualPath = to_string_int userId @ ''|'' @ virtualPath"

definition setSession :: "('r, 'm, 'f) env \<Rightarrow> string \<Rightarrow> string \<Rightarrow> int \<Rightarrow>
    (('r, 'm, 'f, 'z) world_scheme, unit) cpp" where
  "setSession A token json ttlSec = cmdSetEx A (sessionKey token) json ttlSec"

definition getSession :: "('r, 'm, 'f) env \<Rightarrow> string \<Rightarrow>
    (('r, 'm, 'f, 'z) world_scheme, string) cpp" where
  "getSession A token = cmdGet A (sessionKey token)"

definition delSession :: "('r, 'm, 'f) env \<Rightarrow> string \<Rightarrow>
    (('r, 'm, 'f, 'z) world_scheme, unit) cpp" where
  "delSession A token = cmdDel A (sessionKey token)"

definition setObject :: "('r, 'm, 'f) env \<Rightarrow> string \<Rightarrow> string \<Rightarrow> u64 \<Rightarrow>
    (('r, 'm, 'f, 'z) world_scheme, unit) cpp" where
  "setObject A md5 objectPath sz =
     bindE (cmdSet A (objKey md5) objectPath) (\<lambda>_.
     cmdSet A (objsizeKey md5) (to_string_nat (unat sz)))"

definition getObjectPath :: "('r, 'm, 'f) env \<Rightarrow> string \<Rightarrow>
    (('r, 'm, 'f, 'z) world_scheme, string) cpp" where
  "getObjectPath A md5 = cmdGet A (objKey md5)"

definition getObjectSize :: "('r, 'm, 'f) env \<Rightarrow> string \<Rightarrow>
    (('r, 'm, 'f, 'z) world_scheme, u64) cpp" where
  "getObjectSize A md5 = bindE (cmdGet A (objsizeKey md5)) (\<lambda>s.
     if s = [] then return 0 else liftS (stoull s))"

definition deleteObjectMeta :: "('r, 'm, 'f) env \<Rightarrow> string \<Rightarrow>
    (('r, 'm, 'f, 'z) world_scheme, unit) cpp" where
  "deleteObjectMeta A md5 =
     bindE (cmdDel A (objKey md5)) (\<lambda>_.
     bindE (cmdDel A (objsizeKey md5)) (\<lambda>_.
     cmdDel A (refsKey md5)))"

definition addRef :: "('r, 'm, 'f) env \<Rightarrow> string \<Rightarrow> int \<Rightarrow> string \<Rightarrow>
    (('r, 'm, 'f, 'z) world_scheme, unit) cpp" where
  "addRef A md5 userId virtualPath =
     bindE (cmdSAdd A (refsKey md5) (refMember userId virtualPath)) (\<lambda>_. return ())"

definition removeRef :: "('r, 'm, 'f) env \<Rightarrow> string \<Rightarrow> int \<Rightarrow> string \<Rightarrow>
    (('r, 'm, 'f, 'z) world_scheme, int) cpp" where
  "removeRef A md5 userId virtualPath =
     bindE (cmdSRem A (refsKey md5) (refMember userId virtualPath)) (\<lambda>_.
     cmdSCard A (refsKey md5))"

definition refCount :: "('r, 'm, 'f) env \<Rightarrow> string \<Rightarrow> (('r, 'm, 'f, 'z) world_scheme, int) cpp" where
  "refCount A md5 = cmdSCard A (refsKey md5)"

definition setPathMd5 :: "('r, 'm, 'f) env \<Rightarrow> int \<Rightarrow> string \<Rightarrow> string \<Rightarrow>
    (('r, 'm, 'f, 'z) world_scheme, unit) cpp" where
  "setPathMd5 A userId virtualPath md5 = cmdSet A (pathKey userId virtualPath) md5"

definition getPathMd5 :: "('r, 'm, 'f) env \<Rightarrow> int \<Rightarrow> string \<Rightarrow>
    (('r, 'm, 'f, 'z) world_scheme, string) cpp" where
  "getPathMd5 A userId virtualPath = cmdGet A (pathKey userId virtualPath)"

definition delPathMd5 :: "('r, 'm, 'f) env \<Rightarrow> int \<Rightarrow> string \<Rightarrow>
    (('r, 'm, 'f, 'z) world_scheme, unit) cpp" where
  "delPathMd5 A userId virtualPath = cmdDel A (pathKey userId virtualPath)"

definition setChallenge :: "('r, 'm, 'f) env \<Rightarrow> string \<Rightarrow> string \<Rightarrow> u64 \<Rightarrow> u32 \<Rightarrow>
    (('r, 'm, 'f, 'z) world_scheme, unit) cpp" where
  "setChallenge A token md5 offset len =
     cmdSetEx A (chalKey token md5)
       (to_string_nat (unat offset) @ '':'' @ to_string_nat (unat len)) 120"

text \<open>\<open>std::stoul\<close> is \<open>std::stoull\<close> on the 64-bit Linux targets; the result is cut to 32 bits.\<close>

definition getChallenge :: "('r, 'm, 'f) env \<Rightarrow> string \<Rightarrow> string \<Rightarrow>
    (('r, 'm, 'f, 'z) world_scheme, (u64 \<times> u32) option) cpp" where
  "getChallenge A token md5 = bindE (cmdGet A (chalKey token md5)) (\<lambda>s.
     case find_first CHR '':'' s of
       None \<Rightarrow> return None
     | Some pos \<Rightarrow>
         bindE (liftS (stoull (substr s 0 pos))) (\<lambda>offset.
         bindE (liftS (stoull (drop (pos + 1) s))) (\<lambda>len.
         return (Some (offset, ucast len)))))"

definition delChallenge :: "('r, 'm, 'f) env \<Rightarrow> string \<Rightarrow> string \<Rightarrow>
    (('r, 'm, 'f, 'z) world_scheme, unit) cpp" where
  "delChallenge A token md5 = cmdDel A (chalKey token md5)"

section \<open>The store leaves the connection's own state alone\<close>

lemma more_frame_ensure [more_frame_intros]: "more_frame (ensure A)"
  unfolding more_frame_def ensure_def
  by (rule allI, rule more_snd_if, simp, rule more_frameD, intro more_frame_intros more_frame_modify) simp_all

lemma more_frame_commands [more_frame_intros]:
  "more_frame (command A args)" "more_frame (cmdGet A k)" "more_frame (cmdSetEx A k v t)"
  "more_frame (cmdSet A k v)" "more_frame (cmdDel A k)" "more_frame (cmdSAdd A k v)"
  "more_frame (cmdSRem A k v)" "more_frame (cmdSCard A k)"
  unfolding cmdGet_def cmdSetEx_def cmdSet_def cmdDel_def cmdSAdd_def cmdSRem_def cmdSCard_def command_def
  by (intro more_frame_intros)+

lemma more_frame_store [more_frame_intros]:
  "more_frame (setSession A t j n)" "more_frame (getSession A t)" "more_frame (delSession A t)"
  "more_frame (setObject A m ob sz)" "more_frame (getObjectPath A m)" "more_frame (deleteObjectMeta A m)"
  "more_frame (addRef A m u p)" "more_frame (removeRef A m u p)" "more_frame (setPathMd5 A u p m)"
  "more_frame (getPathMd5 A u p)" "more_frame (delPathMd5 A u p)" "more_frame (setChallenge A t m off len)"
  "more_frame (getChallenge A t m)" "more_frame (delChallenge A t m)"
  unfolding setSession_def getSession_def delSession_def setObject_def getObjectPath_def deleteObjectMeta_def
    addRef_def removeRef_def setPathMd5_def getPathMd5_def delPathMd5_def setChallenge_def getChallenge_def
    delChallenge_def
  by (intro more_frame_intros)+

section \<open>Keys\<close>

text \<open>The interface of a family of keys: no two identifiers share a key, and every key starts with
  the family's tag, so that families with different tags never collide.\<close>

locale key_family =
  fixes key :: "'i \<Rightarrow> string" and tag :: string
  assumes key_inj: "key i = key j \<longleftrightarrow> i = j"
    and key_tag: "take (length tag) (key i) = tag"
begin

lemma key_apart:
  assumes "take (length tag') k = tag'" and "length tag \<le> length tag'" and "take (length tag) tag' \<noteq> tag"
  shows "key i \<noteq> k"
proof
  assume "key i = k"
  then have "take (length tag) k = tag" using key_tag by metis
  moreover have "take (length tag) k = take (length tag) tag'"
    using assms(1,2) by (metis take_take min.absorb2 min.commute)
  ultimately show False using assms(3) by simp
qed

lemma map_upd_other: "i \<noteq> j \<Longrightarrow> (m(key i := x)) (key j) = m (key j)"
  using key_inj by auto

end

lemma digits_delim_inj:
  "to_string_int u @ d # x = to_string_int v @ d # y \<longleftrightarrow> u = v \<and> x = y"
  if "d = CHR '':'' \<or> d = CHR ''|''"
proof
  assume eq: "to_string_int u @ d # x = to_string_int v @ d # y"
  have no: "d \<notin> set (to_string_int i)" for i
    using that to_string_int_chars by blast
  have "takeWhile (\<lambda>c. c \<noteq> d) (to_string_int i @ d # z) = to_string_int i" for i z
    using no [of i] by (simp add: takeWhile_append takeWhile_eq_all_conv)
  with eq have "to_string_int u = to_string_int v" by metis
  with eq show "u = v \<and> x = y" by (simp add: to_string_int_inj)
qed simp

interpretation sessions: key_family sessionKey "''cs:session:''"
  by unfold_locales (simp_all add: sessionKey_def)

interpretation objs: key_family objKey "''cs:obj:''"
  by unfold_locales (simp_all add: objKey_def)

interpretation objsizes: key_family objsizeKey "''cs:objsize:''"
  by unfold_locales (simp_all add: objsizeKey_def)

interpretation refs: key_family refsKey "''cs:refs:''"
  by unfold_locales (simp_all add: refsKey_def)

interpretation paths: key_family "\<lambda>(u, p). pathKey u p" "''cs:path:''"
  by unfold_locales (auto simp: pathKey_def digits_delim_inj)

interpretation members: key_family "\<lambda>(u, p). refMember u p" "[]"
  by unfold_locales (auto simp: refMember_def digits_delim_inj)

lemma refsKey_neq:
  "objKey m \<noteq> refsKey k" "objsizeKey m \<noteq> refsKey k" "pathKey u p \<noteq> refsKey k"
  "chalKey t m \<noteq> refsKey k" "sessionKey t \<noteq> refsKey k"
  by (simp_all add: objKey_def objsizeKey_def pathKey_def chalKey_def sessionKey_def refsKey_def)

lemma string_keys_neq:
  "objKey m \<noteq> pathKey u p" "objsizeKey m \<noteq> pathKey u p" "objKey m \<noteq> objsizeKey k"
  "chalKey t k \<noteq> pathKey u p" "chalKey t k \<noteq> objKey m" "chalKey t k \<noteq> objsizeKey m"
  "sessionKey t \<noteq> pathKey u p" "sessionKey t \<noteq> objKey m" "sessionKey t \<noteq> objsizeKey m"
  "sessionKey t \<noteq> chalKey t' m"
  by (simp_all add: objKey_def objsizeKey_def pathKey_def chalKey_def sessionKey_def)

lemmas keys_neq [simp] =
  refsKey_neq refsKey_neq [symmetric] string_keys_neq string_keys_neq [symmetric]

lemma keys_eq [simp]:
  "objKey m = objKey m' \<longleftrightarrow> m = m'" "objsizeKey m = objsizeKey m' \<longleftrightarrow> m = m'"
  "refsKey m = refsKey m' \<longleftrightarrow> m = m'" "sessionKey t = sessionKey t' \<longleftrightarrow> t = t'"
  "pathKey u p = pathKey u' p' \<longleftrightarrow> u = u' \<and> p = p'"
  "refMember u p = refMember u' p' \<longleftrightarrow> u = u' \<and> p = p'"
  by (simp_all add: objs.key_inj objsizes.key_inj refs.key_inj sessions.key_inj
      paths.key_inj [of "(u, p)" "(u', p')", simplified]
      members.key_inj [of "(u, p)" "(u', p')", simplified])

lemma chalKey_eq: "length t = length t' \<Longrightarrow> chalKey t m = chalKey t' m' \<longleftrightarrow> t = t' \<and> m = m'"
  by (auto simp: chalKey_def)

lemma c_str_append: "NUL \<notin> set a \<Longrightarrow> c_str (a @ b) = a @ c_str b"
  by (simp add: c_str_def takeWhile_append)

lemma c_str_to_string_int [simp]: "c_str (to_string_int u @ x) = to_string_int u @ c_str x"
  using to_string_int_chars by (intro c_str_append) blast

lemma c_str_cons: "c \<noteq> NUL \<Longrightarrow> c_str (c # s) = c # c_str s"
  by (simp add: c_str_def)

lemma c_str_keys [simp]:
  "c_str (objKey m) = objKey (c_str m)" "c_str (objsizeKey m) = objsizeKey (c_str m)"
  "c_str (refsKey m) = refsKey (c_str m)" "c_str (sessionKey m) = sessionKey (c_str m)"
  "c_str (pathKey u p) = pathKey u (c_str p)" "c_str (refMember u p) = refMember u (c_str p)"
  by (simp_all add: objKey_def objsizeKey_def refsKey_def sessionKey_def pathKey_def refMember_def
      c_str_cons NUL_def)

lemma c_str_chalKey [simp]: "NUL \<notin> set t \<Longrightarrow> c_str (chalKey t m) = chalKey t (c_str m)"
  using c_str_append [of "''cs:chal:'' @ t" "'':'' @ m"] c_str_append [of "'':''" m]
  by (simp add: chalKey_def NUL_def)

section \<open>The service\<close>

text \<open>
  The documented effect of the commands on the key space: \<open>strs\<close> gives the string value of a key,
  \<open>sets\<close> the members of a set key (empty when there is none). \<open>GET\<close> and the set commands are
  only described on keys of their own type; on others Redis answers an error. The last law is that
  the connection stays up.
\<close>

definition rcmd :: "'r hiredis \<Rightarrow> string list \<Rightarrow> 'r \<Rightarrow> 'r" where
  "rcmd R args r = snd (redisCommand R args r)"

definition rreply :: "'r hiredis \<Rightarrow> string list \<Rightarrow> 'r \<Rightarrow> redis_reply option" where
  "rreply R args r = fst (redisCommand R args r)"

text \<open>A usable service: the connection has no error, and the key space keeps the type discipline of
  the store, reference keys hold sets and all other keys strings.\<close>

definition redis_ready :: "'r hiredis \<Rightarrow> ('r \<Rightarrow> string \<Rightarrow> string option) \<Rightarrow>
    ('r \<Rightarrow> string \<Rightarrow> string set) \<Rightarrow> 'r \<Rightarrow> bool" where
  "redis_ready R strs sets r \<longleftrightarrow> \<not> redisErr R r \<and> (\<forall>m. strs r (refsKey m) = None) \<and>
     (\<forall>k. k \<notin> range refsKey \<longrightarrow> sets r k = {})"

text \<open>The service's state after each operation of the store.\<close>

definition r_addRef :: "'r hiredis \<Rightarrow> string \<Rightarrow> int \<Rightarrow> string \<Rightarrow> 'r \<Rightarrow> 'r" where
  "r_addRef R m u p = rcmd R [''SADD'', refsKey (c_str m), refMember u (c_str p)]"

definition r_removeRef :: "'r hiredis \<Rightarrow> string \<Rightarrow> int \<Rightarrow> string \<Rightarrow> 'r \<Rightarrow> 'r" where
  "r_removeRef R m u p r =
     rcmd R [''SCARD'', refsKey (c_str m)] (rcmd R [''SREM'', refsKey (c_str m), refMember u (c_str p)] r)"

definition r_setPath :: "'r hiredis \<Rightarrow> int \<Rightarrow> string \<Rightarrow> string \<Rightarrow> 'r \<Rightarrow> 'r" where
  "r_setPath R u p m = rcmd R [''SET'', pathKey u (c_str p), m]"

definition r_getPath :: "'r hiredis \<Rightarrow> int \<Rightarrow> string \<Rightarrow> 'r \<Rightarrow> 'r" where
  "r_getPath R u p = rcmd R [''GET'', pathKey u (c_str p)]"

definition r_delPath :: "'r hiredis \<Rightarrow> int \<Rightarrow> string \<Rightarrow> 'r \<Rightarrow> 'r" where
  "r_delPath R u p = rcmd R [''DEL'', pathKey u (c_str p)]"

definition r_setObject :: "'r hiredis \<Rightarrow> string \<Rightarrow> string \<Rightarrow> u64 \<Rightarrow> 'r \<Rightarrow> 'r" where
  "r_setObject R m obj n r =
     rcmd R [''SET'', objsizeKey (c_str m), to_string_nat (unat n)] (rcmd R [''SET'', objKey (c_str m), obj] r)"

definition r_getObject :: "'r hiredis \<Rightarrow> string \<Rightarrow> 'r \<Rightarrow> 'r" where
  "r_getObject R m = rcmd R [''GET'', objKey (c_str m)]"

definition r_delMeta :: "'r hiredis \<Rightarrow> string \<Rightarrow> 'r \<Rightarrow> 'r" where
  "r_delMeta R m r =
     rcmd R [''DEL'', refsKey (c_str m)]
       (rcmd R [''DEL'', objsizeKey (c_str m)] (rcmd R [''DEL'', objKey (c_str m)] r))"

definition r_setChal :: "'r hiredis \<Rightarrow> string \<Rightarrow> string \<Rightarrow> u64 \<Rightarrow> u32 \<Rightarrow> 'r \<Rightarrow> 'r" where
  "r_setChal R t m off len =
     rcmd R [''SETEX'', chalKey t (c_str m), to_string_int 120,
             to_string_nat (unat off) @ '':'' @ to_string_nat (unat len)]"

definition r_getChal :: "'r hiredis \<Rightarrow> string \<Rightarrow> string \<Rightarrow> 'r \<Rightarrow> 'r" where
  "r_getChal R t m = rcmd R [''GET'', chalKey t (c_str m)]"

definition r_delChal :: "'r hiredis \<Rightarrow> string \<Rightarrow> string \<Rightarrow> 'r \<Rightarrow> 'r" where
  "r_delChal R t m = rcmd R [''DEL'', chalKey t (c_str m)]"

lemmas r_defs = r_addRef_def r_removeRef_def r_setPath_def r_getPath_def r_delPath_def
  r_setObject_def r_getObject_def r_delMeta_def r_setChal_def r_getChal_def r_delChal_def

locale redis_service =
  fixes R :: "'r hiredis" and strs :: "'r \<Rightarrow> string \<Rightarrow> string option"
    and sets :: "'r \<Rightarrow> string \<Rightarrow> string set"
  assumes GET_reply: "sets r k = {} \<Longrightarrow>
      rreply R [''GET'', k] r = Some (case strs r k of None \<Rightarrow> R_NIL | Some v \<Rightarrow> R_STRING v)"
    and SCARD_reply: "strs r k = None \<Longrightarrow>
      rreply R [''SCARD'', k] r = Some (R_INTEGER (int (card (sets r k))))"
    and read_strs: "strs (rcmd R [''GET'', k] r) = strs r" "strs (rcmd R [''SCARD'', k] r) = strs r"
    and read_sets: "sets (rcmd R [''GET'', k] r) = sets r" "sets (rcmd R [''SCARD'', k] r) = sets r"
    and SET_effect: "strs (rcmd R [''SET'', k, v] r) = (strs r)(k \<mapsto> v)"
      "sets (rcmd R [''SET'', k, v] r) = (sets r)(k := {})"
    and SETEX_effect: "0 < ttl \<Longrightarrow> strs (rcmd R [''SETEX'', k, to_string_int ttl, v] r) = (strs r)(k \<mapsto> v)"
      "0 < ttl \<Longrightarrow> sets (rcmd R [''SETEX'', k, to_string_int ttl, v] r) = (sets r)(k := {})"
    and DEL_effect: "strs (rcmd R [''DEL'', k] r) = (strs r)(k := None)"
      "sets (rcmd R [''DEL'', k] r) = (sets r)(k := {})"
    and SADD_effect: "strs r k = None \<Longrightarrow> strs (rcmd R [''SADD'', k, x] r) = strs r"
      "strs r k = None \<Longrightarrow> sets (rcmd R [''SADD'', k, x] r) = (sets r)(k := insert x (sets r k))"
    and SREM_effect: "strs r k = None \<Longrightarrow> strs (rcmd R [''SREM'', k, x] r) = strs r"
      "strs r k = None \<Longrightarrow> sets (rcmd R [''SREM'', k, x] r) = (sets r)(k := sets r k - {x})"
    and finite_sets: "finite (sets r k)"
    and stays_up: "\<not> redisErr R r \<Longrightarrow> \<not> redisErr R (rcmd R args r)"
begin

abbreviation "rok \<equiv> redis_ready R strs sets"

lemmas rok_def = redis_ready_def

lemma rok_rules [simp]:
  "rok r \<Longrightarrow> rok (rcmd R [''GET'', k] r)"
  "rok r \<Longrightarrow> rok (rcmd R [''SCARD'', k] r)"
  "rok r \<Longrightarrow> k \<notin> range refsKey \<Longrightarrow> rok (rcmd R [''SET'', k, v] r)"
  "rok r \<Longrightarrow> k \<notin> range refsKey \<Longrightarrow> 0 < ttl \<Longrightarrow> rok (rcmd R [''SETEX'', k, to_string_int ttl, v] r)"
  "rok r \<Longrightarrow> rok (rcmd R [''DEL'', k] r)"
  "rok r \<Longrightarrow> rok (rcmd R [''SADD'', refsKey m, x] r)"
  "rok r \<Longrightarrow> rok (rcmd R [''SREM'', refsKey m, x] r)"
  by (auto simp: rok_def stays_up read_strs read_sets SET_effect SETEX_effect DEL_effect
      SADD_effect SREM_effect)

lemma rok_views [simp]:
  "rok r \<Longrightarrow> strs r (refsKey m) = None"
  "rok r \<Longrightarrow> k \<notin> range refsKey \<Longrightarrow> sets r k = {}"
  by (auto simp: rok_def)

lemmas redis_effects =
  read_strs read_sets SET_effect SETEX_effect DEL_effect SADD_effect SREM_effect

lemma range_refsKey [simp]:
  "objKey m \<notin> range refsKey" "objsizeKey m \<notin> range refsKey" "pathKey u p \<notin> range refsKey"
  "chalKey t m \<notin> range refsKey" "sessionKey t \<notin> range refsKey"
  by auto

lemma rok_ops [simp]:
  assumes "rok r"
  shows "rok (r_addRef R m u p r)" "rok (r_removeRef R m u p r)" "rok (r_setPath R u p v r)"
    "rok (r_getPath R u p r)" "rok (r_delPath R u p r)" "rok (r_setObject R m ob n r)"
    "rok (r_getObject R m r)" "rok (r_delMeta R m r)" "rok (r_setChal R t m off len r)"
    "rok (r_getChal R t m r)" "rok (r_delChal R t m r)"
  using assms by (simp_all add: r_defs)

lemma strs_ops [simp]:
  assumes "rok r"
  shows "strs (r_addRef R m u p r) = strs r" "strs (r_removeRef R m u p r) = strs r"
    "strs (r_setPath R u p v r) = (strs r)(pathKey u (c_str p) \<mapsto> v)"
    "strs (r_getPath R u p r) = strs r"
    "strs (r_delPath R u p r) = (strs r)(pathKey u (c_str p) := None)"
    "strs (r_setObject R m ob n r) =
       (strs r)(objKey (c_str m) \<mapsto> ob, objsizeKey (c_str m) \<mapsto> to_string_nat (unat n))"
    "strs (r_getObject R m r) = strs r"
    "strs (r_delMeta R m r) =
       (strs r)(objKey (c_str m) := None, objsizeKey (c_str m) := None, refsKey (c_str m) := None)"
    "strs (r_setChal R t m off len r) =
       (strs r)(chalKey t (c_str m) \<mapsto> to_string_nat (unat off) @ '':'' @ to_string_nat (unat len))"
    "strs (r_getChal R t m r) = strs r"
    "strs (r_delChal R t m r) = (strs r)(chalKey t (c_str m) := None)"
  using assms by (simp_all add: r_defs redis_effects)

lemma sets_ops [simp]:
  assumes "rok r"
  shows "sets (r_addRef R m u p r) =
      (sets r)(refsKey (c_str m) := insert (refMember u (c_str p)) (sets r (refsKey (c_str m))))"
    "sets (r_removeRef R m u p r) =
      (sets r)(refsKey (c_str m) := sets r (refsKey (c_str m)) - {refMember u (c_str p)})"
    "sets (r_setPath R u p v r) = sets r" "sets (r_getPath R u p r) = sets r"
    "sets (r_delPath R u p r) = sets r" "sets (r_setObject R m ob n r) = sets r"
    "sets (r_getObject R m r) = sets r"
    "sets (r_delMeta R m r) = (sets r)(refsKey (c_str m) := {})"
    "sets (r_setChal R t m off len r) = sets r" "sets (r_getChal R t m r) = sets r"
    "sets (r_delChal R t m r) = sets r"
  using assms by (simp_all add: r_defs redis_effects fun_upd_idem fun_eq_iff)

end

section \<open>Running the commands\<close>

text \<open>An environment whose Redis parameter obeys the documented laws.\<close>

locale redis_env = redis_service "rds A" strs sets
  for A :: "('r, 'm, 'f) env" and strs :: "'r \<Rightarrow> string \<Rightarrow> string option"
    and sets :: "'r \<Rightarrow> string \<Rightarrow> string set"
begin

abbreviation "redis_up w \<equiv> ctx_set w \<and> rok (w_redis w)"

lemma ensure_run:
  assumes "redis_up w"
  shows "ensure A w = (Ret (), w)"
proof -
  have "ctx_set w \<and> \<not> redisErr (rds A) (w_redis w)" using assms unfolding rok_def by blast
  then show ?thesis unfolding ensure_def by (rule if_P)
qed

lemma command_run:
  "redis_up w \<Longrightarrow> command A args w =
     (Ret (rreply (rds A) args (w_redis w)), w\<lparr>w_redis := rcmd (rds A) args (w_redis w)\<rparr>)"
  by (simp only: command_def bindE_run(1) [OF ensure_run] on_redis_run rcmd_def rreply_def)

lemma cmdGet_run:
  "redis_up w \<Longrightarrow> c_str k \<notin> range refsKey \<Longrightarrow> cmdGet A k w =
     (Ret (case strs (w_redis w) (c_str k) of None \<Rightarrow> [] | Some v \<Rightarrow> v),
      w\<lparr>w_redis := rcmd (rds A) [''GET'', c_str k] (w_redis w)\<rparr>)"
  by (simp add: cmdGet_def bindE_run command_run GET_reply split: option.splits)

lemma cmd_runs:
  "redis_up w \<Longrightarrow> cmdSet A k v w = (Ret (), w\<lparr>w_redis := rcmd (rds A) [''SET'', c_str k, v] (w_redis w)\<rparr>)"
  "redis_up w \<Longrightarrow> cmdSetEx A k v t w =
     (Ret (), w\<lparr>w_redis := rcmd (rds A) [''SETEX'', c_str k, to_string_int t, v] (w_redis w)\<rparr>)"
  "redis_up w \<Longrightarrow> cmdDel A k w = (Ret (), w\<lparr>w_redis := rcmd (rds A) [''DEL'', c_str k] (w_redis w)\<rparr>)"
  by (simp_all add: cmdSet_def cmdSetEx_def cmdDel_def bindE_run command_run)

lemma set_runs:
  "redis_up w \<Longrightarrow> bindE (cmdSAdd A k x) f w =
     f (integer_of (rreply (rds A) [''SADD'', c_str k, c_str x] (w_redis w)))
       (w\<lparr>w_redis := rcmd (rds A) [''SADD'', c_str k, c_str x] (w_redis w)\<rparr>)"
  "redis_up w \<Longrightarrow> bindE (cmdSRem A k x) f w =
     f (integer_of (rreply (rds A) [''SREM'', c_str k, c_str x] (w_redis w)))
       (w\<lparr>w_redis := rcmd (rds A) [''SREM'', c_str k, c_str x] (w_redis w)\<rparr>)"
  by (simp_all add: cmdSAdd_def cmdSRem_def bindE_assoc bindE_run command_run)

lemma cmdSCard_run:
  "redis_up w \<Longrightarrow> cmdSCard A (refsKey m) w =
     (Ret (int (card (sets (w_redis w) (refsKey (c_str m))))),
      w\<lparr>w_redis := rcmd (rds A) [''SCARD'', refsKey (c_str m)] (w_redis w)\<rparr>)"
  by (simp add: cmdSCard_def bindE_run command_run SCARD_reply integer_of_def)

text \<open>The value of a string key as \<open>cmdGet\<close> reports it: empty when there is none.\<close>

abbreviation "val w k \<equiv> (case strs (w_redis w) k of None \<Rightarrow> [] | Some v \<Rightarrow> v)"

lemma store_runs:
  assumes "redis_up w"
  shows "addRef A m u p w = (Ret (), w\<lparr>w_redis := r_addRef (rds A) m u p (w_redis w)\<rparr>)"
    "removeRef A m u p w =
       (Ret (int (card (sets (w_redis w) (refsKey (c_str m)) - {refMember u (c_str p)}))),
        w\<lparr>w_redis := r_removeRef (rds A) m u p (w_redis w)\<rparr>)"
    "setPathMd5 A u p v w = (Ret (), w\<lparr>w_redis := r_setPath (rds A) u p v (w_redis w)\<rparr>)"
    "getPathMd5 A u p w =
       (Ret (val w (pathKey u (c_str p))), w\<lparr>w_redis := r_getPath (rds A) u p (w_redis w)\<rparr>)"
    "delPathMd5 A u p w = (Ret (), w\<lparr>w_redis := r_delPath (rds A) u p (w_redis w)\<rparr>)"
    "setObject A m ob n w = (Ret (), w\<lparr>w_redis := r_setObject (rds A) m ob n (w_redis w)\<rparr>)"
    "getObjectPath A m w =
       (Ret (val w (objKey (c_str m))), w\<lparr>w_redis := r_getObject (rds A) m (w_redis w)\<rparr>)"
    "deleteObjectMeta A m w = (Ret (), w\<lparr>w_redis := r_delMeta (rds A) m (w_redis w)\<rparr>)"
  using assms
  by (simp_all add: addRef_def removeRef_def setPathMd5_def getPathMd5_def delPathMd5_def setObject_def
      getObjectPath_def deleteObjectMeta_def set_runs cmd_runs cmdGet_run cmdSCard_run bindE_run
      redis_effects r_defs)

lemma challenge_runs:
  assumes "redis_up w" and "NUL \<notin> set t"
  shows "setChallenge A t m off len w = (Ret (), w\<lparr>w_redis := r_setChal (rds A) t m off len (w_redis w)\<rparr>)"
    "delChallenge A t m w = (Ret (), w\<lparr>w_redis := r_delChal (rds A) t m (w_redis w)\<rparr>)"
    "cmdGet A (chalKey t m) w =
       (Ret (val w (chalKey t (c_str m))), w\<lparr>w_redis := r_getChal (rds A) t m (w_redis w)\<rparr>)"
  using assms
  by (simp_all add: setChallenge_def delChallenge_def cmd_runs cmdGet_run r_defs)

lemma find_first_colon: "find_first CHR '':'' (to_string_nat n @ '':'' @ s) = Some (length (to_string_nat n))"
proof -
  have "takeWhile (\<lambda>x. x \<noteq> CHR '':'') (to_string_nat n @ '':'' @ s) = to_string_nat n"
    using to_string_nat_digits [of n] isdigit_simps
    by (subst takeWhile_append2) (auto simp: takeWhile_eq_all_conv)
  then show ?thesis by (simp add: find_first_def)
qed

lemma getChallenge_run:
  assumes "redis_up w" and "NUL \<notin> set t"
    and "strs (w_redis w) (chalKey t (c_str m)) =
      Some (to_string_nat (unat (off :: u64)) @ '':'' @ to_string_nat (unat (len :: u32)))"
  shows "getChallenge A t m w = (Ret (Some (off, len)), w\<lparr>w_redis := r_getChal (rds A) t m (w_redis w)\<rparr>)"
proof -
  have "unat off < 2 ^ 64" using unsigned_less [of off, where ?'a = nat] by simp
  then have 1: "stoull (to_string_nat (unat off)) = Inr off"
    using stoull_to_string [of "unat off" "[]"] by simp
  have len: "unat len < 2 ^ 32" using unsigned_less [of len, where ?'a = nat] by simp
  then have 2: "stoull (to_string_nat (unat len)) = Inr (ucast len)"
    using stoull_to_string [of "unat len" "[]"] by simp
  have 3: "ucast (ucast len :: u64) = len"
    by (rule bit_word_eqI) (simp add: bit_simps)
  show ?thesis
    using assms 1 2 3
    by (simp add: getChallenge_def bindE_run challenge_runs find_first_colon [simplified] substr_def)
qed

lemma getChallenge_None_run:
  assumes "redis_up w" and "NUL \<notin> set t" and "strs (w_redis w) (chalKey t (c_str m)) = None"
  shows "getChallenge A t m w = (Ret None, w\<lparr>w_redis := r_getChal (rds A) t m (w_redis w)\<rparr>)"
  using assms by (simp add: getChallenge_def bindE_run challenge_runs find_first_def)

end

section \<open>A reference instance\<close>

text \<open>An in-memory service that obeys the laws: the parameter at which the properties that assume
  them are evaluated.\<close>

record ref_redis =
  rr_strs :: "string \<Rightarrow> string option"
  rr_sets :: "string \<Rightarrow> string list"

definition ref_command :: "string list \<Rightarrow> ref_redis \<Rightarrow> redis_reply option \<times> ref_redis" where
  "ref_command args r =
     (case args of
        [c, k] \<Rightarrow>
          if c = ''GET'' then
            (Some (if rr_sets r k \<noteq> [] then R_ERROR ''WRONGTYPE''
                   else case rr_strs r k of None \<Rightarrow> R_NIL | Some v \<Rightarrow> R_STRING v), r)
          else if c = ''SCARD'' then (Some (R_INTEGER (int (card (set (rr_sets r k))))), r)
          else if c = ''DEL'' then
            (Some (R_INTEGER 1), r\<lparr>rr_strs := (rr_strs r)(k := None), rr_sets := (rr_sets r)(k := [])\<rparr>)
          else (Some (R_ERROR ''ERR''), r)
      | [c, k, v] \<Rightarrow>
          if c = ''SET'' then
            (Some (R_STATUS ''OK''), r\<lparr>rr_strs := (rr_strs r)(k \<mapsto> v), rr_sets := (rr_sets r)(k := [])\<rparr>)
          else if c = ''SADD'' then
            (Some (R_INTEGER (if v \<in> set (rr_sets r k) then 0 else 1)),
             r\<lparr>rr_sets := (rr_sets r)(k := List.insert v (rr_sets r k))\<rparr>)
          else if c = ''SREM'' then
            (Some (R_INTEGER (if v \<in> set (rr_sets r k) then 1 else 0)),
             r\<lparr>rr_sets := (rr_sets r)(k := removeAll v (rr_sets r k))\<rparr>)
          else (Some (R_ERROR ''ERR''), r)
      | [c, k, t, v] \<Rightarrow>
          if c = ''SETEX'' then
            (Some (R_STATUS ''OK''), r\<lparr>rr_strs := (rr_strs r)(k \<mapsto> v), rr_sets := (rr_sets r)(k := [])\<rparr>)
          else (Some (R_ERROR ''ERR''), r)
      | _ \<Rightarrow> (Some (R_ERROR ''ERR''), r))"

definition ref_hiredis :: "ref_redis hiredis" where
  "ref_hiredis = \<lparr>redisConnect = (\<lambda>h p r. (ConnOk, r)), redisErr = (\<lambda>r. False), redisFree = (\<lambda>r. r),
     redisCommand = ref_command\<rparr>"

definition ref_sets :: "ref_redis \<Rightarrow> string \<Rightarrow> string set" where
  "ref_sets r k = set (rr_sets r k)"

interpretation ref_redis: redis_service ref_hiredis rr_strs ref_sets
  by unfold_locales
    (auto simp: ref_hiredis_def ref_command_def ref_sets_def rcmd_def rreply_def fun_eq_iff)

definition ref_redis0 :: ref_redis where
  "ref_redis0 = \<lparr>rr_strs = (\<lambda>_. None), rr_sets = (\<lambda>_. [])\<rparr>"

lemma ref_redis0_ready: "redis_ready ref_hiredis rr_strs ref_sets ref_redis0"
  by (simp add: redis_ready_def ref_redis0_def ref_hiredis_def ref_sets_def)

end
