(* ===== verification/Mysql_Pool.thy ===== *)
theory Mysql_Pool
  imports Services
begin

text \<open>
  \<open>src/mysql_pool.cpp\<close>: the pool of connection handles the services take a connection from for
  every statement, and the use of a prepared statement on it. The server runs in one thread, so a
  wait on the pool's condition variable while no handle is idle is \<open>Blocked\<close>: nobody can signal it.
\<close>

section \<open>The pool\<close>

definition connectOne :: "('r, 'm, 'f) env \<Rightarrow> (('r, 'm, 'f, 'z) world_scheme, nat) cpp" where
  "connectOne A = bindE (on_mysql (my_connect (sql A))) (\<lambda>c.
     case c of
       MyInitFail \<Rightarrow> throw (StdException ''mysql_init failed'')
     | MyConnFail err \<Rightarrow> throw (StdException (''mysql connect failed: '' @ err))
     | MyConnected m \<Rightarrow> return m)"

definition release :: "nat \<Rightarrow> ('r, 'm, 'f, 'z) world_scheme \<Rightarrow> ('r, 'm, 'f, 'z) world_scheme" where
  "release m w = w\<lparr>idle_conns := idle_conns w @ [m]\<rparr>"

definition acquire :: "('r, 'm, 'f) env \<Rightarrow> (('r, 'm, 'f, 'z) world_scheme, nat) cpp" where
  "acquire A = (\<lambda>w.
     if \<not> pool_stopping w \<and> idle_conns w = [] then (Blocked, w)
     else if pool_stopping w then (Raise (StdException ''mysql pool stopping''), w)
     else
       bindE (gets (\<lambda>w. hd (idle_conns w))) (\<lambda>m.
       bindE (modify (\<lambda>w. w\<lparr>idle_conns := tl (idle_conns w)\<rparr>)) (\<lambda>_.
       bindE (on_mysql (my_ping (sql A) m)) (\<lambda>ok.
       if ok then return m
       else bindE (on_mysql (\<lambda>s. ((), my_close (sql A) m s))) (\<lambda>_. connectOne A)))) w)"

text \<open>\<open>auto conn = mysql_.acquire(); ...\<close>: the destructor of \<open>Conn\<close> gives the handle back when
  the scope is left, normally or by an exception.\<close>

definition with_conn :: "('r, 'm, 'f) env \<Rightarrow> (nat \<Rightarrow> (('r, 'm, 'f, 'z) world_scheme, 'a) cpp) \<Rightarrow>
    (('r, 'm, 'f, 'z) world_scheme, 'a) cpp" where
  "with_conn A body = bindE (acquire A) (\<lambda>m. finallyE (body m) (release m))"

fun fill_pool :: "('r, 'm, 'f) env \<Rightarrow> nat \<Rightarrow> (('r, 'm, 'f, 'z) world_scheme, unit) cpp" where
  "fill_pool A 0 = return ()"
| "fill_pool A (Suc n) =
     bindE (connectOne A) (\<lambda>m. bindE (modify (release m)) (\<lambda>_. fill_pool A n))"

definition newPool :: "('r, 'm, 'f) env \<Rightarrow> (('r, 'm, 'f, 'z) world_scheme, unit) cpp" where
  "newPool A = fill_pool A (nat (mysqlPoolSize (cfg A)))"

text \<open>The destructor: callers that still wait are woken, the idle handles are closed.\<close>

definition destroyPool :: "('r, 'm, 'f) env \<Rightarrow> (('r, 'm, 'f, 'z) world_scheme, unit) cpp" where
  "destroyPool A =
     bindE (modify (\<lambda>w. w\<lparr>pool_stopping := True\<rparr>)) (\<lambda>_.
     bindE (gets idle_conns) (\<lambda>ms.
     bindE (forE ms (\<lambda>m. on_mysql (\<lambda>s. ((), my_close (sql A) m s)))) (\<lambda>_.
     modify (\<lambda>w. w\<lparr>idle_conns := []\<rparr>))))"

definition pool_ping :: "('r, 'm, 'f) env \<Rightarrow> (('r, 'm, 'f, 'z) world_scheme, bool) cpp" where
  "pool_ping A = with_conn A (\<lambda>m. on_mysql (my_ping (sql A) m))"

section \<open>Prepared statements\<close>

text \<open>Constructing a \<open>MysqlStmt\<close>, and \<open>bind...\<close> followed by \<open>execute\<close>: the statement reaches the
  server with the bound values as its parameters.\<close>

definition stmt_new :: "('r, 'm, 'f) env \<Rightarrow> nat \<Rightarrow> string \<Rightarrow> (('r, 'm, 'f, 'z) world_scheme, unit) cpp" where
  "stmt_new A m text = bindE (on_mysql (my_prepare (sql A) m text)) (\<lambda>e.
     case e of None \<Rightarrow> return () | Some err \<Rightarrow> throw (StdException (''mysql_stmt_prepare: '' @ err)))"

definition stmt_execute :: "('r, 'm, 'f) env \<Rightarrow> nat \<Rightarrow> string \<Rightarrow> sql_value list \<Rightarrow>
    (('r, 'm, 'f, 'z) world_scheme, sql_result) cpp" where
  "stmt_execute A m text params = bindE (on_mysql (my_execute (sql A) m text params)) (\<lambda>r.
     case r of Inl err \<Rightarrow> throw (StdException (''mysql_stmt_execute: '' @ err)) | Inr res \<Rightarrow> return res)"

section \<open>The pool leaves the connection's own state alone\<close>

lemma more_frame_connectOne [more_frame_intros]: "more_frame (connectOne A)"
  unfolding connectOne_def by (intro more_frame_intros)

lemma more_frame_acquire [more_frame_intros]: "more_frame (acquire A)"
  unfolding more_frame_def acquire_def
  by (rule allI, rule more_snd_if, simp, rule more_snd_if, simp, rule more_frameD,
      intro more_frame_intros more_frame_modify) simp_all

lemma more_frame_pool [more_frame_intros]:
  "(\<And>c. more_frame (body c)) \<Longrightarrow> more_frame (with_conn A body)"
  "more_frame (stmt_new A c text)" "more_frame (stmt_execute A c text ps)"
  unfolding with_conn_def stmt_new_def stmt_execute_def
  by (intro more_frame_intros more_frame_finally; simp add: release_def)+

end
