(* ===== verification/Os_Utils.thy ===== *)
theory Os_Utils
  imports Services
begin

text \<open>
  The helpers of \<open>src/utils.cpp\<close> that call the operating system (\<open>ensureDir\<close>,
  \<open>fileExists\<close>, \<open>fileSize\<close>, \<open>randomHex\<close>) and the digests of
  \<open>src/crypto_util.cpp\<close>. The locale \<open>digest\<close> states what the server relies on of the digest
  library: a run depends only on the bytes fed in, not on how they are cut into updates, and the
  MD5 result has 16 bytes.
\<close>

section \<open>utils.cpp\<close>

definition fileExists :: "('r, 'm, 'f) env \<Rightarrow> string \<Rightarrow> (('r, 'm, 'f, 'z) world_scheme, bool) cpp" where
  "fileExists A path = gets (\<lambda>w. os_lstat (os A) (c_str path) (w_os w) \<noteq> None)"

definition fileSize :: "('r, 'm, 'f) env \<Rightarrow> string \<Rightarrow> (('r, 'm, 'f, 'z) world_scheme, u64) cpp" where
  "fileSize A path = gets (\<lambda>w. case os_stat (os A) (c_str path) (w_os w) of
     None \<Rightarrow> 0 | Some st \<Rightarrow> of_int (st_size st))"

fun ensureDir_go :: "('r, 'm, 'f) env \<Rightarrow> string list \<Rightarrow> string \<Rightarrow>
    (('r, 'm, 'f, 'z) world_scheme, bool) cpp" where
  "ensureDir_go A [] cur = return True"
| "ensureDir_go A (part # parts) cur =
     (if part = [] \<or> part = ''.'' then ensureDir_go A parts cur
      else (let cur' = (if cur = ''/'' then cur @ part
                        else if cur = [] then part
                        else cur @ ''/'' @ part)
            in bindE (on_os (os_mkdir (os A) (c_str cur'))) (\<lambda>e.
               if e \<noteq> None \<and> e \<noteq> Some EEXIST then return False
               else ensureDir_go A parts cur')))"

definition ensureDir :: "('r, 'm, 'f) env \<Rightarrow> string \<Rightarrow> (('r, 'm, 'f, 'z) world_scheme, bool) cpp" where
  "ensureDir A path =
     (if path = [] then return False
      else ensureDir_go A (split path CHR ''/'') (if hd path = CHR ''/'' then ''/'' else []))"

definition randomHex :: "('r, 'm, 'f) env \<Rightarrow> nat \<Rightarrow> (('r, 'm, 'f, 'z) world_scheme, string) cpp" where
  "randomHex A nbytes = bindE (on_os (os_random (os A) nbytes)) (\<lambda>buf. return (toHex buf))"

section \<open>crypto\_util.cpp\<close>

definition digestHex :: "('r, 'm, 'f) env \<Rightarrow> digest_alg \<Rightarrow> string \<Rightarrow> exn + string" where
  "digestHex A md data =
     (case evp A md [data] of
        EvpDigest out \<Rightarrow> Inr (toHex out)
      | EvpAllocFail \<Rightarrow> Inl (StdException ''EVP_MD_CTX_new failed'')
      | _ \<Rightarrow> Inl (StdException ''digest failed''))"

definition md5Hex :: "('r, 'm, 'f) env \<Rightarrow> string \<Rightarrow> exn + string" where
  "md5Hex A data = digestHex A MD5 data"

definition md5FileRange :: "('r, 'm, 'f) env \<Rightarrow> string \<Rightarrow> u64 \<Rightarrow> u32 \<Rightarrow>
    (('r, 'm, 'f, 'z) world_scheme, string) cpp" where
  "md5FileRange A path offset len = (\<lambda>w.
     (case ifs_bytes (os A) (c_str path) (w_os w) of
        None \<Rightarrow> throw (StdException (''cannot open file for md5 range: '' @ path))
      | Some bytes \<Rightarrow>
          if sint offset < 0 then throw (StdException (''seek failed for md5 range: '' @ path))
          else (let buf = take (unat len) (drop (unat offset) bytes) in
            if length buf \<noteq> unat len then throw (StdException (''short read for md5 range: '' @ path))
            else liftS (md5Hex A buf))) w)"

fun blocks :: "nat \<Rightarrow> string \<Rightarrow> string list" where
  "blocks n s = (if n = 0 \<or> s = [] then [] else take n s # blocks n (drop n s))"

declare blocks.simps [simp del]

definition md5File :: "('r, 'm, 'f) env \<Rightarrow> string \<Rightarrow> (('r, 'm, 'f, 'z) world_scheme, string) cpp" where
  "md5File A path = (\<lambda>w.
     (case ifs_bytes (os A) (c_str path) (w_os w) of
        None \<Rightarrow> throw (StdException (''cannot open file for md5: '' @ path))
      | Some bytes \<Rightarrow>
          (case evp A MD5 (blocks (64 * 1024) bytes) of
             EvpDigest out \<Rightarrow> return (toHex out)
           | EvpAllocFail \<Rightarrow> throw (StdException ''md5 init failed'')
           | EvpInitFail \<Rightarrow> throw (StdException ''md5 init failed'')
           | EvpUpdateFail \<Rightarrow> throw (StdException ''md5 update failed'')
           | EvpFinalFail \<Rightarrow> throw (StdException ''md5 final failed''))) w)"

definition sha256Hex :: "('r, 'm, 'f) env \<Rightarrow> string \<Rightarrow> exn + string" where
  "sha256Hex A data = digestHex A SHA256 data"

definition hashPassword :: "('r, 'm, 'f) env \<Rightarrow> string \<Rightarrow> string \<Rightarrow> exn + string" where
  "hashPassword A saltHex password = sha256Hex A (saltHex @ password)"

definition verifyPassword :: "('r, 'm, 'f) env \<Rightarrow> string \<Rightarrow> string \<Rightarrow> string \<Rightarrow> exn + bool" where
  "verifyPassword A saltHex password expectedHash =
     (case hashPassword A saltHex password of
        Inl e \<Rightarrow> Inl e
      | Inr h \<Rightarrow> Inr (h = expectedHash))"

section \<open>The digest library\<close>

lemma concat_blocks: "n \<noteq> 0 \<Longrightarrow> concat (blocks n s) = s"
proof (induction n s rule: blocks.induct)
  case (1 n s)
  show ?case
  proof (cases "s = []")
    case True
    then show ?thesis by (subst blocks.simps) simp
  next
    case False
    with "1" show ?thesis by (subst blocks.simps) simp
  qed
qed

locale digest =
  fixes E :: "digest_alg \<Rightarrow> string list \<Rightarrow> evp_result"
    and sum :: "digest_alg \<Rightarrow> string \<Rightarrow> u8 list"
  assumes run: "E alg pieces = EvpDigest (sum alg (concat pieces))"
    and md5_length: "length (sum MD5 s) = 16"
    and sha256_length: "length (sum SHA256 s) = 32"
begin

text \<open>The hexadecimal MD5 of a byte string.\<close>

definition md5_text :: "string \<Rightarrow> string" where
  "md5_text s = toHex (sum MD5 s)"

lemma md5_text_hex: "length (md5_text s) = 32" "c \<in> set (md5_text s) \<Longrightarrow> is_hex c"
  using toHex_is_hex by (auto simp: md5_text_def length_toHex md5_length)

end

locale digest_env = digest "evp A" sum
  for A :: "('r, 'm, 'f) env" and sum :: "digest_alg \<Rightarrow> string \<Rightarrow> u8 list"
begin

text \<open>Hashing a file block by block gives the digest of its whole content.\<close>

lemma md5File_run:
  "ifs_bytes (os A) (c_str path) (w_os w) = Some bytes \<Longrightarrow>
     md5File A path w = (Ret (md5_text bytes), w)"
  by (simp add: md5File_def run concat_blocks md5_text_def)

lemma md5FileRange_run:
  "ifs_bytes (os A) (c_str path) (w_os w) = Some bytes \<Longrightarrow> 0 \<le> sint offset \<Longrightarrow>
     unat offset + unat len \<le> length bytes \<Longrightarrow>
     md5FileRange A path offset len w =
       (Ret (md5_text (take (unat len) (drop (unat offset) bytes))), w)"
  by (simp add: md5FileRange_def Let_def md5Hex_def digestHex_def run md5_text_def)

end

section \<open>Running the helpers\<close>

lemma fileExists_run [run_simps]:
  "fileExists A p w = (Ret (os_lstat (os A) (c_str p) (w_os w) \<noteq> None), w)"
  by (simp add: fileExists_def)

lemma fileSize_run [run_simps]:
  "fileSize A p w = (Ret (case os_stat (os A) (c_str p) (w_os w) of
     None \<Rightarrow> 0 | Some st \<Rightarrow> of_int (st_size st)), w)"
  by (simp add: fileSize_def)

text \<open>\<open>ensureDir\<close> always returns and changes nothing but the file system.\<close>

lemma ensureDir_go_frame:
  "\<exists>b f. ensureDir_go A parts cur w = (Ret b, w\<lparr>w_os := f\<rparr>)"
proof (induction parts arbitrary: cur w)
  case Nil
  show ?case by (rule exI [of _ True], rule exI [of _ "w_os w"]) simp
next
  case (Cons part parts)
  show ?case
  proof (cases "part = [] \<or> part = ''.''")
    case True
    then show ?thesis using Cons.IH by simp
  next
    case False
    define cur' where "cur' = (if cur = ''/'' then cur @ part
      else if cur = [] then part else cur @ ''/'' @ part)"
    define r where "r = os_mkdir (os A) (c_str cur') (w_os w)"
    have "ensureDir_go A (part # parts) cur w =
        (if fst r \<noteq> None \<and> fst r \<noteq> Some EEXIST then return False
         else ensureDir_go A parts cur') (w\<lparr>w_os := snd r\<rparr>)"
      using False unfolding r_def cur'_def
      by (simp only: ensureDir_go.simps Let_def if_False bindE_run(1) [OF on_os_run])
    moreover obtain b f where "ensureDir_go A parts cur' (w\<lparr>w_os := snd r\<rparr>) = (Ret b, w\<lparr>w_os := f\<rparr>)"
      using Cons.IH [of cur' "w\<lparr>w_os := snd r\<rparr>"] by auto
    ultimately show ?thesis by auto
  qed
qed

lemma ensureDir_frame: "\<exists>b f. ensureDir A p w = (Ret b, w\<lparr>w_os := f\<rparr>)"
proof (cases "p = []")
  case True
  show ?thesis by (rule exI [of _ False], rule exI [of _ "w_os w"]) (simp add: True ensureDir_def)
next
  case False
  then show ?thesis by (simp only: ensureDir_def if_False ensureDir_go_frame)
qed

text \<open>The file system \<open>ensureDir\<close> leaves behind.\<close>

definition dir_made :: "('r, 'm, 'f) env \<Rightarrow> string \<Rightarrow> ('r, 'm, 'f, 'z) world_scheme \<Rightarrow> 'f" where
  "dir_made A p w = w_os (snd (ensureDir A p w))"

lemma ensureDir_bind: "bindE (ensureDir A p) (\<lambda>_. k) w = k (w\<lparr>w_os := dir_made A p w\<rparr>)"
proof -
  obtain b f where "ensureDir A p w = (Ret b, w\<lparr>w_os := f\<rparr>)" using ensureDir_frame [of A p w] by blast
  then show ?thesis by (simp add: bindE_run dir_made_def)
qed

lemma os_frame_utils [os_frame_intros]:
  "os_frame (fileExists A p)" "os_frame (fileSize A p)" "os_frame (ensureDir A p)" "os_frame (randomHex A n)"
proof -
  show "os_frame (ensureDir A p)" unfolding os_frame_def by (metis ensureDir_frame)
qed (simp_all only: fileExists_def fileSize_def randomHex_def os_frame_intros)

lemma os_frame_md5 [os_frame_intros]: "os_frame (md5File A p)" "os_frame (md5FileRange A p off len)"
  by (rule os_frameI, simp add: md5File_def split: option.splits evp_result.splits,
      rule os_frameI, auto simp: md5FileRange_def Let_def liftS_def split: option.splits sum.splits)

end
