(* ===== verification/File_Manager.thy ===== *)
theory File_Manager
  imports Os_Utils
begin

text \<open>
  \<open>src/file_manager.cpp\<close>: stat, directory listing, creation, recursive removal and renaming on
  physical paths. A directory is read as the list of names \<open>os_readdir\<close> delivers when it is
  opened; the recursion depth is bounded by the environment's \<open>loop_bound\<close>.
\<close>

record file_entry =
  fe_name :: string
  fe_path :: string
  fe_type :: string
  fe_size :: u64
  fe_mtime :: int
  fe_mode :: u32

definition fileTypeFromMode :: "u32 \<Rightarrow> string" where
  "fileTypeFromMode mode =
     (if S_ISREG mode then ''file''
      else if S_ISDIR mode then ''dir''
      else if S_ISLNK mode then ''symlink''
      else if S_ISFIFO mode then ''fifo''
      else if S_ISSOCK mode then ''socket''
      else if S_ISCHR mode then ''chr''
      else if S_ISBLK mode then ''blk''
      else ''unknown'')"

definition entry_of :: "string \<Rightarrow> string \<Rightarrow> stat_buf \<Rightarrow> file_entry" where
  "entry_of name path st =
     \<lparr>fe_name = name, fe_path = path, fe_type = fileTypeFromMode (st_mode st),
      fe_size = (if S_ISREG (st_mode st) then of_int (st_size st) else 0),
      fe_mtime = st_mtime st, fe_mode = st_mode st\<rparr>"

definition statPath :: "('r, 'm, 'f) env \<Rightarrow> string \<Rightarrow> (('r, 'm, 'f, 'z) world_scheme, file_entry) cpp" where
  "statPath A physical = bindE (gets (\<lambda>w. os_lstat (os A) (c_str physical) (w_os w))) (\<lambda>st.
     case st of
       None \<Rightarrow> throw (CloudError NotFound (''stat failed: '' @ physical))
     | Some st \<Rightarrow> return (entry_of (baseName physical) physical st))"

text \<open>\<open>listDirRecursive\<close> only reads; its entries come in the order of \<open>readdir\<close>, a directory
  before what it contains.\<close>

fun listDirRecursive :: "'f posix \<Rightarrow> 'f \<Rightarrow> nat \<Rightarrow> string \<Rightarrow> string \<Rightarrow> bool \<Rightarrow> file_entry list outcome"
  and list_loop :: "'f posix \<Rightarrow> 'f \<Rightarrow> nat \<Rightarrow> string \<Rightarrow> string \<Rightarrow> bool \<Rightarrow> string list \<Rightarrow> file_entry list outcome"
where
  "listDirRecursive P f 0 physical logicalPrefix recursive = Blocked"
| "listDirRecursive P f (Suc n) physical logicalPrefix recursive =
     (case os_readdir P (c_str physical) f of
        None \<Rightarrow> Raise (CloudError NotFound (''opendir failed: '' @ physical))
      | Some names \<Rightarrow> list_loop P f n physical logicalPrefix recursive names)"
| "list_loop P f n physical logicalPrefix recursive [] = Ret []"
| "list_loop P f n physical logicalPrefix recursive (name # names) =
     (if name = ''.'' \<or> name = ''..'' then list_loop P f n physical logicalPrefix recursive names
      else (case os_lstat P (c_str (joinPath physical name)) f of
              None \<Rightarrow> list_loop P f n physical logicalPrefix recursive names
            | Some st \<Rightarrow>
                (let e = entry_of name (if logicalPrefix = [] then ''/'' @ name
                                        else logicalPrefix @ ''/'' @ name) st;
                     sub = (if recursive \<and> S_ISDIR (st_mode st) \<and> \<not> S_ISLNK (st_mode st)
                            then listDirRecursive P f n (joinPath physical name) (fe_path e) True
                            else Ret [])
                 in (case sub of
                       Ret below \<Rightarrow>
                         (case list_loop P f n physical logicalPrefix recursive names of
                            Ret rest \<Rightarrow> Ret (e # below @ rest)
                          | x \<Rightarrow> x)
                     | x \<Rightarrow> x))))"

definition listDir :: "('r, 'm, 'f) env \<Rightarrow> string \<Rightarrow> bool \<Rightarrow>
    (('r, 'm, 'f, 'z) world_scheme, file_entry list) cpp" where
  "listDir A physical recursive = (\<lambda>w.
     (listDirRecursive (os A) (w_os w) (loop_bound A) physical [] recursive, w))"

definition makeDir :: "('r, 'm, 'f) env \<Rightarrow> string \<Rightarrow> (('r, 'm, 'f, 'z) world_scheme, unit) cpp" where
  "makeDir A physical = bindE (on_os (os_mkdir (os A) (c_str physical))) (\<lambda>e.
     case e of
       None \<Rightarrow> return ()
     | Some err \<Rightarrow>
         if err = EEXIST then throw (CloudError Conflict ''directory exists'')
         else throw (CloudError Internal (''mkdir failed: '' @ os_strerror (os A) err)))"

fun removeRecursive :: "('r, 'm, 'f) env \<Rightarrow> nat \<Rightarrow> string \<Rightarrow> (('r, 'm, 'f, 'z) world_scheme, unit) cpp"
  and remove_loop :: "('r, 'm, 'f) env \<Rightarrow> nat \<Rightarrow> string \<Rightarrow> string list \<Rightarrow> (('r, 'm, 'f, 'z) world_scheme, unit) cpp"
where
  "removeRecursive A 0 physical = blocked"
| "removeRecursive A (Suc n) physical =
     bindE (gets (\<lambda>w. os_lstat (os A) (c_str physical) (w_os w))) (\<lambda>st.
     case st of
       None \<Rightarrow> throw (CloudError NotFound ''remove target missing'')
     | Some st \<Rightarrow>
         if S_ISDIR (st_mode st) \<and> \<not> S_ISLNK (st_mode st) then
           bindE (gets (\<lambda>w. os_readdir (os A) (c_str physical) (w_os w))) (\<lambda>d.
           case d of
             None \<Rightarrow> throw (CloudError Internal ''opendir failed during rm'')
           | Some names \<Rightarrow>
               bindE (remove_loop A n physical names) (\<lambda>_.
               bindE (on_os (os_rmdir (os A) (c_str physical))) (\<lambda>e.
               case e of
                 None \<Rightarrow> return ()
               | Some err \<Rightarrow> throw (CloudError Internal (''rmdir failed: '' @ os_strerror (os A) err)))))
         else
           bindE (on_os (os_unlink (os A) (c_str physical))) (\<lambda>e.
           case e of
             None \<Rightarrow> return ()
           | Some err \<Rightarrow> throw (CloudError Internal (''unlink failed: '' @ os_strerror (os A) err))))"
| "remove_loop A n physical [] = return ()"
| "remove_loop A n physical (name # names) =
     (if name = ''.'' \<or> name = ''..'' then remove_loop A n physical names
      else bindE (removeRecursive A n (joinPath physical name)) (\<lambda>_. remove_loop A n physical names))"

definition removePath :: "('r, 'm, 'f) env \<Rightarrow> string \<Rightarrow> (('r, 'm, 'f, 'z) world_scheme, unit) cpp" where
  "removePath A physical = removeRecursive A (loop_bound A) physical"

definition renamePath :: "('r, 'm, 'f) env \<Rightarrow> string \<Rightarrow> string \<Rightarrow>
    (('r, 'm, 'f, 'z) world_scheme, unit) cpp" where
  "renamePath A from to =
     bindE (fileExists A to) (\<lambda>exists.
     if exists then throw (CloudError Conflict ''destination exists'')
     else bindE (on_os (os_rename (os A) (c_str from) (c_str to))) (\<lambda>e.
       case e of
         None \<Rightarrow> return ()
       | Some err \<Rightarrow> throw (CloudError Internal (''rename failed: '' @ os_strerror (os A) err))))"

section \<open>Only the file system changes\<close>

lemma os_frame_remove:
  "os_frame (removeRecursive A n physical :: (('r, 'm, 'f, 'z) world_scheme, unit) cpp)"
  "os_frame (remove_loop A n' physical' names :: (('r, 'm, 'f, 'z) world_scheme, unit) cpp)"
proof (induction A n physical and A n' physical' names rule: removeRecursive_remove_loop.induct)
  case (2 A n physical)
  show ?case unfolding removeRecursive.simps by (intro os_frame_intros 2)
next
  case (4 A n physical name names)
  show ?case unfolding remove_loop.simps by (intro os_frame_intros 4)
qed (simp_all only: removeRecursive.simps remove_loop.simps os_frame_intros)

lemma os_frame_manager [os_frame_intros]:
  "os_frame (removePath A p)" "os_frame (renamePath A p q)" "os_frame (makeDir A p)"
  "os_frame (statPath A p)" "os_frame (listDir A p b)"
  unfolding removePath_def renamePath_def makeDir_def statPath_def
  by (intro os_frame_intros os_frame_remove)+ (auto intro!: os_frameI simp: listDir_def)

end
