(* ===== verification/Transfer_Service.thy ===== *)
theory Transfer_Service
  imports Redis_Store Mysql_Pool File_Manager
begin

text \<open>
  \<open>src/transfer.cpp\<close>: the reference-counted object store. Objects are files named by the MD5 of
  their content; \<open>file_index\<close> (MySQL) and the keys \<open>cs:path:...\<close> (Redis) map a user's
  logical path to an MD5, and the set \<open>cs:refs:<md5>\<close> holds the references to an object. The
  definitions follow the source statement by statement; an upload or download session that the
  source passes by reference is a field of the state, so that changes survive an exception.
\<close>

section \<open>Data\<close>

record upload_session =
  us_fileId :: string
  us_destPath :: string
  us_virtualPath :: string
  us_partPath :: string
  us_md5 :: string
  us_totalSize :: u64
  us_received :: u64
  us_fd :: int

definition no_upload :: upload_session where
  "no_upload = \<lparr>us_fileId = [], us_destPath = [], us_virtualPath = [], us_partPath = [],
     us_md5 = [], us_totalSize = 0, us_received = 0, us_fd = -1\<rparr>"

record download_session =
  ds_fileId :: string
  ds_srcPath :: string
  ds_totalSize :: u64
  ds_fd :: int

definition no_download :: download_session where
  "no_download = \<lparr>ds_fileId = [], ds_srcPath = [], ds_totalSize = 0, ds_fd = -1\<rparr>"

record instant_query =
  iq_hit :: bool
  iq_size :: u64
  iq_challengeOffset :: u64
  iq_challengeLen :: u32

record pending_file =
  pf_virtualPath :: string
  pf_md5 :: string
  pf_size :: u64
  pf_status :: string

record indexed_file =
  if_virtualPath :: string
  if_md5 :: string
  if_size :: u64
  if_isDir :: bool
  if_status :: string

record user_session =
  s_userId :: int
  s_username :: string
  s_rootDir :: string
  s_token :: string

text \<open>The state of the service on behalf of one connection.\<close>

record ('r, 'm, 'f) tstate = "('r, 'm, 'f) world" +
  upload :: upload_session
  download :: download_session

section \<open>The statements of the file index\<close>

definition sql_index :: string where
  "sql_index = ''INSERT INTO file_index(user_id, virtual_path, md5, size, is_dir, status) ''
     @ ''VALUES(?, ?, ?, ?, ?, ?) ON DUPLICATE KEY UPDATE md5=VALUES(md5), ''
     @ ''size=VALUES(size), is_dir=VALUES(is_dir), status=VALUES(status), ''
     @ ''updated_at=NOW()''"

definition sql_unindex :: string where
  "sql_unindex = ''DELETE FROM file_index WHERE user_id=? AND virtual_path=?''"

definition sql_lookup :: string where
  "sql_lookup = ''SELECT virtual_path, md5, size, is_dir, status FROM file_index WHERE user_id=? ''
     @ ''AND virtual_path=? LIMIT 1''"

definition sql_under :: string where
  "sql_under = ''SELECT virtual_path FROM file_index WHERE user_id=? AND is_dir=0 AND ''
     @ ''virtual_path LIKE ?''"

definition sql_list :: string where
  "sql_list = ''SELECT virtual_path, md5, size, status FROM file_index WHERE user_id=? AND ''
     @ ''is_dir=0 AND (virtual_path=? OR virtual_path LIKE ?)''"

text \<open>Reading a bound result column.\<close>

definition col_string :: "sql_value list \<Rightarrow> nat \<Rightarrow> string" where
  "col_string row i = (if i < length row then (case row ! i of SqlString s \<Rightarrow> s | _ \<Rightarrow> []) else [])"

definition col_u64 :: "sql_value list \<Rightarrow> nat \<Rightarrow> u64" where
  "col_u64 row i = (if i < length row then (case row ! i of SqlUInt n \<Rightarrow> n | _ \<Rightarrow> 0) else 0)"

definition col_int :: "sql_value list \<Rightarrow> nat \<Rightarrow> int" where
  "col_int row i = (if i < length row then (case row ! i of SqlInt n \<Rightarrow> n | _ \<Rightarrow> 0) else 0)"

definition what :: "exn \<Rightarrow> string" where
  "what e = (case e of CloudError c m \<Rightarrow> m | StdException m \<Rightarrow> m)"

section \<open>The file index\<close>

definition indexFile :: "('r, 'm, 'f) env \<Rightarrow> int \<Rightarrow> string \<Rightarrow> string \<Rightarrow> u64 \<Rightarrow> bool \<Rightarrow> string \<Rightarrow>
    (('r, 'm, 'f, 'z) world_scheme, unit) cpp" where
  "indexFile A userId virtualPath md5 sz isDir status =
     with_conn A (\<lambda>c.
       bindE (stmt_new A c sql_index) (\<lambda>_.
       catchE
         (bindE (stmt_execute A c sql_index
                  [SqlInt userId, SqlString virtualPath, SqlString md5, SqlUInt sz,
                   SqlInt (if isDir then 1 else 0), SqlString status]) (\<lambda>_. return ()))
         (\<lambda>e. throw (CloudError Internal (''index failed: '' @ what e)))))"

definition unindex :: "('r, 'm, 'f) env \<Rightarrow> int \<Rightarrow> string \<Rightarrow>
    (('r, 'm, 'f, 'z) world_scheme, unit) cpp" where
  "unindex A userId virtualPath =
     with_conn A (\<lambda>c.
       bindE (stmt_new A c sql_unindex) (\<lambda>_.
       bindE (stmt_execute A c sql_unindex [SqlInt userId, SqlString virtualPath]) (\<lambda>_.
       delPathMd5 A userId virtualPath)))"

definition row_indexed :: "sql_value list \<Rightarrow> indexed_file" where
  "row_indexed row =
     \<lparr>if_virtualPath = col_string row 0, if_md5 = col_string row 1, if_size = col_u64 row 2,
      if_isDir = (col_int row 3 \<noteq> 0), if_status = col_string row 4\<rparr>"

definition lookupFile :: "('r, 'm, 'f) env \<Rightarrow> int \<Rightarrow> string \<Rightarrow>
    (('r, 'm, 'f, 'z) world_scheme, indexed_file option) cpp" where
  "lookupFile A userId virtualPath =
     with_conn A (\<lambda>c.
       bindE (stmt_new A c sql_lookup) (\<lambda>_.
       bindE (catchE
                (bindE (stmt_execute A c sql_lookup [SqlInt userId, SqlString virtualPath])
                   (\<lambda>res. return (sql_rows res)))
                (\<lambda>e. return [])) (\<lambda>rows.
       return (case rows of [] \<Rightarrow> None | row # _ \<Rightarrow> Some (row_indexed row)))))"

definition fileStatus :: "('r, 'm, 'f) env \<Rightarrow> int \<Rightarrow> string \<Rightarrow>
    (('r, 'm, 'f, 'z) world_scheme, string) cpp" where
  "fileStatus A userId virtualPath = bindE (lookupFile A userId virtualPath) (\<lambda>info.
     return (case info of None \<Rightarrow> [] | Some i \<Rightarrow> if_status i))"

text \<open>The prefix under which the entries of a directory are indexed.\<close>

definition dirPrefix :: "string \<Rightarrow> string" where
  "dirPrefix dir =
     (let prefix = (if dir = [] \<or> dir = ''/'' then ''/'' else dir)
      in if last prefix \<noteq> CHR ''/'' then prefix @ ''/'' else prefix)"

text \<open>\<open>listIndexed\<close> keeps the rows whose path has no further slash after the directory.\<close>

definition listedRest :: "string \<Rightarrow> string \<Rightarrow> string" where
  "listedRest prefix vp =
     (if prefix \<noteq> ''/'' \<and> take (length prefix) vp = prefix then
        (let rest = drop (length prefix - 1) vp
         in if rest \<noteq> [] \<and> hd rest = CHR ''/'' then drop 1 rest else rest)
      else if prefix = ''/'' \<and> vp \<noteq> [] \<and> hd vp = CHR ''/'' then drop 1 vp
      else vp)"

definition row_pending :: "sql_value list \<Rightarrow> pending_file" where
  "row_pending row =
     \<lparr>pf_virtualPath = col_string row 0, pf_md5 = col_string row 1, pf_size = col_u64 row 2,
      pf_status = (if col_string row 3 = [] then ''ready'' else col_string row 3)\<rparr>"

definition listIndexed :: "('r, 'm, 'f) env \<Rightarrow> int \<Rightarrow> string \<Rightarrow>
    (('r, 'm, 'f, 'z) world_scheme, pending_file list) cpp" where
  "listIndexed A userId dirLogical =
     (let prefix = dirPrefix dirLogical;
          exact = (if dirLogical = ''/'' then ''/'' else dirLogical)
      in with_conn A (\<lambda>c.
           bindE (stmt_new A c sql_list) (\<lambda>_.
           catchE
             (bindE (stmt_execute A c sql_list
                       [SqlInt userId, SqlString exact, SqlString (prefix @ ''%'')]) (\<lambda>res.
              return (filter (\<lambda>f. CHR ''/'' \<notin> set (listedRest prefix (pf_virtualPath f)))
                        (map row_pending (sql_rows res)))))
             (\<lambda>e. return []))))"

section \<open>Objects\<close>

definition objectPathFor :: "('r, 'm, 'f) env \<Rightarrow> string \<Rightarrow> exn + string" where
  "objectPathFor A md5 =
     (if length md5 < 2 then Inl (CloudError BadRequest ''bad md5'')
      else Inr (joinPath (joinPath (objectsRoot (cfg A)) (substr md5 0 2)) md5))"

definition resolveObjectPath :: "('r, 'm, 'f) env \<Rightarrow> string \<Rightarrow>
    (('r, 'm, 'f, 'z) world_scheme, string) cpp" where
  "resolveObjectPath A md5 = bindE (getObjectPath A md5) (\<lambda>cached.
     if cached \<noteq> [] then return cached else liftS (objectPathFor A md5))"

definition close_fd :: "('r, 'm, 'f) env \<Rightarrow> int \<Rightarrow> (('r, 'm, 'f, 'z) world_scheme, unit) cpp" where
  "close_fd A fd = on_os (\<lambda>f. ((), os_close (os A) fd f))"

definition unlink :: "('r, 'm, 'f) env \<Rightarrow> string \<Rightarrow> (('r, 'm, 'f, 'z) world_scheme, errno option) cpp" where
  "unlink A path = on_os (os_unlink (os A) (c_str path))"

text \<open>The clean-up and throw of the two error exits of the copy loop.\<close>

definition copy_abort :: "('r, 'm, 'f) env \<Rightarrow> int \<Rightarrow> int \<Rightarrow> string \<Rightarrow> string \<Rightarrow>
    (('r, 'm, 'f, 'z) world_scheme, 'a) cpp" where
  "copy_abort A fin fout dest msg =
     bindE (close_fd A fin) (\<lambda>_.
     bindE (close_fd A fout) (\<lambda>_.
     bindE (unlink A dest) (\<lambda>_.
     throw (CloudError Internal msg))))"

fun write_loop :: "('r, 'm, 'f) env \<Rightarrow> nat \<Rightarrow> int \<Rightarrow> int \<Rightarrow> string \<Rightarrow> string \<Rightarrow>
    (('r, 'm, 'f, 'z) world_scheme, unit) cpp" where
  "write_loop A n fin fout dest data =
     (if data = [] then return ()
      else (case n of
        0 \<Rightarrow> blocked
      | Suc k \<Rightarrow>
          bindE (on_os (os_write (os A) fout data)) (\<lambda>r.
          case r of
            None \<Rightarrow> copy_abort A fin fout dest ''write object failed''
          | Some x \<Rightarrow> write_loop A k fin fout dest (drop x data))))"

fun copy_loop :: "('r, 'm, 'f) env \<Rightarrow> nat \<Rightarrow> int \<Rightarrow> int \<Rightarrow> string \<Rightarrow> nat \<Rightarrow> u64 \<Rightarrow>
    (('r, 'm, 'f, 'z) world_scheme, u64) cpp" where
  "copy_loop A 0 fin fout dest bufsz copied = blocked"
| "copy_loop A (Suc n) fin fout dest bufsz copied =
     bindE (on_os (os_read (os A) fin bufsz)) (\<lambda>r.
     case r of
       None \<Rightarrow> copy_abort A fin fout dest ''read source failed''
     | Some data \<Rightarrow>
         if data = [] then return copied
         else bindE (write_loop A (loop_bound A) fin fout dest data) (\<lambda>_.
              copy_loop A n fin fout dest bufsz (copied + of_nat (length data))))"

declare write_loop.simps [simp del]

definition copyToObjectStore :: "('r, 'm, 'f) env \<Rightarrow> string \<Rightarrow> string \<Rightarrow> u64 \<Rightarrow>
    (('r, 'm, 'f, 'z) world_scheme, unit) cpp" where
  "copyToObjectStore A src dest expectedSize =
     bindE (on_os (os_open (os A) (c_str src) O_RDONLY)) (\<lambda>i.
     case i of
       Inl _ \<Rightarrow> throw (CloudError NotFound ''source missing for object publish'')
     | Inr fin \<Rightarrow>
         bindE (ensureDir A (parentDir dest)) (\<lambda>_.
         bindE (on_os (os_open (os A) (c_str dest) O_WRONLY_CREAT_TRUNC)) (\<lambda>t.
         case t of
           Inl err \<Rightarrow> bindE (close_fd A fin) (\<lambda>_.
             throw (CloudError Internal (''open object failed: '' @ os_strerror (os A) err)))
         | Inr fout \<Rightarrow>
             bindE (copy_loop A (loop_bound A) fin fout dest
                      (if chunkSize (cfg A) \<noteq> 0 then unat (chunkSize (cfg A)) else 65536) 0) (\<lambda>copied.
             bindE (on_os (\<lambda>f. ((), os_fsync (os A) fout f))) (\<lambda>_.
             bindE (close_fd A fin) (\<lambda>_.
             bindE (close_fd A fout) (\<lambda>_.
             if expectedSize \<noteq> 0 \<and> copied \<noteq> expectedSize then
               bindE (unlink A dest) (\<lambda>_. throw (CloudError Unprocessable ''object size mismatch''))
             else return ())))))))"

definition publishObject :: "('r, 'm, 'f) env \<Rightarrow> string \<Rightarrow> string \<Rightarrow> u64 \<Rightarrow>
    (('r, 'm, 'f, 'z) world_scheme, unit) cpp" where
  "publishObject A md5 srcFile sz =
     bindE (liftS (objectPathFor A md5)) (\<lambda>obj.
     bindE (fileExists A obj) (\<lambda>there.
     bindE (if there then bindE (fileSize A obj) (\<lambda>n. return (n = sz)) else return False) (\<lambda>same.
     if same then setObject A md5 obj sz
     else
       bindE (ensureDir A (parentDir obj)) (\<lambda>_.
       bindE (copyToObjectStore A srcFile obj sz) (\<lambda>_.
       bindE (on_os (os_chmod (os A) (c_str obj) 0x124)) (\<lambda>_.
       setObject A md5 obj sz))))))"

section \<open>References\<close>

definition addContentRef :: "('r, 'm, 'f) env \<Rightarrow> int \<Rightarrow> string \<Rightarrow> string \<Rightarrow> u64 \<Rightarrow>
    (('r, 'm, 'f, 'z) world_scheme, unit) cpp" where
  "addContentRef A userId virtualPath md5 sz =
     bindE (addRef A md5 userId virtualPath) (\<lambda>_.
     bindE (indexFile A userId virtualPath md5 sz False ''ready'') (\<lambda>_.
     setPathMd5 A userId virtualPath md5))"

text \<open>Removing an object whose last reference is gone.\<close>

definition gcObject :: "('r, 'm, 'f) env \<Rightarrow> string \<Rightarrow> (('r, 'm, 'f, 'z) world_scheme, unit) cpp" where
  "gcObject A md5 =
     bindE (resolveObjectPath A md5) (\<lambda>obj.
     bindE (fileExists A obj) (\<lambda>there.
     bindE (if there then
              bindE (on_os (os_chmod (os A) (c_str obj) 0x1A4)) (\<lambda>_.
              bindE (unlink A obj) (\<lambda>_. return ()))
            else return ()) (\<lambda>_.
     deleteObjectMeta A md5)))"

text \<open>The MD5 a path refers to: the Redis entry, or else the index row of a file.\<close>

definition contentMd5 :: "('r, 'm, 'f) env \<Rightarrow> int \<Rightarrow> string \<Rightarrow>
    (('r, 'm, 'f, 'z) world_scheme, string) cpp" where
  "contentMd5 A userId virtualPath =
     bindE (getPathMd5 A userId virtualPath) (\<lambda>md5.
     if md5 = [] then
       bindE (lookupFile A userId virtualPath) (\<lambda>info.
       return (case info of Some i \<Rightarrow> if \<not> if_isDir i then if_md5 i else [] | None \<Rightarrow> []))
     else return md5)"

definition releaseContentRef :: "('r, 'm, 'f) env \<Rightarrow> int \<Rightarrow> string \<Rightarrow>
    (('r, 'm, 'f, 'z) world_scheme, unit) cpp" where
  "releaseContentRef A userId virtualPath =
     bindE (contentMd5 A userId virtualPath) (\<lambda>md5.
     bindE (if md5 \<noteq> [] then
              bindE (removeRef A md5 userId virtualPath) (\<lambda>refs.
              if refs \<le> 0 then gcObject A md5 else return ())
            else return ()) (\<lambda>_.
     unindex A userId virtualPath))"

definition releaseIndexedUnderPrefix :: "('r, 'm, 'f) env \<Rightarrow> int \<Rightarrow> string \<Rightarrow>
    (('r, 'm, 'f, 'z) world_scheme, unit) cpp" where
  "releaseIndexedUnderPrefix A userId dirVirtual =
     with_conn A (\<lambda>c.
       bindE (stmt_new A c sql_under) (\<lambda>_.
       bindE (stmt_execute A c sql_under
                [SqlInt userId, SqlString (dirPrefix dirVirtual @ ''%'')]) (\<lambda>res.
       forE (map (\<lambda>row. col_string row 0) (sql_rows res)) (\<lambda>vp. releaseContentRef A userId vp))))"

definition renameIndexedFile :: "('r, 'm, 'f) env \<Rightarrow> int \<Rightarrow> string \<Rightarrow> string \<Rightarrow> string \<Rightarrow> u64 \<Rightarrow>
    (('r, 'm, 'f, 'z) world_scheme, unit) cpp" where
  "renameIndexedFile A userId fromVirtual toVirtual md5 sz =
     bindE (removeRef A md5 userId fromVirtual) (\<lambda>_.
     bindE (addRef A md5 userId toVirtual) (\<lambda>_.
     bindE (delPathMd5 A userId fromVirtual) (\<lambda>_.
     bindE (indexFile A userId toVirtual md5 sz False ''ready'') (\<lambda>_.
     bindE (setPathMd5 A userId toVirtual md5) (\<lambda>_.
     with_conn A (\<lambda>c.
       bindE (stmt_new A c sql_unindex) (\<lambda>_.
       bindE (stmt_execute A c sql_unindex [SqlInt userId, SqlString fromVirtual]) (\<lambda>_.
       return ()))))))))"

section \<open>Instant upload\<close>

definition challenge_seed :: "string \<Rightarrow> u64" where
  "challenge_seed s = foldl (\<lambda>seed c. seed * 131 + ucast (byte_of c)) 0 s"

text \<open>The slice a hit is challenged with: its offset and length.\<close>

definition challenge_for :: "('r, 'm, 'f) env \<Rightarrow> string \<Rightarrow> string \<Rightarrow> u64 \<Rightarrow> u64 \<times> u32" where
  "challenge_for A md5 token sz =
     (let clen0 = (if challengeBytes (cfg A) = 0 then 4096 else challengeBytes (cfg A)) in
      if sz = 0 then (0, 0)
      else (let clen = (if ucast clen0 > sz then ucast sz else clen0);
                span = (if sz > ucast clen then sz - ucast clen else 0);
                seed = challenge_seed (md5 @ token)
            in (if span \<noteq> 0 then seed mod span else 0, clen)))"

definition queryInstant :: "('r, 'm, 'f) env \<Rightarrow> user_session \<Rightarrow> string \<Rightarrow> u64 \<Rightarrow>
    (('r, 'm, 'f, 'z) world_scheme, instant_query) cpp" where
  "queryInstant A session md5 sz =
     (if length md5 \<noteq> 32 then throw (CloudError BadRequest ''md5 must be 32 hex chars'')
      else
        bindE (resolveObjectPath A md5) (\<lambda>obj.
        bindE (fileExists A obj) (\<lambda>there.
        bindE (if there then bindE (fileSize A obj) (\<lambda>n. return (n \<noteq> sz)) else return True) (\<lambda>miss.
        if miss then
          return \<lparr>iq_hit = False, iq_size = 0, iq_challengeOffset = 0, iq_challengeLen = 0\<rparr>
        else
          (case challenge_for A md5 (s_token session) sz of (off, len) \<Rightarrow>
             bindE (setChallenge A (s_token session) md5 off len) (\<lambda>_.
             return \<lparr>iq_hit = True, iq_size = sz, iq_challengeOffset = off, iq_challengeLen = len\<rparr>))))))"

definition instantUpload :: "('r, 'm, 'f) env \<Rightarrow> user_session \<Rightarrow> string \<Rightarrow> string \<Rightarrow> string \<Rightarrow> u64 \<Rightarrow>
    u64 \<Rightarrow> string \<Rightarrow> bool \<Rightarrow> (('r, 'm, 'f, 'z) world_scheme, unit) cpp" where
  "instantUpload A session destPath virtualPath md5 sz proofOffset proofMd5 overwrite =
     bindE (getChallenge A (s_token session) md5) (\<lambda>ch.
     case ch of
       None \<Rightarrow> throw (CloudError BadRequest ''missing instant challenge, call instant_query first'')
     | Some (expectOff, expectLen) \<Rightarrow>
         if proofOffset \<noteq> expectOff then throw (CloudError Forbidden ''challenge offset mismatch'')
         else
           bindE (resolveObjectPath A md5) (\<lambda>obj.
           bindE (fileExists A obj) (\<lambda>there.
           if \<not> there then throw (CloudError NotFound ''object not in store'')
           else
             bindE (fileSize A obj) (\<lambda>n.
             if n \<noteq> sz then throw (CloudError Unprocessable ''size mismatch'')
             else
               bindE (if 0 < expectLen then
                        bindE (md5FileRange A obj expectOff expectLen) (\<lambda>real.
                        if real \<noteq> proofMd5 then throw (CloudError Forbidden ''possession proof failed'')
                        else return ())
                      else return ()) (\<lambda>_.
               bindE (delChallenge A (s_token session) md5) (\<lambda>_.
               bindE (lookupFile A (s_userId session) virtualPath) (\<lambda>info.
               let hasExisting = (case info of Some i \<Rightarrow> \<not> if_isDir i | None \<Rightarrow> False) in
               bindE (if hasExisting then
                        (if \<not> overwrite then throw (CloudError Conflict ''destination exists'')
                         else releaseContentRef A (s_userId session) virtualPath)
                      else
                        bindE (fileExists A destPath) (\<lambda>ex.
                        if ex then
                          (if \<not> overwrite then throw (CloudError Conflict ''destination exists'')
                           else bindE (unlink A destPath) (\<lambda>_. return ()))
                        else return ())) (\<lambda>_.
               bindE (ensureDir A (parentDir destPath)) (\<lambda>_.
               addContentRef A (s_userId session) virtualPath md5 sz)))))))))"

section \<open>Chunked upload\<close>

definition partPathFor :: "('r, 'm, 'f) env \<Rightarrow> user_session \<Rightarrow> string \<Rightarrow> string \<Rightarrow> string" where
  "partPathFor A session md5 destPath =
     joinPath (joinPath (tmpRoot (cfg A)) (s_username session)) (md5 @ ''_'' @ baseName destPath @ ''.part'')"

definition beginUpload :: "('r, 'm, 'f) env \<Rightarrow> user_session \<Rightarrow> string \<Rightarrow> string \<Rightarrow> string \<Rightarrow> u64 \<Rightarrow>
    (('r, 'm, 'f, 'z) world_scheme, upload_session) cpp" where
  "beginUpload A session destPath virtualPath md5 sz =
     (if sz > maxUploadBytes (cfg A) then throw (CloudError PayloadTooLarge ''file too large'')
      else if length md5 \<noteq> 32 then throw (CloudError BadRequest ''md5 must be 32 hex chars'')
      else
        bindE (ensureDir A (joinPath (tmpRoot (cfg A)) (s_username session))) (\<lambda>_.
        bindE (ensureDir A (parentDir destPath)) (\<lambda>_.
        bindE (randomHex A 16) (\<lambda>fileId.
        bindE (on_os (os_open (os A) (c_str (partPathFor A session md5 destPath)) O_RDWR_CREAT)) (\<lambda>opened.
        case opened of
          Inl err \<Rightarrow> throw (CloudError Internal (''open part failed: '' @ os_strerror (os A) err))
        | Inr fd \<Rightarrow>
            let st = \<lparr>us_fileId = fileId, us_destPath = destPath, us_virtualPath = virtualPath,
                      us_partPath = partPathFor A session md5 destPath, us_md5 = md5,
                      us_totalSize = sz, us_received = 0, us_fd = fd\<rparr> in
            bindE (gets (\<lambda>w. os_fstat (os A) fd (w_os w))) (\<lambda>stbuf.
            case stbuf of
              None \<Rightarrow> return st
            | Some b \<Rightarrow>
                if of_int (st_size b) > sz then
                  bindE (on_os (os_ftruncate (os A) fd 0)) (\<lambda>_. return (st\<lparr>us_received := 0\<rparr>))
                else return (st\<lparr>us_received := of_int (st_size b)\<rparr>)))))))"

definition writeChunk :: "('r, 'm, 'f) env \<Rightarrow> u64 \<Rightarrow> string \<Rightarrow> u32 \<Rightarrow>
    (('r, 'm, 'f, 'z) tstate_scheme, unit) cpp" where
  "writeChunk A offset data len =
     bindE (gets upload) (\<lambda>st.
     if us_fd st < 0 then throw (CloudError BadRequest ''no active upload'')
     else if offset + ucast len > us_totalSize st then throw (CloudError BadRequest ''chunk out of range'')
     else
       bindE (on_os (os_pwrite (os A) (us_fd st) (take (unat len) data) (sint offset))) (\<lambda>n.
       if n \<noteq> Some (unat len) then throw (CloudError Internal ''pwrite failed'')
       else
         let end = offset + ucast len in
         if end > us_received st then
           modify (\<lambda>w. w\<lparr>upload := (upload w)\<lparr>us_received := end\<rparr>\<rparr>)
         else return ()))"

definition finishUpload :: "('r, 'm, 'f) env \<Rightarrow> user_session \<Rightarrow>
    (('r, 'm, 'f, 'z) tstate_scheme, unit) cpp" where
  "finishUpload A session =
     bindE (gets upload) (\<lambda>st.
     if us_fd st < 0 then throw (CloudError BadRequest ''no active upload'')
     else
       bindE (on_os (\<lambda>f. ((), os_fsync (os A) (us_fd st) f))) (\<lambda>_.
       bindE (close_fd A (us_fd st)) (\<lambda>_.
       bindE (modify (\<lambda>w. w\<lparr>upload := (upload w)\<lparr>us_fd := -1\<rparr>\<rparr>)) (\<lambda>_.
       bindE (fileSize A (us_partPath st)) (\<lambda>n.
       if n \<noteq> us_totalSize st then throw (CloudError Unprocessable ''uploaded size mismatch'')
       else
         bindE (md5File A (us_partPath st)) (\<lambda>realMd5.
         if realMd5 \<noteq> us_md5 st then
           bindE (unlink A (us_partPath st)) (\<lambda>_.
           throw (CloudError Unprocessable ''md5 mismatch, transfer corrupted''))
         else
           bindE (lookupFile A (s_userId session) (us_virtualPath st)) (\<lambda>info.
           bindE (if (case info of Some i \<Rightarrow> \<not> if_isDir i | None \<Rightarrow> False) then
                    releaseContentRef A (s_userId session) (us_virtualPath st)
                  else
                    bindE (fileExists A (us_destPath st)) (\<lambda>ex.
                    if ex then bindE (unlink A (us_destPath st)) (\<lambda>_. return ()) else return ())) (\<lambda>_.
           bindE (publishObject A (us_md5 st) (us_partPath st) (us_totalSize st)) (\<lambda>_.
           bindE (unlink A (us_partPath st)) (\<lambda>_.
           addContentRef A (s_userId session) (us_virtualPath st) (us_md5 st) (us_totalSize st)))))))))))"

definition closeUpload :: "('r, 'm, 'f) env \<Rightarrow> (('r, 'm, 'f, 'z) tstate_scheme, unit) cpp" where
  "closeUpload A = bindE (gets upload) (\<lambda>st.
     if us_fd st \<ge> 0 then
       bindE (close_fd A (us_fd st)) (\<lambda>_. modify (\<lambda>w. w\<lparr>upload := (upload w)\<lparr>us_fd := -1\<rparr>\<rparr>))
     else return ())"

section \<open>Download\<close>

definition beginDownload :: "('r, 'm, 'f) env \<Rightarrow> user_session \<Rightarrow> string \<Rightarrow>
    (('r, 'm, 'f, 'z) world_scheme, download_session) cpp" where
  "beginDownload A session virtualPath =
     bindE (randomHex A 16) (\<lambda>fileId.
     bindE (getPathMd5 A (s_userId session) virtualPath) (\<lambda>md5.
     bindE (if md5 = [] then
              bindE (lookupFile A (s_userId session) virtualPath) (\<lambda>info.
              case info of
                None \<Rightarrow> throw (CloudError NotFound ''file not found'')
              | Some i \<Rightarrow> if if_isDir i \<or> if_md5 i = [] then throw (CloudError NotFound ''file not found'')
                          else return (if_md5 i))
            else return md5) (\<lambda>md5.
     bindE (resolveObjectPath A md5) (\<lambda>src.
     bindE (fileExists A src) (\<lambda>there.
     if \<not> there then throw (CloudError NotFound ''object missing'')
     else
       bindE (fileSize A src) (\<lambda>n.
       bindE (on_os (os_open (os A) (c_str src) O_RDONLY)) (\<lambda>opened.
       case opened of
         Inl err \<Rightarrow> throw (CloudError Internal ''open download failed'')
       | Inr fd \<Rightarrow>
           return \<lparr>ds_fileId = fileId, ds_srcPath = src, ds_totalSize = n, ds_fd = fd\<rparr>)))))))"

text \<open>\<open>readChunk\<close> returns the bytes it read.\<close>

definition readChunk :: "('r, 'm, 'f) env \<Rightarrow> u64 \<Rightarrow> u32 \<Rightarrow>
    (('r, 'm, 'f, 'z) tstate_scheme, string) cpp" where
  "readChunk A offset len =
     bindE (gets download) (\<lambda>st.
     if ds_fd st < 0 then throw (CloudError BadRequest ''no active download'')
     else if offset \<ge> ds_totalSize st then return []
     else
       let len' = (if offset + ucast len > ds_totalSize st then ucast (ds_totalSize st - offset) else len) in
       bindE (gets (\<lambda>w. os_pread (os A) (ds_fd st) (unat len') (sint offset) (w_os w))) (\<lambda>n.
       case n of
         None \<Rightarrow> throw (CloudError Internal ''pread failed'')
       | Some bytes \<Rightarrow> return bytes))"

definition closeDownload :: "('r, 'm, 'f) env \<Rightarrow> (('r, 'm, 'f, 'z) tstate_scheme, unit) cpp" where
  "closeDownload A = bindE (gets download) (\<lambda>st.
     if ds_fd st \<ge> 0 then
       bindE (close_fd A (ds_fd st)) (\<lambda>_. modify (\<lambda>w. w\<lparr>download := (download w)\<lparr>ds_fd := -1\<rparr>\<rparr>))
     else return ())"

section \<open>Removing and renaming\<close>

definition removeUserPath :: "('r, 'm, 'f) env \<Rightarrow> user_session \<Rightarrow> string \<Rightarrow> string \<Rightarrow>
    (('r, 'm, 'f, 'z) world_scheme, unit) cpp" where
  "removeUserPath A session physical virtualPath =
     bindE (lookupFile A (s_userId session) virtualPath) (\<lambda>info.
     if (case info of Some i \<Rightarrow> \<not> if_isDir i | None \<Rightarrow> False) then
       bindE (releaseContentRef A (s_userId session) virtualPath) (\<lambda>_.
       bindE (fileExists A physical) (\<lambda>ex.
       if ex then bindE (unlink A physical) (\<lambda>_. return ()) else return ()))
     else
       bindE (gets (\<lambda>w. os_lstat (os A) (c_str physical) (w_os w))) (\<lambda>st.
       if (case st of Some b \<Rightarrow> S_ISDIR (st_mode b) \<and> \<not> S_ISLNK (st_mode b) | None \<Rightarrow> False) then
         bindE (releaseIndexedUnderPrefix A (s_userId session) virtualPath) (\<lambda>_.
         bindE (removePath A physical) (\<lambda>_.
         unindex A (s_userId session) virtualPath))
       else
         bindE (if st \<noteq> None then
                  bindE (unlink A physical) (\<lambda>e.
                  case e of
                    None \<Rightarrow> return ()
                  | Some err \<Rightarrow> if err \<noteq> ENOENT
                      then throw (CloudError Internal (''unlink failed: '' @ os_strerror (os A) err))
                      else return ())
                else return ()) (\<lambda>_.
         releaseContentRef A (s_userId session) virtualPath)))"

definition renameUserPath :: "('r, 'm, 'f) env \<Rightarrow> user_session \<Rightarrow> string \<Rightarrow> string \<Rightarrow> string \<Rightarrow> string \<Rightarrow>
    (('r, 'm, 'f, 'z) world_scheme, unit) cpp" where
  "renameUserPath A session fromPhysical fromVirtual toPhysical toVirtual =
     bindE (lookupFile A (s_userId session) fromVirtual) (\<lambda>info.
     case (case info of Some i \<Rightarrow> if if_isDir i then None else Some i | None \<Rightarrow> None) of
       Some i \<Rightarrow> renameIndexedFile A (s_userId session) fromVirtual toVirtual (if_md5 i) (if_size i)
     | None \<Rightarrow>
         bindE (renamePath A fromPhysical toPhysical) (\<lambda>_.
         bindE (getPathMd5 A (s_userId session) fromVirtual) (\<lambda>md5.
         bindE (fileExists A toPhysical) (\<lambda>ex.
         bindE (if ex then fileSize A toPhysical else return 0) (\<lambda>sz.
         bindE (unindex A (s_userId session) fromVirtual) (\<lambda>_.
         bindE (indexFile A (s_userId session) toVirtual md5 sz False ''ready'') (\<lambda>_.
         if md5 \<noteq> [] then setPathMd5 A (s_userId session) toVirtual md5 else return ())))))))"

definition newTransferService :: "('r, 'm, 'f) env \<Rightarrow> (('r, 'm, 'f, 'z) world_scheme, unit) cpp" where
  "newTransferService A =
     bindE (ensureDir A (objectsRoot (cfg A))) (\<lambda>_.
     bindE (ensureDir A (tmpRoot (cfg A))) (\<lambda>_.
     bindE (ensureDir A (usersRoot (cfg A))) (\<lambda>_. return ())))"

section \<open>Only the file system changes\<close>

lemma os_frame_copy_steps [os_frame_intros]:
  "os_frame (close_fd A fd)" "os_frame (unlink A p)" "os_frame (copy_abort A fin fout dest msg)"
  unfolding close_fd_def unlink_def copy_abort_def by (intro os_frame_intros)+

lemma os_frame_write_loop [os_frame_intros]: "os_frame (write_loop A n fin fout dest data)"
proof (induction n arbitrary: data)
  case 0
  show ?case by (subst write_loop.simps) (simp add: os_frame_intros)
next
  case (Suc n)
  show ?case by (subst write_loop.simps) (auto intro!: os_frame_intros Suc)
qed

lemma os_frame_copy_loop [os_frame_intros]: "os_frame (copy_loop A n fin fout dest bufsz copied)"
  by (induction n arbitrary: copied) (auto intro!: os_frame_intros)

lemma os_frame_copyToObjectStore [os_frame_intros]: "os_frame (copyToObjectStore A src dest expectedSize)"
  unfolding copyToObjectStore_def by (intro os_frame_intros)

section \<open>The shared services leave the sessions alone\<close>

lemmas more_frame_files [more_frame_intros] =
  os_frame_utils [THEN os_more_frame] os_frame_md5 [THEN os_more_frame]
  os_frame_manager [THEN os_more_frame] os_frame_copy_steps [THEN os_more_frame]
  os_frame_copyToObjectStore [THEN os_more_frame]

lemma more_frame_index [more_frame_intros]:
  "more_frame (indexFile A u p m n d s)" "more_frame (unindex A u p)" "more_frame (lookupFile A u p)"
  unfolding indexFile_def unindex_def lookupFile_def by (intro more_frame_intros)+

lemma more_frame_objects [more_frame_intros]:
  "more_frame (resolveObjectPath A m)" "more_frame (publishObject A m src n)" "more_frame (addContentRef A u p m n)"
  "more_frame (gcObject A m)" "more_frame (contentMd5 A u p)"
  unfolding resolveObjectPath_def publishObject_def addContentRef_def gcObject_def contentMd5_def
  by (intro more_frame_intros)+

lemma more_frame_release [more_frame_intros]:
  "more_frame (releaseContentRef A u p)" "more_frame (releaseIndexedUnderPrefix A u p)"
  "more_frame (renameIndexedFile A u p q m n)"
  unfolding releaseContentRef_def releaseIndexedUnderPrefix_def renameIndexedFile_def
  by (intro more_frame_intros)+

lemma more_frame_service [more_frame_intros]:
  "more_frame (queryInstant A session m n)"
  "more_frame (instantUpload A session dest p m n off proof overwrite)"
  "more_frame (beginUpload A session dest p m n)" "more_frame (beginDownload A session p)"
  "more_frame (removeUserPath A session phys p)" "more_frame (renameUserPath A session phys p phys' q)"
  unfolding queryInstant_def instantUpload_def beginUpload_def beginDownload_def removeUserPath_def
    renameUserPath_def Let_def
  by (intro more_frame_intros)+

end
