(* ===== verification/Transfer_Facts.thy ===== *)
theory Transfer_Facts
  imports Transfer_Service
begin

text \<open>
  The laws the object store relies on of MySQL (what the five statements on \<open>file_index\<close> do to
  the table) and the symbolic runs of the operations of \<open>Transfer_Service\<close> under them. The table is seen
  as a map from a user and a collation key to a row: the column \<open>virtual_path\<close> is compared under
  the collation of the table (\<open>utf8mb4_unicode_ci\<close> in \<open>sql/init.sql\<close>), so two paths with the
  same key are the same row.
\<close>

section \<open>The file index service\<close>

definition row_of :: "indexed_file \<Rightarrow> sql_value list" where
  "row_of i = [SqlString (if_virtualPath i), SqlString (if_md5 i), SqlUInt (if_size i),
     SqlInt (if if_isDir i then 1 else 0), SqlString (if_status i)]"

lemma row_indexed_row_of [simp]: "row_indexed (row_of i) = i"
  by (simp add: row_indexed_def row_of_def col_string_def col_u64_def col_int_def)

text \<open>The row after \<open>INSERT ... ON DUPLICATE KEY UPDATE\<close>: an existing row keeps its path.\<close>

definition upsert :: "indexed_file option \<Rightarrow> string \<Rightarrow> string \<Rightarrow> u64 \<Rightarrow> bool \<Rightarrow> string \<Rightarrow> indexed_file" where
  "upsert old p m n d s =
     \<lparr>if_virtualPath = (case old of None \<Rightarrow> p | Some i \<Rightarrow> if_virtualPath i),
      if_md5 = m, if_size = n, if_isDir = d, if_status = s\<rparr>"

text \<open>SQL \<open>LIKE\<close> without an escape character in the pattern: \<open>%\<close> matches any sequence, \<open>_\<close> any
  one character; \<open>eq\<close> is the collation's character comparison.\<close>

fun like :: "(char \<Rightarrow> char \<Rightarrow> bool) \<Rightarrow> string \<Rightarrow> string \<Rightarrow> bool" where
  "like eq [] s = (s = [])"
| "like eq (c # pat) s =
     (if c = CHR ''%'' then like eq pat s \<or> (case s of [] \<Rightarrow> False | x # xs \<Rightarrow> like eq (c # pat) xs)
      else (case s of [] \<Rightarrow> False | x # xs \<Rightarrow> (c = CHR ''_'' \<or> eq c x) \<and> like eq pat xs))"

definition m_begin :: "'m mysql_client \<Rightarrow> nat \<Rightarrow> string \<Rightarrow> 'm \<Rightarrow> 'm" where
  "m_begin M h text m = snd (my_prepare M h text (snd (my_ping M h m)))"

definition m_run :: "'m mysql_client \<Rightarrow> nat \<Rightarrow> string \<Rightarrow> sql_value list \<Rightarrow> 'm \<Rightarrow> 'm" where
  "m_run M h text ps m = snd (my_execute M h text ps (m_begin M h text m))"

text \<open>
  \<open>fi\<close> is the view of the table. \<open>fits\<close> holds of the paths and digests the columns can store
  without loss (a path within the 255 characters of the unique key, a digest of at most 32
  characters).
\<close>

locale index_service =
  fixes M :: "'m mysql_client" and fi :: "'m \<Rightarrow> int \<times> string \<Rightarrow> indexed_file option"
    and ck :: "string \<Rightarrow> string" and fits :: "string \<Rightarrow> string \<Rightarrow> bool"
    and ceq :: "char \<Rightarrow> char \<Rightarrow> bool"
  assumes ping_ok: "fst (my_ping M h m)"
    and ping_fi: "fi (snd (my_ping M h m)) = fi m"
    and prepare_ok: "text \<in> {sql_index, sql_unindex, sql_lookup, sql_under} \<Longrightarrow> fst (my_prepare M h text m) = None"
    and prepare_fi: "fi (snd (my_prepare M h text m)) = fi m"
    and lookup_ok: "\<exists>k. fst (my_execute M h sql_lookup [SqlInt u, SqlString p] m) =
      Inr \<lparr>sql_rows = (case fi m (u, ck p) of None \<Rightarrow> [] | Some i \<Rightarrow> [row_of i]), sql_insert_id = k\<rparr>"
    and lookup_fi: "fi (snd (my_execute M h sql_lookup [SqlInt u, SqlString p] m)) = fi m"
    and index_ok: "fits p d \<Longrightarrow> \<exists>r. fst (my_execute M h sql_index
      [SqlInt u, SqlString p, SqlString d, SqlUInt n, SqlInt b, SqlString s] m) = Inr r"
    and index_fi: "fits p d \<Longrightarrow> fi (snd (my_execute M h sql_index
      [SqlInt u, SqlString p, SqlString d, SqlUInt n, SqlInt b, SqlString s] m)) =
      (fi m)((u, ck p) \<mapsto> upsert (fi m (u, ck p)) p d n (b \<noteq> 0) s)"
    and unindex_ok: "\<exists>r. fst (my_execute M h sql_unindex [SqlInt u, SqlString p] m) = Inr r"
    and unindex_fi: "fi (snd (my_execute M h sql_unindex [SqlInt u, SqlString p] m)) =
      (fi m)((u, ck p) := None)"
    and under_ok: "\<exists>k rows. fst (my_execute M h sql_under [SqlInt u, SqlString pat] m) =
      Inr \<lparr>sql_rows = map (\<lambda>p. [SqlString p]) rows, sql_insert_id = k\<rparr> \<and> distinct rows \<and>
      set rows = {if_virtualPath i | c i. fi m (u, c) = Some i \<and> \<not> if_isDir i \<and> like ceq pat (if_virtualPath i)}"
    and under_fi: "fi (snd (my_execute M h sql_under [SqlInt u, SqlString pat] m)) = fi m"
begin

lemma m_begin_fi [simp]: "fi (m_begin M h text m) = fi m"
  by (simp add: m_begin_def ping_fi prepare_fi)

lemma m_run_fi [simp]:
  "fi (m_run M h sql_lookup [SqlInt u, SqlString p] m) = fi m"
  "fits p d \<Longrightarrow> fi (m_run M h sql_index
     [SqlInt u, SqlString p, SqlString d, SqlUInt n, SqlInt b, SqlString s] m) =
     (fi m)((u, ck p) \<mapsto> upsert (fi m (u, ck p)) p d n (b \<noteq> 0) s)"
  "fi (m_run M h sql_unindex [SqlInt u, SqlString p] m) = (fi m)((u, ck p) := None)"
  "fi (m_run M h sql_under [SqlInt u, SqlString pat] m) = fi m"
  by (simp_all add: m_run_def lookup_fi index_fi unindex_fi under_fi)

end

section \<open>Running statements\<close>

locale index_env = index_service "sql A" fi ck fits ceq
  for A :: "('r, 'm, 'f) env" and fi :: "'m \<Rightarrow> int \<times> string \<Rightarrow> indexed_file option"
    and ck :: "string \<Rightarrow> string" and fits :: "string \<Rightarrow> string \<Rightarrow> bool"
    and ceq :: "char \<Rightarrow> char \<Rightarrow> bool"
begin

text \<open>A pool with an idle handle.\<close>

abbreviation "pool_up w \<equiv> \<not> pool_stopping w \<and> idle_conns w \<noteq> []"

lemma acquire_run:
  "pool_up w \<Longrightarrow> acquire A w =
     (Ret (hd (idle_conns w)),
      w\<lparr>idle_conns := tl (idle_conns w), w_mysql := snd (my_ping (sql A) (hd (idle_conns w)) (w_mysql w))\<rparr>)"
  by (simp add: acquire_def bindE_def on_mysql_run ping_ok)

lemma stmt_new_run:
  "text \<in> {sql_index, sql_unindex, sql_lookup, sql_under} \<Longrightarrow> stmt_new A h text w =
     (Ret (), w\<lparr>w_mysql := snd (my_prepare (sql A) h text (w_mysql w))\<rparr>)"
  by (simp add: stmt_new_def bindE_def on_mysql_run prepare_ok)

lemma stmt_execute_run:
  "fst (my_execute (sql A) h text ps (w_mysql w)) = Inr r \<Longrightarrow> stmt_execute A h text ps w =
     (Ret r, w\<lparr>w_mysql := snd (my_execute (sql A) h text ps (w_mysql w))\<rparr>)"
  by (simp add: stmt_execute_def bindE_def on_mysql_run)

text \<open>The pool after one statement: the handle that was first is now last.\<close>

lemma lookupFile_run:
  assumes "pool_up w"
  shows "lookupFile A u p w =
     (Ret (fi (w_mysql w) (u, ck p)),
      w\<lparr>w_mysql := m_run (sql A) (hd (idle_conns w)) sql_lookup [SqlInt u, SqlString p] (w_mysql w),
        idle_conns := rotate1 (idle_conns w)\<rparr>)"
proof -
  let ?h = "hd (idle_conns w)"
  let ?m = "m_begin (sql A) ?h sql_lookup (w_mysql w)"
  obtain k where "fst (my_execute (sql A) ?h sql_lookup [SqlInt u, SqlString p] ?m) =
      Inr \<lparr>sql_rows = (case fi ?m (u, ck p) of None \<Rightarrow> [] | Some i \<Rightarrow> [row_of i]), sql_insert_id = k\<rparr>"
    using lookup_ok by blast
  then show ?thesis
    using assms
    by (cases "idle_conns w")
      (simp_all add: lookupFile_def with_conn_def bindE_run acquire_run stmt_new_run catchE_run finallyE_run
        stmt_execute_run m_begin_def m_run_def release_def ping_fi prepare_fi split: option.splits)
qed

lemma indexFile_run:
  assumes "pool_up w" and "fits p d"
  shows "indexFile A u p d n b s w =
     (Ret (),
      w\<lparr>w_mysql := m_run (sql A) (hd (idle_conns w)) sql_index
          [SqlInt u, SqlString p, SqlString d, SqlUInt n, SqlInt (if b then 1 else 0), SqlString s] (w_mysql w),
        idle_conns := rotate1 (idle_conns w)\<rparr>)"
proof -
  let ?h = "hd (idle_conns w)"
  let ?m = "m_begin (sql A) ?h sql_index (w_mysql w)"
  obtain r where "fst (my_execute (sql A) ?h sql_index [SqlInt u, SqlString p, SqlString d, SqlUInt n,
      SqlInt (if b then 1 else 0), SqlString s] ?m) = Inr r"
    using index_ok [OF assms(2)] by blast
  then show ?thesis
    using assms(1)
    by (cases "idle_conns w")
      (simp_all add: indexFile_def with_conn_def bindE_run acquire_run stmt_new_run catchE_run finallyE_run
        stmt_execute_run m_begin_def m_run_def release_def)
qed

end

section \<open>Running the operations of the store\<close>

text \<open>The file system after the removal of an object, and the path of an object given the cached
  value.\<close>

definition gc_fs :: "'f posix \<Rightarrow> string \<Rightarrow> 'f \<Rightarrow> 'f" where
  "gc_fs P obj f =
     (if os_lstat P (c_str obj) f \<noteq> None
      then snd (os_unlink P (c_str obj) (snd (os_chmod P (c_str obj) 0x1A4 f))) else f)"

definition object_path :: "('r, 'm, 'f) env \<Rightarrow> string \<Rightarrow> string \<Rightarrow> exn + string" where
  "object_path A cached m = (if cached \<noteq> [] then Inr cached else objectPathFor A m)"

text \<open>The services are reachable, and the pool has an idle handle.\<close>

definition store_up :: "('r, 'm, 'f) env \<Rightarrow> ('r \<Rightarrow> string \<Rightarrow> string option) \<Rightarrow>
    ('r \<Rightarrow> string \<Rightarrow> string set) \<Rightarrow> ('r, 'm, 'f, 'z) world_scheme \<Rightarrow> bool" where
  "store_up A strs sets w \<longleftrightarrow>
     ctx_set w \<and> redis_ready (rds A) strs sets (w_redis w) \<and> \<not> pool_stopping w \<and> idle_conns w \<noteq> []"

text \<open>The MD5 a path refers to: the Redis entry, or else the row of a file in the index.\<close>

definition path_md5 :: "('r \<Rightarrow> string \<Rightarrow> string option) \<Rightarrow> ('m \<Rightarrow> int \<times> string \<Rightarrow> indexed_file option) \<Rightarrow>
    (string \<Rightarrow> string) \<Rightarrow> ('r, 'm, 'f, 'z) world_scheme \<Rightarrow> int \<Rightarrow> string \<Rightarrow> string" where
  "path_md5 strs fi ck w u p =
     (let cached = (case strs (w_redis w) (pathKey u (c_str p)) of None \<Rightarrow> [] | Some v \<Rightarrow> v) in
      if cached \<noteq> [] then cached
      else (case fi (w_mysql w) (u, ck p) of
              Some i \<Rightarrow> if \<not> if_isDir i then if_md5 i else []
            | None \<Rightarrow> []))"

text \<open>Only the state of the services and the rotation of the pool differ.\<close>

definition moved :: "('r, 'm, 'f, 'z) world_scheme \<Rightarrow> ('r, 'm, 'f, 'z) world_scheme \<Rightarrow> bool" where
  "moved w w' \<longleftrightarrow> ctx_set w' = ctx_set w \<and> pool_stopping w' = pool_stopping w \<and>
     world.more w' = world.more w \<and> length (idle_conns w') = length (idle_conns w)"

lemma moved_self [simp]: "moved w w"
  by (simp add: moved_def)

lemma moved_trans: "moved u v \<Longrightarrow> moved v w \<Longrightarrow> moved u w"
  by (simp add: moved_def)

lemma rotate1_up [simp]: "rotate1 xs = [] \<longleftrightarrow> xs = []"
  by (cases xs) simp_all

locale store_env = redis_env A strs sets + index_env A fi ck fits ceq
  for A :: "('r, 'm, 'f) env" and strs :: "'r \<Rightarrow> string \<Rightarrow> string option"
    and sets :: "'r \<Rightarrow> string \<Rightarrow> string set"
    and fi :: "'m \<Rightarrow> int \<times> string \<Rightarrow> indexed_file option"
    and ck :: "string \<Rightarrow> string" and fits :: "string \<Rightarrow> string \<Rightarrow> bool"
    and ceq :: "char \<Rightarrow> char \<Rightarrow> bool"
begin

abbreviation "up w \<equiv> ctx_set w \<and> rok (w_redis w) \<and> \<not> pool_stopping w \<and> idle_conns w \<noteq> []"

abbreviation "md5_of w \<equiv> path_md5 strs fi ck w"

lemma unindex_run:
  assumes "up w"
  shows "unindex A u p w =
     (Ret (),
      w\<lparr>w_mysql := m_run (sql A) (hd (idle_conns w)) sql_unindex [SqlInt u, SqlString p] (w_mysql w),
        w_redis := r_delPath (rds A) u p (w_redis w),
        idle_conns := rotate1 (idle_conns w)\<rparr>)"
proof -
  let ?h = "hd (idle_conns w)"
  let ?m = "m_begin (sql A) ?h sql_unindex (w_mysql w)"
  obtain r where "fst (my_execute (sql A) ?h sql_unindex [SqlInt u, SqlString p] ?m) = Inr r"
    using unindex_ok by blast
  then show ?thesis
    using assms
    by (cases "idle_conns w")
      (simp_all add: unindex_def with_conn_def bindE_run acquire_run stmt_new_run finallyE_run
        stmt_execute_run m_begin_def m_run_def release_def store_runs)
qed

lemma addContentRef_run:
  assumes "up w" and "fits p m"
  obtains w' where "addContentRef A u p m n w = (Ret (), w')" and "up w'" and "moved w w'"
    and "w_os w' = w_os w"
    and "strs (w_redis w') = (strs (w_redis w))(pathKey u (c_str p) \<mapsto> m)"
    and "sets (w_redis w') = (sets (w_redis w))(refsKey (c_str m) :=
           insert (refMember u (c_str p)) (sets (w_redis w) (refsKey (c_str m))))"
    and "fi (w_mysql w') = (fi (w_mysql w))((u, ck p) \<mapsto>
           upsert (fi (w_mysql w) (u, ck p)) p m n False ''ready'')"
proof
  let ?r1 = "r_addRef (rds A) m u p (w_redis w)"
  let ?m = "m_run (sql A) (hd (idle_conns w)) sql_index
    [SqlInt u, SqlString p, SqlString m, SqlUInt n, SqlInt 0, SqlString ''ready''] (w_mysql w)"
  let ?w = "w\<lparr>w_redis := r_setPath (rds A) u p m ?r1, w_mysql := ?m, idle_conns := rotate1 (idle_conns w)\<rparr>"
  show "addContentRef A u p m n w = (Ret (), ?w)"
    using assms by (simp add: addContentRef_def bindE_run store_runs indexFile_run)
  show "up ?w" "moved w ?w" "w_os ?w = w_os w"
    "strs (w_redis ?w) = (strs (w_redis w))(pathKey u (c_str p) \<mapsto> m)"
    "sets (w_redis ?w) = (sets (w_redis w))(refsKey (c_str m) :=
           insert (refMember u (c_str p)) (sets (w_redis w) (refsKey (c_str m))))"
    "fi (w_mysql ?w) = (fi (w_mysql w))((u, ck p) \<mapsto>
           upsert (fi (w_mysql w) (u, ck p)) p m n False ''ready'')"
    using assms by (simp_all add: moved_def)
qed

lemma contentMd5_run:
  assumes "up w"
  obtains w' where "contentMd5 A u p w = (Ret (md5_of w u p), w')" and "up w'" and "moved w w'"
    and "w_os w' = w_os w" and "strs (w_redis w') = strs (w_redis w)"
    and "sets (w_redis w') = sets (w_redis w)" and "fi (w_mysql w') = fi (w_mysql w)"
proof (cases "val w (pathKey u (c_str p)) = []")
  case True
  show thesis
    by (rule that [of "w\<lparr>w_redis := r_getPath (rds A) u p (w_redis w),
        w_mysql := m_run (sql A) (hd (idle_conns w)) sql_lookup [SqlInt u, SqlString p] (w_mysql w),
        idle_conns := rotate1 (idle_conns w)\<rparr>"])
      (use assms True in \<open>simp_all add: contentMd5_def bindE_run store_runs lookupFile_run path_md5_def moved_def\<close>)
next
  case False
  show thesis
    by (rule that [of "w\<lparr>w_redis := r_getPath (rds A) u p (w_redis w)\<rparr>"])
      (use assms False in \<open>simp_all add: contentMd5_def bindE_run store_runs path_md5_def moved_def\<close>)
qed

lemma gcObject_run:
  assumes "up w" and "object_path A (val w (objKey (c_str m))) m = Inr obj"
  obtains w' where "gcObject A m w = (Ret (), w')" and "up w'" and "moved w w'"
    and "w_os w' = gc_fs (os A) obj (w_os w)"
    and "strs (w_redis w') = (strs (w_redis w))(objKey (c_str m) := None, objsizeKey (c_str m) := None)"
    and "sets (w_redis w') = (sets (w_redis w))(refsKey (c_str m) := {})"
    and "w_mysql w' = w_mysql w"
proof
  let ?r = "r_getObject (rds A) m (w_redis w)"
  let ?w = "w\<lparr>w_os := gc_fs (os A) obj (w_os w), w_redis := r_delMeta (rds A) m ?r\<rparr>"
  have "resolveObjectPath A m w = (Ret obj, w\<lparr>w_redis := ?r\<rparr>)"
    using assms by (auto simp: resolveObjectPath_def bindE_run store_runs object_path_def split: if_splits)
  then show "gcObject A m w = (Ret (), ?w)"
    using assms
    by (simp add: gcObject_def bindE_run fileExists_run on_os_run unlink_def store_runs gc_fs_def)
  show "strs (w_redis ?w) = (strs (w_redis w))(objKey (c_str m) := None, objsizeKey (c_str m) := None)"
    using assms(1) by (auto simp: fun_eq_iff)
  show "up ?w" "moved w ?w" "w_os ?w = gc_fs (os A) obj (w_os w)"
    "sets (w_redis ?w) = (sets (w_redis w))(refsKey (c_str m) := {})" "w_mysql ?w = w_mysql w"
    using assms(1) by (simp_all add: moved_def)
qed

text \<open>Releasing a path, branch by branch. The clean-up of the index is common to all.\<close>

lemma unindex_views:
  assumes "up w"
  obtains w' where "unindex A u p w = (Ret (), w')" and "up w'" and "moved w w'" and "w_os w' = w_os w"
    and "strs (w_redis w') = (strs (w_redis w))(pathKey u (c_str p) := None)"
    and "sets (w_redis w') = sets (w_redis w)"
    and "fi (w_mysql w') = (fi (w_mysql w))((u, ck p) := None)"
  using unindex_run [OF assms, of u p] assms that by (simp add: moved_def)

lemma release_none:
  assumes "up w" and "md5_of w u p = []"
  obtains w' where "releaseContentRef A u p w = (Ret (), w')" and "up w'" and "moved w w'"
    and "w_os w' = w_os w"
    and "strs (w_redis w') = (strs (w_redis w))(pathKey u (c_str p) := None)"
    and "sets (w_redis w') = sets (w_redis w)"
    and "fi (w_mysql w') = (fi (w_mysql w))((u, ck p) := None)"
proof -
  obtain w1 where 1: "contentMd5 A u p w = (Ret (md5_of w u p), w1)" "up w1" "moved w w1"
    "w_os w1 = w_os w" "strs (w_redis w1) = strs (w_redis w)" "sets (w_redis w1) = sets (w_redis w)"
    "fi (w_mysql w1) = fi (w_mysql w)"
    using contentMd5_run [OF assms(1)] by metis
  obtain w2 where 2: "unindex A u p w1 = (Ret (), w2)" "up w2" "moved w1 w2" "w_os w2 = w_os w1"
    "strs (w_redis w2) = (strs (w_redis w1))(pathKey u (c_str p) := None)"
    "sets (w_redis w2) = sets (w_redis w1)" "fi (w_mysql w2) = (fi (w_mysql w1))((u, ck p) := None)"
    using unindex_views [OF 1(2)] by metis
  show thesis
    by (rule that [of w2])
      (use 1 2 assms moved_trans in \<open>auto simp: releaseContentRef_def bindE_run\<close>)
qed

text \<open>The members of the reference set that remain.\<close>

abbreviation "others w u p m \<equiv> sets (w_redis w) (refsKey (c_str m)) - {refMember u (c_str p)}"

lemma release_keep:
  assumes "up w" and "md5_of w u p = m" and "m \<noteq> []" and "others w u p m \<noteq> {}"
  obtains w' where "releaseContentRef A u p w = (Ret (), w')" and "up w'" and "moved w w'"
    and "w_os w' = w_os w"
    and "strs (w_redis w') = (strs (w_redis w))(pathKey u (c_str p) := None)"
    and "sets (w_redis w') = (sets (w_redis w))(refsKey (c_str m) := others w u p m)"
    and "fi (w_mysql w') = (fi (w_mysql w))((u, ck p) := None)"
proof -
  obtain w1 where 1: "contentMd5 A u p w = (Ret m, w1)" "up w1" "moved w w1"
    "w_os w1 = w_os w" "strs (w_redis w1) = strs (w_redis w)" "sets (w_redis w1) = sets (w_redis w)"
    "fi (w_mysql w1) = fi (w_mysql w)"
    using contentMd5_run [OF assms(1)] assms(2) by metis
  define w2 where "w2 = w1\<lparr>w_redis := r_removeRef (rds A) m u p (w_redis w1)\<rparr>"
  have "0 < card (others w1 u p m)"
    using assms(4) 1(6) finite_sets by (simp add: card_gt_0_iff)
  then have 2: "removeRef A m u p w1 = (Ret (int (card (others w1 u p m))), w2)"
    and pos: "\<not> int (card (others w1 u p m)) \<le> 0"
    using 1(2) by (simp_all add: store_runs w2_def)
  have up2: "up w2" using 1(2) by (simp add: w2_def)
  obtain w3 where 3: "unindex A u p w2 = (Ret (), w3)" "up w3" "moved w2 w3" "w_os w3 = w_os w2"
    "strs (w_redis w3) = (strs (w_redis w2))(pathKey u (c_str p) := None)"
    "sets (w_redis w3) = sets (w_redis w2)" "fi (w_mysql w3) = (fi (w_mysql w2))((u, ck p) := None)"
    using unindex_views [OF up2] by metis
  have "releaseContentRef A u p w = (Ret (), w3)"
    using 1(1) 2 pos 3(1) assms(3) by (simp add: releaseContentRef_def bindE_run)
  moreover have "moved w w3"
    using moved_trans [OF 1(3)] moved_trans [OF _ 3(3)] by (simp add: w2_def moved_def)
  ultimately show thesis
    using 1 3 that [of w3] by (simp add: w2_def)
qed

lemma release_gc:
  assumes "up w" and "md5_of w u p = m" and "m \<noteq> []" and "others w u p m = {}"
    and "object_path A (val w (objKey (c_str m))) m = Inr obj"
  obtains w' where "releaseContentRef A u p w = (Ret (), w')" and "up w'" and "moved w w'"
    and "w_os w' = gc_fs (os A) obj (w_os w)"
    and "strs (w_redis w') = (strs (w_redis w))(objKey (c_str m) := None, objsizeKey (c_str m) := None,
           pathKey u (c_str p) := None)"
    and "sets (w_redis w') = (sets (w_redis w))(refsKey (c_str m) := {})"
    and "fi (w_mysql w') = (fi (w_mysql w))((u, ck p) := None)"
proof -
  obtain w1 where 1: "contentMd5 A u p w = (Ret m, w1)" "up w1" "moved w w1"
    "w_os w1 = w_os w" "strs (w_redis w1) = strs (w_redis w)" "sets (w_redis w1) = sets (w_redis w)"
    "fi (w_mysql w1) = fi (w_mysql w)"
    using contentMd5_run [OF assms(1)] assms(2) by metis
  define w2 where "w2 = w1\<lparr>w_redis := r_removeRef (rds A) m u p (w_redis w1)\<rparr>"
  have "card (others w u p m) = 0" by (simp only: assms(4) card.empty)
  then have 2: "removeRef A m u p w1 = (Ret 0, w2)"
    using 1(2,6) by (simp add: store_runs w2_def)
  have up2: "up w2" and o2: "object_path A (val w2 (objKey (c_str m))) m = Inr obj"
    using 1(2,5) assms(5) by (simp_all add: w2_def)
  obtain w3 where 3: "gcObject A m w2 = (Ret (), w3)" "up w3" "moved w2 w3"
    "w_os w3 = gc_fs (os A) obj (w_os w2)"
    "strs (w_redis w3) = (strs (w_redis w2))(objKey (c_str m) := None, objsizeKey (c_str m) := None)"
    "sets (w_redis w3) = (sets (w_redis w2))(refsKey (c_str m) := {})" "w_mysql w3 = w_mysql w2"
    using gcObject_run [OF up2 o2] by metis
  obtain w4 where 4: "unindex A u p w3 = (Ret (), w4)" "up w4" "moved w3 w4" "w_os w4 = w_os w3"
    "strs (w_redis w4) = (strs (w_redis w3))(pathKey u (c_str p) := None)"
    "sets (w_redis w4) = sets (w_redis w3)" "fi (w_mysql w4) = (fi (w_mysql w3))((u, ck p) := None)"
    using unindex_views [OF 3(2)] by metis
  have "releaseContentRef A u p w = (Ret (), w4)"
    using 1(1) 2 3(1) 4(1) assms(3) by (simp add: releaseContentRef_def bindE_run)
  moreover have "moved w w4"
    using 1(3) 3(3) 4(3) by (simp add: w2_def moved_def)
  ultimately show thesis
    using 1 3 4 that [of w4] by (simp add: w2_def)
qed

end

end
