(* ===== verification/Store_Invariant.thy ===== *)
theory Store_Invariant
  imports Transfer_Facts
begin

text \<open>
  The consistency of the object store across its three services: the reference sets and the path
  entries in Redis and the rows of \<open>file_index\<close>. \<open>refs_inv\<close> states it on the views of the
  services; the locale \<open>content_env\<close> gives the triples of the operations of \<open>Transfer_Service\<close>
  over those views, and from them that the operations preserve the invariant on every path that
  returns or throws.
\<close>

section \<open>The invariant\<close>

text \<open>
  \<open>S\<close> is the set of logical paths in use; two of them never share a collation key. The reference
  set of a digest holds exactly the paths whose entry names it; a path entry names a digest of 32
  characters and has a row of a file with that digest; a row is stored under the key of
  its path; a row of a file with a digest has its path entry.
\<close>

definition refs_inv :: "(string \<Rightarrow> string) \<Rightarrow> string set \<Rightarrow> (string \<Rightarrow> string option) \<Rightarrow>
    (string \<Rightarrow> string set) \<Rightarrow> (int \<times> string \<Rightarrow> indexed_file option) \<Rightarrow> bool" where
  "refs_inv ck S a b c \<longleftrightarrow>
     (\<forall>m. b (refsKey m) = {refMember u p | u p. a (pathKey u p) = Some m}) \<and>
     (\<forall>u p m. a (pathKey u p) = Some m \<longrightarrow> p \<in> S \<and> length m = 32 \<and> NUL \<notin> set m \<and>
        (\<exists>i. c (u, ck p) = Some i \<and> \<not> if_isDir i \<and> if_md5 i = m)) \<and>
     (\<forall>u k i. c (u, k) = Some i \<longrightarrow> if_virtualPath i \<in> S \<and> k = ck (if_virtualPath i)) \<and>
     (\<forall>u p i. p \<in> S \<longrightarrow> c (u, ck p) = Some i \<longrightarrow> \<not> if_isDir i \<longrightarrow> if_md5 i \<noteq> [] \<longrightarrow>
        a (pathKey u p) = Some (if_md5 i))"

text \<open>The digest of a path in the views.\<close>

definition view_md5 :: "(string \<Rightarrow> string) \<Rightarrow> (string \<Rightarrow> string option) \<Rightarrow>
    (int \<times> string \<Rightarrow> indexed_file option) \<Rightarrow> int \<Rightarrow> string \<Rightarrow> string" where
  "view_md5 ck a c u p =
     (let cached = (case a (pathKey u (c_str p)) of None \<Rightarrow> [] | Some v \<Rightarrow> v) in
      if cached \<noteq> [] then cached
      else (case c (u, ck p) of Some i \<Rightarrow> if \<not> if_isDir i then if_md5 i else [] | None \<Rightarrow> []))"

lemma path_md5_view:
  "path_md5 strs fi ck w = view_md5 ck (strs (w_redis w)) (fi (w_mysql w))"
  by (simp add: path_md5_def view_md5_def fun_eq_iff)

lemma refs_inv_cong:
  "refs_inv ck S a b c \<Longrightarrow> (\<And>u p. a' (pathKey u p) = a (pathKey u p)) \<Longrightarrow>
   (\<And>m. b' (refsKey m) = b (refsKey m)) \<Longrightarrow> refs_inv ck S a' b' c"
  by (simp add: refs_inv_def)

lemma refs_invD:
  assumes "refs_inv ck S a b c"
  shows "b (refsKey m) = {refMember u p | u p. a (pathKey u p) = Some m}"
    and "a (pathKey u p) = Some m \<Longrightarrow> p \<in> S \<and> length m = 32 \<and> NUL \<notin> set m"
    and "a (pathKey u p) = Some m \<Longrightarrow> \<exists>i. c (u, ck p) = Some i \<and> \<not> if_isDir i \<and> if_md5 i = m"
    and "c (u, k) = Some i \<Longrightarrow> if_virtualPath i \<in> S \<and> k = ck (if_virtualPath i)"
    and "p \<in> S \<Longrightarrow> c (u, ck p) = Some i \<Longrightarrow> \<not> if_isDir i \<Longrightarrow> if_md5 i \<noteq> [] \<Longrightarrow> a (pathKey u p) = Some (if_md5 i)"
proof -
  show "b (refsKey m) = {refMember u p | u p. a (pathKey u p) = Some m}"
    using assms unfolding refs_inv_def by (elim conjE) (rule spec)
  show "a (pathKey u p) = Some m \<Longrightarrow> p \<in> S \<and> length m = 32 \<and> NUL \<notin> set m"
    using assms unfolding refs_inv_def by (elim conjE) metis
  show "a (pathKey u p) = Some m \<Longrightarrow> \<exists>i. c (u, ck p) = Some i \<and> \<not> if_isDir i \<and> if_md5 i = m"
    using assms unfolding refs_inv_def by (elim conjE) metis
  show "c (u, k) = Some i \<Longrightarrow> if_virtualPath i \<in> S \<and> k = ck (if_virtualPath i)"
    using assms unfolding refs_inv_def by (elim conjE) metis
  show "p \<in> S \<Longrightarrow> c (u, ck p) = Some i \<Longrightarrow> \<not> if_isDir i \<Longrightarrow> if_md5 i \<noteq> [] \<Longrightarrow> a (pathKey u p) = Some (if_md5 i)"
    using assms unfolding refs_inv_def by (elim conjE) metis
qed

text \<open>On a consistent store the digest of a path is its entry.\<close>

lemma view_md5_inv:
  assumes "refs_inv ck S a b c" and "p \<in> S" and "NUL \<notin> set p"
  shows "view_md5 ck a c u p = (case a (pathKey u p) of None \<Rightarrow> [] | Some m \<Rightarrow> m)"
proof (cases "a (pathKey u p)")
  case (Some m)
  then have "m \<noteq> []" using refs_invD(2) [OF assms(1)] by fastforce
  with Some assms(3) show ?thesis by (simp add: view_md5_def c_str_id)
next
  case None
  have "if_md5 i = []" if "c (u, ck p) = Some i" "\<not> if_isDir i" for i
    using refs_invD(5) [OF assms(1,2) that] None by fastforce
  with None assms(3) show ?thesis by (simp add: view_md5_def c_str_id split: option.splits)
qed

text \<open>The three changes of the views that the operations make up.\<close>

lemma refs_inv_forget:
  assumes inv: "refs_inv ck S a b c" and "p \<in> S" and inj: "inj_on ck S"
    and b': "\<And>m. b' (refsKey m) = b (refsKey m) - {refMember u p}"
  shows "refs_inv ck S (a(pathKey u p := None)) b' (c((u, ck p) := None))"
proof -
  let ?a = "a(pathKey u p := None)" and ?c = "c((u, ck p) := None)"
  have same: "?a (pathKey v q) = (if v = u \<and> q = p then None else a (pathKey v q))" for v q
    by simp
  have key: "ck q = ck p \<longleftrightarrow> q = p" if "q \<in> S" for q
    using inj that assms(2) by (auto dest: inj_onD)
  have 1: "b' (refsKey m) = {refMember v q | v q. ?a (pathKey v q) = Some m}" for m
    unfolding b' refs_invD(1) [OF inv] by auto
  have 2: "\<exists>i. ?c (v, ck q) = Some i \<and> \<not> if_isDir i \<and> if_md5 i = m" if "?a (pathKey v q) = Some m" for v q m
  proof -
    have *: "a (pathKey v q) = Some m" "\<not> (v = u \<and> q = p)" using that by (auto split: if_splits)
    then have "q \<in> S" using refs_invD(2) [OF inv] by blast
    with * key show ?thesis using refs_invD(3) [OF inv *(1)] by auto
  qed
  have 3: "?a (pathKey v q) = Some (if_md5 i)"
    if "q \<in> S" "?c (v, ck q) = Some i" "\<not> if_isDir i" "if_md5 i \<noteq> []" for v q i
    using that refs_invD(5) [OF inv that(1), of v i] by (auto split: if_splits)
  show ?thesis
    unfolding refs_inv_def
  proof (intro conjI allI impI)
    fix v q m
    assume h: "?a (pathKey v q) = Some m"
    then have "a (pathKey v q) = Some m" by (auto split: if_splits)
    then show "q \<in> S" "length m = 32" "NUL \<notin> set m" using refs_invD(2) [OF inv] by blast+
    show "\<exists>i. ?c (v, ck q) = Some i \<and> \<not> if_isDir i \<and> if_md5 i = m" by (rule 2 [OF h])
  next
    fix v k i
    assume "?c (v, k) = Some i"
    then have "c (v, k) = Some i" by (auto split: if_splits)
    then show "if_virtualPath i \<in> S" "k = ck (if_virtualPath i)" using refs_invD(4) [OF inv] by blast+
  qed (rule 1 3; assumption)+
qed

lemma refs_inv_add:
  assumes inv: "refs_inv ck S a b c" and "p \<in> S" and inj: "inj_on ck S"
    and none: "a (pathKey u p) = None" and m: "length m = 32" "NUL \<notin> set m"
  shows "refs_inv ck S (a(pathKey u p \<mapsto> m)) (b(refsKey m := insert (refMember u p) (b (refsKey m))))
    (c((u, ck p) \<mapsto> upsert (c (u, ck p)) p m n False s))"
    (is "refs_inv ck S ?a ?b ?c")
proof -
  have key: "ck q = ck p \<longleftrightarrow> q = p" if "q \<in> S" for q
    using inj that assms(2) by (auto dest: inj_onD)
  have row: "if_virtualPath (upsert (c (u, ck p)) p m n False s) \<in> S \<and>
      ck p = ck (if_virtualPath (upsert (c (u, ck p)) p m n False s))"
    using assms(2) refs_invD(4) [OF inv, of u "ck p"] by (auto simp: upsert_def split: option.splits)
  have up: "\<not> if_isDir (upsert (c (u, ck p)) p m n False s)" "if_md5 (upsert (c (u, ck p)) p m n False s) = m"
    by (simp_all add: upsert_def)
  have 1: "?b (refsKey k) = {refMember v q | v q. ?a (pathKey v q) = Some k}" for k
  proof (cases "k = m")
    case True
    have "?b (refsKey m) = insert (refMember u p) {refMember v q | v q. a (pathKey v q) = Some m}"
      using refs_invD(1) [OF inv, of m] by simp
    also have "\<dots> = {refMember v q | v q. ?a (pathKey v q) = Some m}" using none by auto
    finally show ?thesis using True by simp
  next
    case False
    then have "?a (pathKey v q) = Some k \<longleftrightarrow> a (pathKey v q) = Some k" for v q using none by auto
    then show ?thesis using refs_invD(1) [OF inv, of k] False by (simp only: fun_upd_apply keys_eq if_False)
  qed
  have 2: "\<exists>i. ?c (v, ck q) = Some i \<and> \<not> if_isDir i \<and> if_md5 i = k" if "?a (pathKey v q) = Some k" for v q k
  proof (cases "v = u \<and> q = p")
    case True
    then show ?thesis using that up by simp
  next
    case False
    then have *: "a (pathKey v q) = Some k" using that by auto
    then have "q \<in> S" using refs_invD(2) [OF inv] by blast
    then show ?thesis using refs_invD(3) [OF inv *] key False by auto
  qed
  have 3: "?a (pathKey v q) = Some (if_md5 i)"
    if "q \<in> S" "?c (v, ck q) = Some i" "\<not> if_isDir i" "if_md5 i \<noteq> []" for v q i
    using that refs_invD(5) [OF inv that(1), of v i] key up by (auto split: if_splits)
  show ?thesis
    unfolding refs_inv_def
  proof (intro conjI allI impI)
    fix v q k
    assume h: "?a (pathKey v q) = Some k"
    show "q \<in> S" "length k = 32" "NUL \<notin> set k"
      using h refs_invD(2) [OF inv, of v q k] m assms(2) by (auto split: if_splits)
    show "\<exists>i. ?c (v, ck q) = Some i \<and> \<not> if_isDir i \<and> if_md5 i = k" by (rule 2 [OF h])
  next
    fix v k i
    assume "?c (v, k) = Some i"
    then show "if_virtualPath i \<in> S" "k = ck (if_virtualPath i)"
      using row refs_invD(4) [OF inv, of v k i] by (auto split: if_splits)
  qed (rule 1 3; assumption)+
qed

text \<open>A row without content: of a directory, or of an empty digest.\<close>

lemma refs_inv_row:
  assumes inv: "refs_inv ck S a b c" and "p \<in> S" and inj: "inj_on ck S"
    and none: "a (pathKey u p) = None" and "d \<or> m = []"
  shows "refs_inv ck S a b (c((u, ck p) \<mapsto> upsert (c (u, ck p)) p m n d s))"
    (is "refs_inv ck S a b ?c")
proof -
  have key: "ck q = ck p \<longleftrightarrow> q = p" if "q \<in> S" for q
    using inj that assms(2) by (auto dest: inj_onD)
  have row: "if_virtualPath (upsert (c (u, ck p)) p m n d s) \<in> S \<and>
      ck p = ck (if_virtualPath (upsert (c (u, ck p)) p m n d s))"
    using assms(2) refs_invD(4) [OF inv, of u "ck p"] by (auto simp: upsert_def split: option.splits)
  have up: "if_isDir (upsert (c (u, ck p)) p m n d s) = d" "if_md5 (upsert (c (u, ck p)) p m n d s) = m"
    by (simp_all add: upsert_def)
  have 2: "\<exists>i. ?c (v, ck q) = Some i \<and> \<not> if_isDir i \<and> if_md5 i = k" if h: "a (pathKey v q) = Some k" for v q k
  proof -
    have "q \<in> S" using refs_invD(2) [OF inv h] by blast
    moreover have "\<not> (v = u \<and> q = p)" using h none by auto
    ultimately show ?thesis using refs_invD(3) [OF inv h] key by auto
  qed
  have 3: "a (pathKey v q) = Some (if_md5 i)"
    if "q \<in> S" "?c (v, ck q) = Some i" "\<not> if_isDir i" "if_md5 i \<noteq> []" for v q i
    using that refs_invD(5) [OF inv that(1), of v i] key up assms(5) by (auto split: if_splits)
  show ?thesis
    unfolding refs_inv_def
  proof (intro conjI allI impI)
    fix v q k
    assume h: "a (pathKey v q) = Some k"
    show "q \<in> S" "length k = 32" "NUL \<notin> set k" using refs_invD(2) [OF inv h] by blast+
    show "\<exists>i. ?c (v, ck q) = Some i \<and> \<not> if_isDir i \<and> if_md5 i = k" by (rule 2 [OF h])
  next
    fix v k i
    assume "?c (v, k) = Some i"
    then show "if_virtualPath i \<in> S" "k = ck (if_virtualPath i)"
      using row refs_invD(4) [OF inv, of v k i] by (auto split: if_splits)
  next
    show "\<And>k. b (refsKey k) = {refMember v q | v q. a (pathKey v q) = Some k}" by (rule refs_invD(1) [OF inv])
  qed (rule 3; assumption)
qed

section \<open>Triples of the operations\<close>

text \<open>The paths in use: free of NUL bytes, of pairwise different collation keys, and short enough
  for their columns.\<close>

locale content_env = store_env A strs sets fi ck fits ceq
  for A :: "('r, 'm, 'f) env" and strs :: "'r \<Rightarrow> string \<Rightarrow> string option"
    and sets :: "'r \<Rightarrow> string \<Rightarrow> string set"
    and fi :: "'m \<Rightarrow> int \<times> string \<Rightarrow> indexed_file option"
    and ck :: "string \<Rightarrow> string" and fits :: "string \<Rightarrow> string \<Rightarrow> bool"
    and ceq :: "char \<Rightarrow> char \<Rightarrow> bool" +
  fixes S :: "string set"
  assumes keys_inj: "inj_on ck S"
    and no_nul: "p \<in> S \<Longrightarrow> NUL \<notin> set p"
    and room: "p \<in> S \<Longrightarrow> length m \<le> 32 \<Longrightarrow> fits p m"
begin

abbreviation "live w \<equiv> ctx_set w \<and> rok (w_redis w) \<and> \<not> pool_stopping w"

text \<open>An assertion on the views of the services.\<close>

abbreviation "st J w \<equiv> live w \<and> J (strs (w_redis w)) (sets (w_redis w)) (fi (w_mysql w))"

lemma with_conn_blocked:
  "\<not> pool_stopping w \<Longrightarrow> idle_conns w = [] \<Longrightarrow> with_conn A body w = (Blocked, w)"
  by (simp add: with_conn_def bindE_def acquire_def)

lemma t_os [triple_intros]: "triple (st J) (on_os g) (\<lambda>_. st J) E"
  by (simp add: triple_def on_os_run)

lemma t_gets [triple_intros]: "triple P (gets f) (\<lambda>_. P) E"
  by (simp add: triple_def)

lemma t_fileExists [triple_intros]: "triple (st J) (fileExists A p) (\<lambda>_. st J) E"
  by (simp add: fileExists_def t_gets)

lemma t_fileSize [triple_intros]: "triple (st J) (fileSize A p) (\<lambda>_. st J) E"
  by (simp add: fileSize_def t_gets)

lemma t_unlink [triple_intros]: "triple (st J) (unlink A p) (\<lambda>_. st J) E"
  unfolding unlink_def by (rule t_os)

lemma t_close [triple_intros]: "triple (st J) (close_fd A fd) (\<lambda>_. st J) E"
  unfolding close_fd_def by (rule t_os)

lemma t_ensureDir [triple_intros]: "triple (st J) (ensureDir A p) (\<lambda>_. st J) E"
proof (rule triple_runI)
  fix w :: "('r, 'm, 'f, 'a) world_scheme"
  assume "st J w"
  then show "(\<exists>t. ensureDir A p w = (Blocked, t)) \<or> (\<exists>x t. ensureDir A p w = (Ret x, t) \<and> st J t)"
    using ensureDir_frame [of A p w] by auto
qed

lemma t_lookup [triple_intros]:
  "triple (st J) (lookupFile A u p) (\<lambda>r. st (\<lambda>a b c. J a b c \<and> r = c (u, ck p))) E"
proof (rule triple_runI)
  fix w :: "('r, 'm, 'f, 'a) world_scheme"
  assume "st J w"
  then show "(\<exists>t. lookupFile A u p w = (Blocked, t)) \<or> (\<exists>r t. lookupFile A u p w = (Ret r, t) \<and>
      st (\<lambda>a b c. J a b c \<and> r = c (u, ck p)) t)"
    by (cases "idle_conns w = []") (auto simp: lookupFile_run, simp add: with_conn_blocked lookupFile_def)
qed

lemma t_getPath [triple_intros]:
  "triple (st J) (getPathMd5 A u p)
     (\<lambda>r. st (\<lambda>a b c. J a b c \<and> r = (case a (pathKey u (c_str p)) of None \<Rightarrow> [] | Some v \<Rightarrow> v))) E"
  by (simp add: triple_def store_runs)

lemma t_contentMd5 [triple_intros]:
  "triple (st J) (contentMd5 A u p) (\<lambda>r. st (\<lambda>a b c. J a b c \<and> r = view_md5 ck a c u p)) E"
  unfolding contentMd5_def
  by (rule triple_intros | rule triple_post [OF t_lookup] | force simp: view_md5_def split: option.splits)+

lemma t_removeRef [triple_intros]:
  "triple (st J) (removeRef A m u p) (\<lambda>n. st (\<lambda>a b c. \<exists>b0. J a b0 c \<and>
     b = b0(refsKey (c_str m) := b0 (refsKey (c_str m)) - {refMember u (c_str p)}) \<and>
     (n \<le> 0) = (b (refsKey (c_str m)) = {}))) E"
  by (auto simp: triple_def store_runs card_eq_0_iff finite_sets)

lemma t_addRef [triple_intros]:
  "triple (st J) (addRef A m u p) (\<lambda>_. st (\<lambda>a b c. \<exists>b0. J a b0 c \<and>
     b = b0(refsKey (c_str m) := insert (refMember u (c_str p)) (b0 (refsKey (c_str m)))))) E"
  by (auto simp: triple_def store_runs)

lemma t_setPath [triple_intros]:
  "triple (st J) (setPathMd5 A u p m) (\<lambda>_. st (\<lambda>a b c. \<exists>a0. J a0 b c \<and> a = a0(pathKey u (c_str p) \<mapsto> m))) E"
  by (auto simp: triple_def store_runs)

lemma t_delPath [triple_intros]:
  "triple (st J) (delPathMd5 A u p) (\<lambda>_. st (\<lambda>a b c. \<exists>a0. J a0 b c \<and> a = a0(pathKey u (c_str p) := None))) E"
  by (auto simp: triple_def store_runs)

lemma t_setObject [triple_intros]:
  "triple (st J) (setObject A m ob n) (\<lambda>_. st (\<lambda>a b c. \<exists>a0. J a0 b c \<and>
     (\<forall>u p. a (pathKey u p) = a0 (pathKey u p)))) E"
  by (auto simp: triple_def store_runs)

lemma t_delMeta [triple_intros]:
  "triple (st J) (deleteObjectMeta A m) (\<lambda>_. st (\<lambda>a b c. \<exists>a0 b0. J a0 b0 c \<and>
     (\<forall>u p. a (pathKey u p) = a0 (pathKey u p)) \<and> b = b0(refsKey (c_str m) := {}))) E"
  by (auto simp: triple_def store_runs)

lemma t_index:
  assumes "p \<in> S" and "length m \<le> 32"
  shows "triple (st J) (indexFile A u p m n d s) (\<lambda>_. st (\<lambda>a b c. \<exists>c0. J a b c0 \<and>
     c = c0((u, ck p) \<mapsto> upsert (c0 (u, ck p)) p m n d s))) E"
proof (rule triple_runI)
  fix w :: "('r, 'm, 'f, 'a) world_scheme"
  assume "st J w"
  moreover have "fits p m" using room assms by blast
  ultimately show "(\<exists>t. indexFile A u p m n d s w = (Blocked, t)) \<or> (\<exists>r t. indexFile A u p m n d s w = (Ret r, t) \<and>
      st (\<lambda>a b c. \<exists>c0. J a b c0 \<and> c = c0((u, ck p) \<mapsto> upsert (c0 (u, ck p)) p m n d s)) t)"
    by (cases "idle_conns w = []") (auto simp: indexFile_run, simp add: with_conn_blocked indexFile_def)
qed

lemma t_unindex [triple_intros]:
  "triple (st J) (unindex A u p) (\<lambda>_. st (\<lambda>a b c. \<exists>a0 c0. J a0 b c0 \<and>
     a = a0(pathKey u (c_str p) := None) \<and> c = c0((u, ck p) := None))) E"
proof (rule triple_runI)
  fix w :: "('r, 'm, 'f, 'a) world_scheme"
  assume "st J w"
  then show "(\<exists>t. unindex A u p w = (Blocked, t)) \<or> (\<exists>r t. unindex A u p w = (Ret r, t) \<and>
      st (\<lambda>a b c. \<exists>a0 c0. J a0 b c0 \<and> a = a0(pathKey u (c_str p) := None) \<and> c = c0((u, ck p) := None)) t)"
    by (cases "idle_conns w = []") (auto simp: unindex_run, simp add: with_conn_blocked unindex_def)
qed

lemma t_resolveObject:
  "2 \<le> length m \<Longrightarrow> triple (st J) (resolveObjectPath A m) (\<lambda>_. st J) E"
  unfolding resolveObjectPath_def
  by (auto simp: triple_def bindE_run store_runs objectPathFor_def split: prod.splits outcome.splits if_splits)

lemma t_gc:
  assumes "2 \<le> length m"
  shows "triple (st J) (gcObject A m) (\<lambda>_. st (\<lambda>a b c. \<exists>a0 b0. J a0 b0 c \<and>
     (\<forall>u p. a (pathKey u p) = a0 (pathKey u p)) \<and> b = b0(refsKey (c_str m) := {}))) E"
  unfolding gcObject_def
  by (rule triple_bind [OF t_resolveObject [OF assms]], rule triple_bind [OF t_fileExists],
      rule triple_bind [where R = "\<lambda>_. st J"])
    (rule t_delMeta triple_if triple_bind [OF t_os] triple_bind [OF t_unlink] triple_return, assumption?)+

text \<open>The references without the path \<open>(u, p)\<close>: what is left when the digest of the path has
  been released, before its row goes.\<close>

definition free :: "(int \<times> string) set \<Rightarrow> (string \<Rightarrow> string option) \<Rightarrow> bool" where
  "free X a \<longleftrightarrow> (\<forall>(v, q) \<in> X. a (pathKey v q) = None)"

definition released :: "int \<Rightarrow> string \<Rightarrow> (int \<times> string) set \<Rightarrow> (string \<Rightarrow> string option) \<Rightarrow> (string \<Rightarrow> string set) \<Rightarrow>
    (int \<times> string \<Rightarrow> indexed_file option) \<Rightarrow> bool" where
  "released u p X a b c \<longleftrightarrow> (\<exists>a0 b0. refs_inv ck S a0 b0 c \<and> free X a0 \<and>
     (\<forall>v q. a (pathKey v q) = a0 (pathKey v q)) \<and>
     (\<forall>m. b (refsKey m) = b0 (refsKey m) - {refMember u p}))"

lemma refs_member:
  "refs_inv ck S a b c \<Longrightarrow> refMember u p \<in> b (refsKey m) \<longleftrightarrow> a (pathKey u p) = Some m"
  by (auto simp: refs_invD(1))

lemma released_none:
  assumes "refs_inv ck S a b c" and "free X a" and "a (pathKey u p) = None"
  shows "released u p X a b c"
  unfolding released_def using assms refs_member [OF assms(1), of u p] by fastforce

lemma released_ref:
  assumes "refs_inv ck S a b0 c" and "free X a" and "a (pathKey u p) = Some m"
    and "\<And>v q. a' (pathKey v q) = a (pathKey v q)"
    and "b = b0(refsKey m := b0 (refsKey m) - {refMember u p})"
  shows "released u p X a' b c"
proof -
  have "b (refsKey k) = b0 (refsKey k) - {refMember u p}" for k
    using assms(3,5) refs_member [OF assms(1), of u p k] by (cases "k = m") auto
  with assms(1,2,4) show ?thesis unfolding released_def by blast
qed

lemma released_drop:
  assumes "released u p X a b c" and "p \<in> S"
  shows "refs_inv ck S (a(pathKey u p := None)) b (c((u, ck p) := None)) \<and>
    free (insert (u, p) X) (a(pathKey u p := None))"
proof -
  obtain a0 b0 where h: "refs_inv ck S a0 b0 c" "free X a0" "\<And>v q. a (pathKey v q) = a0 (pathKey v q)"
    "\<And>m. b (refsKey m) = b0 (refsKey m) - {refMember u p}"
    using assms(1) unfolding released_def by metis
  have "refs_inv ck S a b0 c" using refs_inv_cong [OF h(1)] h(3) by simp
  from refs_inv_forget [OF this assms(2) keys_inj h(4)] h(2,3) show ?thesis
    by (auto simp: free_def)
qed

abbreviation "consist X \<equiv> (\<lambda>a b c. refs_inv ck S a b c \<and> free X a)"

lemma t_release_refs:
  assumes "m \<noteq> []" and "p \<in> S"
  shows "triple (st (\<lambda>a b c. consist X a b c \<and> m = view_md5 ck a c u p))
     (bindE (removeRef A m u p) (\<lambda>refs. if refs \<le> 0 then gcObject A m else return ()))
     (\<lambda>_. st (released u p X)) E"
proof (cases "length m = 32 \<and> NUL \<notin> set m")
  case False
  have "\<not> (consist X a b c \<and> m = view_md5 ck a c u p)" for a b c
    using False assms view_md5_inv [of ck S a b c p u] refs_invD(2) [of ck S a b c u p] no_nul
    by (auto split: option.splits)
  then show ?thesis by (intro triple_pre [OF triple_False]) blast
next
  case True
  then have m: "2 \<le> length m" "c_str m = m" and p: "c_str p = p"
    using no_nul assms(2) by (simp_all add: c_str_id)
  have some: "a (pathKey u p) = Some m" if "consist X a b c" "m = view_md5 ck a c u p" for a b c
    using that assms view_md5_inv [of ck S a b c p u] no_nul by (auto split: option.splits)
  show ?thesis
  proof (rule triple_bind [OF t_removeRef], rule triple_if)
    fix n :: int
    let ?J = "\<lambda>a b c. \<exists>b0. (consist X a b0 c \<and> m = view_md5 ck a c u p) \<and>
      b = b0(refsKey (c_str m) := b0 (refsKey (c_str m)) - {refMember u (c_str p)}) \<and>
      (n \<le> 0) = (b (refsKey (c_str m)) = {})"
    show "triple (st ?J) (return ()) (\<lambda>_. st (released u p X)) E" if "\<not> n \<le> 0"
    proof (rule triple_return)
      fix w :: "('r, 'm, 'f, 'a) world_scheme"
      assume "st ?J w"
      then show "st (released u p X) w" unfolding m p using some released_ref by blast
    qed
    show "triple (st ?J) (gcObject A m) (\<lambda>_. st (released u p X)) E" if n: "n \<le> 0"
    proof (rule triple_post [OF t_gc [OF m(1)]], elim conjE exE, intro conjI)
      fix w :: "('r, 'm, 'f, 'a) world_scheme" and a0 b1 b0
      assume h: "\<forall>v q. strs (w_redis w) (pathKey v q) = a0 (pathKey v q)"
        "sets (w_redis w) = b1(refsKey (c_str m) := {})"
        "refs_inv ck S a0 b0 (fi (w_mysql w))" "free X a0" "m = view_md5 ck a0 (fi (w_mysql w)) u p"
        "b1 = b0(refsKey (c_str m) := b0 (refsKey (c_str m)) - {refMember u (c_str p)})"
        "(n \<le> 0) = (b1 (refsKey (c_str m)) = {})"
      then have "sets (w_redis w) = b0(refsKey m := b0 (refsKey m) - {refMember u p})"
        using n unfolding m p by (simp add: fun_upd_def fun_eq_iff)
      then show "released u p X (strs (w_redis w)) (sets (w_redis w)) (fi (w_mysql w))"
        using h some released_ref by metis
    qed
  qed
qed

lemma t_release:
  assumes "p \<in> S"
  shows "triple (st (consist X)) (releaseContentRef A u p) (\<lambda>_. st (consist (insert (u, p) X))) E"
  unfolding releaseContentRef_def
proof (rule triple_bind [OF t_contentMd5], rule triple_bind [where R = "\<lambda>_. st (released u p X)"], rule triple_if)
  fix m
  show "triple (st (\<lambda>a b c. consist X a b c \<and> m = view_md5 ck a c u p))
     (bindE (removeRef A m u p) (\<lambda>refs. if refs \<le> 0 then gcObject A m else return ()))
     (\<lambda>_. st (released u p X)) E" if "m \<noteq> []"
    by (rule t_release_refs [OF that assms])
  show "triple (st (\<lambda>a b c. consist X a b c \<and> m = view_md5 ck a c u p)) (return ())
     (\<lambda>_. st (released u p X)) E" if "\<not> m \<noteq> []"
  proof (rule triple_return)
    fix w :: "('r, 'm, 'f, 'a) world_scheme"
    assume h: "st (\<lambda>a b c. consist X a b c \<and> m = view_md5 ck a c u p) w"
    then have "strs (w_redis w) (pathKey u p) = None"
      using that view_md5_inv [OF _ assms no_nul [OF assms]] refs_invD(2) by (fastforce split: option.splits)
    then show "st (released u p X) w" using h released_none by blast
  qed
next
  fix x :: unit
  have p: "c_str p = p" using no_nul [OF assms] by (simp add: c_str_id)
  show "triple (st (released u p X)) (unindex A u p) (\<lambda>_. st (consist (insert (u, p) X))) E"
    by (rule triple_post [OF t_unindex]) (use released_drop [OF _ assms] p in auto)
qed

lemma t_add:
  assumes "p \<in> S" and "length m = 32" and "NUL \<notin> set m"
  shows "triple (st (consist {(u, p)})) (addContentRef A u p m n) (\<lambda>_. st (consist {})) E"
  unfolding addContentRef_def
proof (rule triple_bind [OF t_addRef], rule triple_bind [OF t_index [OF assms(1)]])
  show "length m \<le> 32" using assms(2) by simp
next
  fix x y :: unit
  have p: "c_str p = p" "c_str m = m" using no_nul [OF assms(1)] assms(3) by (simp_all add: c_str_id)
  note add = refs_inv_add [OF _ assms(1) keys_inj _ assms(2,3)]
  show "triple (st (\<lambda>a b c. \<exists>c0. (\<exists>b0. consist {(u, p)} a b0 c0 \<and>
      b = b0(refsKey (c_str m) := insert (refMember u (c_str p)) (b0 (refsKey (c_str m))))) \<and>
      c = c0((u, ck p) \<mapsto> upsert (c0 (u, ck p)) p m n False ''ready'')))
    (setPathMd5 A u p m) (\<lambda>_. st (consist {})) E"
    unfolding p by (rule triple_post [OF t_setPath]) (use add p in \<open>auto simp: free_def simp del: fun_upd_apply\<close>)
qed

section \<open>The operations of the service\<close>

lemma t_frame:
  fixes m :: "(('r, 'm, 'f, 'z) world_scheme, 'x) cpp"
  assumes "os_frame m" and "\<And>w. st J w \<Longrightarrow> E w"
  shows "triple (st J) m (\<lambda>_. st J) E"
  unfolding triple_def
proof (intro allI impI)
  fix w :: "('r, 'm, 'f, 'z) world_scheme"
  assume h: "st J w"
  obtain r f where "m w = (r, w\<lparr>w_os := f\<rparr>)" using assms(1) unfolding os_frame_def by blast
  moreover have "st J (w\<lparr>w_os := f\<rparr>)" using h by simp
  ultimately show "case m w of (Ret x, t) \<Rightarrow> st J t | (Raise e, t) \<Rightarrow> E t | (Blocked, t) \<Rightarrow> True | (Undef, t) \<Rightarrow> True"
    using assms(2) by (cases r) simp_all
qed

lemma t_setObject_inv:
  "triple (st (consist X)) (setObject A m ob n) (\<lambda>_. st (consist X)) E"
  by (rule triple_post [OF t_setObject]) (auto simp: free_def intro: refs_inv_cong)

lemma t_publish:
  "triple (st (consist X)) (publishObject A m src n) (\<lambda>_. st (consist X)) (st (consist X))"
  unfolding publishObject_def
proof (rule triple_bind, rule t_frame)
  show "os_frame (liftS (objectPathFor A m))" by (rule os_frame_intros)
next
  fix obj
  show "triple (st (consist X)) (bindE (fileExists A obj) (\<lambda>there.
      bindE (if there then bindE (fileSize A obj) (\<lambda>k. return (k = n)) else return False) (\<lambda>same.
      if same then setObject A m obj n
      else
        bindE (ensureDir A (parentDir obj)) (\<lambda>_.
        bindE (copyToObjectStore A src obj n) (\<lambda>_.
        bindE (on_os (os_chmod (os A) (c_str obj) 0x124)) (\<lambda>_.
        setObject A m obj n)))))) (\<lambda>_. st (consist X)) (st (consist X))"
    by (rule t_setObject_inv triple_if | (rule triple_bind, rule t_frame, (intro os_frame_intros)[1], assumption))+
qed

lemma md5File_no_NUL: "md5File A p w = (Ret r, w') \<Longrightarrow> NUL \<notin> set r"
proof -
  have "NUL \<notin> set (toHex bs)" for bs
    using toHex_is_hex [of NUL bs] by (auto simp: is_hex_def NUL_def kHex_def)
  then show "md5File A p w = (Ret r, w') \<Longrightarrow> NUL \<notin> set r"
    by (auto simp: md5File_def split: option.splits evp_result.splits)
qed

lemma t_md5File:
  "triple (st J) (md5File A p) (\<lambda>r w. st J w \<and> NUL \<notin> set r) (st J)"
  by (rule triple_result [OF t_frame [OF os_frame_md5(1)] md5File_no_NUL])

text \<open>A path whose row is not that of a file has no content.\<close>

abbreviation "is_file r \<equiv> (case r of Some i \<Rightarrow> \<not> if_isDir i | None \<Rightarrow> False)"

lemma free_of_row:
  "consist X a b c \<Longrightarrow> \<not> is_file (c (u, ck p)) \<Longrightarrow> consist (insert (u, p) X) a b c"
  using refs_invD(3) [of ck S a b c u p] by (cases "a (pathKey u p)") (auto simp: free_def)

lemma consist_mono: "X \<subseteq> Y \<Longrightarrow> consist Y a b c \<Longrightarrow> consist X a b c"
  by (auto simp: free_def)

abbreviation "looked r u p \<equiv> (\<lambda>a b c. consist {} a b c \<and> r = c (u, ck p))"

lemma t_frame_room:
  fixes m :: "(('r, 'm, 'f, 'z) world_scheme, 'x) cpp"
  shows "os_frame m \<Longrightarrow> triple (st (consist {(u, p)})) m (\<lambda>_. st (consist {(u, p)})) (st (consist {}))"
  by (rule t_frame) (auto simp: free_def)

lemma t_make_room:
  fixes m :: "(('r, 'm, 'f, 'z) world_scheme, unit) cpp"
  assumes "p \<in> S" and "os_frame m"
  shows "triple (st (looked r u p)) (if is_file r then releaseContentRef A u p else m)
     (\<lambda>_. st (consist {(u, p)})) (st (consist {}))"
proof (rule triple_if)
  show "triple (st (looked r u p)) (releaseContentRef A u p) (\<lambda>_. st (consist {(u, p)})) (st (consist {}))"
    by (rule triple_pre [OF t_release [OF assms(1)]]) blast
  assume "\<not> is_file r"
  then show "triple (st (looked r u p)) m (\<lambda>_. st (consist {(u, p)})) (st (consist {}))"
    using free_of_row [where X = "{}"] by (intro triple_pre [OF t_frame_room [OF assms(2)]]) blast
qed

abbreviation "fine \<equiv> st (consist {})"

lemma t_fine: "os_frame m \<Longrightarrow> triple fine m (\<lambda>_. fine) fine"
  for m :: "(('r, 'm, 'f, 'z) world_scheme, 'x) cpp"
  by (rule t_frame)

lemma t_finish_tail:
  assumes "p \<in> S" and "length m = 32" and "NUL \<notin> set m"
  shows "triple fine
    (bindE (lookupFile A u p) (\<lambda>info.
     bindE (if is_file info then releaseContentRef A u p
            else bindE (fileExists A dest) (\<lambda>ex. if ex then bindE (unlink A dest) (\<lambda>_. return ()) else return ())) (\<lambda>_.
     bindE (publishObject A m part n) (\<lambda>_.
     bindE (unlink A part) (\<lambda>_.
     addContentRef A u p m n))))) (\<lambda>_. fine) fine"
  by (rule triple_bind [OF t_lookup], rule triple_bind [OF t_make_room], rule assms, (intro os_frame_intros)[1],
      rule triple_bind [OF triple_conseq [OF t_publish [where X = "{(u, p)}"]]], assumption, assumption,
      use consist_mono [of "{}" "{(u, p)}"] in blast,
      rule triple_bind [OF t_frame_room], (intro os_frame_intros)[1], rule t_add [OF assms])

lemma t_finishUpload:
  "triple (\<lambda>w. fine w \<and> us_virtualPath (upload w) \<in> S \<and> length (us_md5 (upload w)) = 32)
     (finishUpload A session) (\<lambda>_. fine) fine"
  unfolding finishUpload_def
  by (rule triple_bind [where R = "\<lambda>x w. fine w \<and> us_virtualPath x \<in> S \<and> length (us_md5 x) = 32"],
      rule triple_gets, assumption, rule triple_pure, rule triple_if, rule triple_throw, assumption,
      rule triple_bind [OF t_os], rule triple_bind [OF t_close],
      rule triple_bind [OF triple_modify [where Q = "\<lambda>_. fine"]], simp,
      rule triple_bind [OF t_fileSize], rule triple_if, rule triple_throw, assumption,
      rule triple_bind [OF t_md5File], rule triple_pure, rule triple_if,
      rule triple_bind [OF t_unlink], rule triple_throw, assumption,
      rule t_finish_tail, simp_all)

text \<open>Instant upload.\<close>

lemma t_cmdGet: "triple (st J) (cmdGet A k) (\<lambda>_. st J) E"
  by (rule triple_runI) (auto simp: cmdGet_def bindE_run command_run read_strs read_sets)

lemma t_getChallenge: "triple (st J) (getChallenge A t m) (\<lambda>_. st J) (st J)"
  unfolding getChallenge_def
  by (rule triple_bind [OF t_cmdGet], rule triple_case_option, rule triple_return, assumption,
      rule triple_bind [OF triple_liftS [where Q = "\<lambda>_. st J"]], assumption, assumption,
      rule triple_bind [OF triple_liftS [where Q = "\<lambda>_. st J"]], assumption, assumption,
      rule triple_return, assumption)

lemma c_str_chal: "c_str (chalKey t m) = ''cs:chal:'' @ c_str (t @ '':'' @ m)"
  by (simp add: chalKey_def c_str_cons NUL_def)

lemma t_delChallenge: "triple (st (consist X)) (delChallenge A t m) (\<lambda>_. st (consist X)) E"
proof (rule triple_runI)
  fix w :: "('r, 'm, 'f, 'z) world_scheme"
  assume h: "st (consist X) w"
  define k where "k = c_str (chalKey t m)"
  have k: "pathKey v q \<noteq> k" "refsKey d \<noteq> k" for v q d
    by (simp_all add: k_def c_str_chal pathKey_def refsKey_def)
  let ?r = "rcmd (rds A) [''DEL'', k] (w_redis w)"
  have "delChallenge A t m w = (Ret (), w\<lparr>w_redis := ?r\<rparr>)"
    using h by (simp add: delChallenge_def cmd_runs k_def)
  moreover have "consist X (strs ?r) (sets ?r) (fi (w_mysql w))"
    using h k by (auto simp: DEL_effect free_def intro: refs_inv_cong)
  ultimately show "(\<exists>t'. delChallenge A t m w = (Blocked, t')) \<or>
      (\<exists>x t'. delChallenge A t m w = (Ret x, t') \<and> st (consist X) t')"
    using h by simp
qed

lemma t_instantUpload:
  assumes "p \<in> S" and "length m = 32" and "NUL \<notin> set m"
  shows "triple fine (instantUpload A session dest p m n off proof overwrite) (\<lambda>_. fine) fine"
proof -
  have len: "2 \<le> length m" using assms(2) by simp
  have frame: "triple fine (if b then bindE (md5FileRange A obj o' l) (\<lambda>real.
      if real \<noteq> proof then throw e else return ()) else return ()) (\<lambda>_. fine) fine" for b obj o' l e
    by (rule t_fine) (intro os_frame_intros)
  have dest: "triple (st (looked r (s_userId session) p))
      (if is_file r then (if \<not> overwrite then throw e else releaseContentRef A (s_userId session) p)
       else bindE (fileExists A dest) (\<lambda>ex. if ex then (if \<not> overwrite then throw e'
         else bindE (unlink A dest) (\<lambda>_. return ())) else return ()))
      (\<lambda>_. st (consist {(s_userId session, p)})) fine" for r e e'
  proof (cases "is_file r \<and> \<not> overwrite")
    case True
    then show ?thesis by (simp only: if_True simp_thms) (rule triple_throw, blast)
  next
    case False
    then have same: "(if is_file r then (if \<not> overwrite then throw e else releaseContentRef A (s_userId session) p) else m) =
        (if is_file r then releaseContentRef A (s_userId session) p else m)"
      for m :: "(('r, 'm, 'f, 'b) world_scheme, unit) cpp"
      by auto
    show ?thesis unfolding same by (rule t_make_room [OF assms(1)]) (intro os_frame_intros)
  qed
  show ?thesis
    unfolding instantUpload_def Let_def
    by (rule triple_bind [OF t_getChallenge], rule triple_case_option, rule triple_throw, assumption,
        rule triple_case_prod, rule triple_if, rule triple_throw, assumption,
        rule triple_bind [OF t_resolveObject [OF len]], rule triple_bind [OF t_fileExists],
        rule triple_if, rule triple_throw, assumption,
        rule triple_bind [OF t_fileSize], rule triple_if, rule triple_throw, assumption,
        rule triple_bind [OF frame], rule triple_bind [OF t_delChallenge], rule triple_bind [OF t_lookup],
        rule triple_bind [OF dest], rule triple_bind [OF t_frame_room], rule os_frame_intros, rule t_add [OF assms])
qed

text \<open>Removal.\<close>

lemma t_with_conn:
  fixes body :: "nat \<Rightarrow> (('r, 'm, 'f, 'z) world_scheme, 'x) cpp"
  assumes "\<And>c. triple (st J) (body c) (\<lambda>x. st (K x)) (st L)"
  shows "triple (st J) (with_conn A body) (\<lambda>x. st (K x)) (st L)"
  unfolding triple_def
proof (intro allI impI)
  fix w :: "('r, 'm, 'f, 'z) world_scheme"
  assume h: "st J w"
  show "case with_conn A body w of (Ret x, t) \<Rightarrow> st (K x) t | (Raise e, t) \<Rightarrow> st L t
      | (Blocked, t) \<Rightarrow> True | (Undef, t) \<Rightarrow> True"
  proof (cases "idle_conns w = []")
    case True
    then show ?thesis using h by (simp add: with_conn_blocked)
  next
    case False
    let ?h = "hd (idle_conns w)"
    define v where "v = w\<lparr>idle_conns := tl (idle_conns w), w_mysql := snd (my_ping (sql A) ?h (w_mysql w))\<rparr>"
    have "st J v" using h by (simp add: v_def ping_fi)
    note b = assms [of ?h, unfolded triple_def, rule_format, OF this]
    have "with_conn A body w = finallyE (body ?h) (release ?h) v"
      using h False by (simp add: with_conn_def bindE_run acquire_run v_def)
    then show ?thesis
      using b by (simp add: finallyE_def release_def split: prod.splits outcome.splits)
  qed
qed

lemma t_stmt_new:
  "text \<in> {sql_index, sql_unindex, sql_lookup, sql_under} \<Longrightarrow> triple (st J) (stmt_new A c text) (\<lambda>_. st J) E"
  by (rule triple_runI) (auto simp: stmt_new_run prepare_fi)

lemma t_under:
  "triple (st (consist X)) (stmt_execute A c sql_under [SqlInt u, SqlString pat])
     (\<lambda>res w. st (consist X) w \<and> set (map (\<lambda>row. col_string row 0) (sql_rows res)) \<subseteq> S) E"
proof (rule triple_runI)
  fix w :: "('r, 'm, 'f, 'z) world_scheme"
  assume h: "st (consist X) w"
  obtain k rows where r: "fst (my_execute (sql A) c sql_under [SqlInt u, SqlString pat] (w_mysql w)) =
      Inr \<lparr>sql_rows = map (\<lambda>p. [SqlString p]) rows, sql_insert_id = k\<rparr>"
    "set rows = {if_virtualPath i | d i. fi (w_mysql w) (u, d) = Some i \<and> \<not> if_isDir i \<and> like ceq pat (if_virtualPath i)}"
    using under_ok by blast
  have "set rows \<subseteq> S" using h refs_invD(4) unfolding r(2) by blast
  then have "set (map (\<lambda>row. col_string row 0) (map (\<lambda>p. [SqlString p]) rows)) \<subseteq> S"
    by (simp add: col_string_def comp_def)
  then show "(\<exists>t. stmt_execute A c sql_under [SqlInt u, SqlString pat] w = (Blocked, t)) \<or>
      (\<exists>res t. stmt_execute A c sql_under [SqlInt u, SqlString pat] w = (Ret res, t) \<and>
        st (consist X) t \<and> set (map (\<lambda>row. col_string row 0) (sql_rows res)) \<subseteq> S)"
    using h stmt_execute_run [where w = w, OF r(1)] by (simp add: under_fi image_image)
qed

lemma t_release_keep:
  assumes "p \<in> S"
  shows "triple (st (consist X)) (releaseContentRef A u p) (\<lambda>_. st (consist X)) E"
  by (rule triple_post [OF t_release [OF assms]]) (use consist_mono [of X "insert (u, p) X"] in blast)

lemma t_releaseUnder:
  "triple (st (consist X)) (releaseIndexedUnderPrefix A u dir) (\<lambda>_. st (consist X)) (st (consist X))"
  unfolding releaseIndexedUnderPrefix_def
proof (rule t_with_conn, rule triple_bind [OF t_stmt_new], simp, rule triple_bind [OF t_under])
  fix res
  show "triple (\<lambda>w. st (consist X) w \<and> set (map (\<lambda>row. col_string row 0) (sql_rows res)) \<subseteq> S)
      (forE (map (\<lambda>row. col_string row 0) (sql_rows res)) (\<lambda>vp. releaseContentRef A u vp))
      (\<lambda>_. st (consist X)) (st (consist X))"
    by (rule triple_pure, rule triple_forE) (use t_release_keep in blast)
qed

lemma t_unindex_free:
  assumes "p \<in> S"
  shows "triple (st (consist {(u, p)})) (unindex A u p) (\<lambda>_. fine) E"
proof -
  have p: "c_str p = p" using no_nul [OF assms] by (simp add: c_str_id)
  have drop: "consist {} (a(pathKey u p := None)) b (c((u, ck p) := None))" if "consist {(u, p)} a b c" for a b c
  proof -
    have "a (pathKey u p) = None" using that by (simp add: free_def)
    then show ?thesis
      using released_drop [OF released_none [where X = "{}"] assms] that by (auto simp: free_def)
  qed
  show ?thesis by (rule triple_post [OF t_unindex]) (use drop p in auto)
qed

lemma t_removeUserPath:
  assumes "p \<in> S"
  shows "triple fine (removeUserPath A session physical p) (\<lambda>_. fine) fine"
proof -
  let ?u = "s_userId session"
  have isf: "triple (st (looked r ?u p)) (bindE (releaseContentRef A ?u p) (\<lambda>_.
      bindE (fileExists A physical) (\<lambda>ex. if ex then bindE (unlink A physical) (\<lambda>_. return ()) else return ())))
      (\<lambda>_. fine) fine" for r
    by (rule triple_pre [where P' = fine], rule triple_bind [OF t_release_keep [OF assms]], rule t_fine,
        (intro os_frame_intros)[1], blast)
  have weak: "triple (st (consist {(?u, p)})) m (\<lambda>_. fine) fine" if "triple fine m (\<lambda>_. fine) fine"
    for m :: "(('r, 'm, 'f, 'z) world_scheme, unit) cpp"
    by (rule triple_pre [OF that]) (use consist_mono [of "{}" "{(?u, p)}"] in blast)
  have other: "triple (st (consist {(?u, p)})) (bindE (gets (\<lambda>w. os_lstat (os A) (c_str physical) (w_os w))) (\<lambda>st.
      if (case st of Some b \<Rightarrow> S_ISDIR (st_mode b) \<and> \<not> S_ISLNK (st_mode b) | None \<Rightarrow> False) then
         bindE (releaseIndexedUnderPrefix A ?u p) (\<lambda>_. bindE (removePath A physical) (\<lambda>_. unindex A ?u p))
       else
         bindE (if st \<noteq> None then bindE (unlink A physical) (\<lambda>e.
                  case e of None \<Rightarrow> return ()
                  | Some err \<Rightarrow> if err \<noteq> ENOENT
                      then throw (CloudError Internal (''unlink failed: '' @ os_strerror (os A) err))
                      else return ())
                else return ()) (\<lambda>_. releaseContentRef A ?u p))) (\<lambda>_. fine) fine"
    by (rule triple_bind [OF t_gets], rule triple_if,
        rule triple_bind [OF triple_conseq [OF t_releaseUnder]], assumption, assumption,
        use consist_mono [of "{}" "{(?u, p)}"] in blast,
        rule triple_bind [OF t_frame_room], rule os_frame_intros, rule t_unindex_free [OF assms],
        rule weak, rule triple_bind [OF t_fine], (intro os_frame_intros)[1], rule t_release_keep [OF assms])
  show ?thesis
    unfolding removeUserPath_def
    by (rule triple_bind [OF t_lookup], rule triple_if, rule isf, rule triple_pre [OF other])
      (use free_of_row [where X = "{}"] in blast)
qed

text \<open>Renaming a file onto a path without content.\<close>

lemma refs_inv_move:
  assumes inv: "refs_inv ck S a b c" and fp: "p \<in> S" and tq: "q \<in> S" and "p \<noteq> q"
    and m: "a (pathKey u p) = Some m" and none: "a (pathKey u q) = None"
  shows "refs_inv ck S (a(pathKey u p := None, pathKey u q \<mapsto> m))
    (b(refsKey m := insert (refMember u q) (b (refsKey m) - {refMember u p})))
    ((c((u, ck q) \<mapsto> upsert (c (u, ck q)) q m n False s))((u, ck p) := None))"
proof -
  have ne: "(u, ck p) \<noteq> (u, ck q)" using keys_inj fp tq assms(4) by (auto dest: inj_onD)
  let ?b = "b(refsKey m := b (refsKey m) - {refMember u p})"
  have "?b (refsKey k) = b (refsKey k) - {refMember u p}" for k
    using m refs_member [OF inv, of u p k] by (cases "k = m") auto
  from refs_inv_forget [OF inv fp keys_inj this]
  have 1: "refs_inv ck S (a(pathKey u p := None)) ?b (c((u, ck p) := None))" .
  have 2: "(a(pathKey u p := None)) (pathKey u q) = None" using none by simp
  have 3: "length m = 32" "NUL \<notin> set m" using refs_invD(2) [OF inv m] by blast+
  have 4: "(c((u, ck p) := None)) (u, ck q) = c (u, ck q)" using ne by simp
  from refs_inv_add [OF 1 tq keys_inj 2 3, of n s] show ?thesis
    unfolding 4 fun_upd_twist [OF ne] by (simp only: fun_upd_same fun_upd_upd)
qed

lemma t_delete_row:
  "triple (st J) (stmt_execute A h sql_unindex [SqlInt u, SqlString p])
     (\<lambda>_. st (\<lambda>a b c. \<exists>c0. J a b c0 \<and> c = c0((u, ck p) := None))) E"
proof (rule triple_runI)
  fix w :: "('r, 'm, 'f, 'z) world_scheme"
  assume "st J w"
  moreover obtain r where "fst (my_execute (sql A) h sql_unindex [SqlInt u, SqlString p] (w_mysql w)) = Inr r"
    using unindex_ok by blast
  ultimately show "(\<exists>t. stmt_execute A h sql_unindex [SqlInt u, SqlString p] w = (Blocked, t)) \<or>
      (\<exists>x t. stmt_execute A h sql_unindex [SqlInt u, SqlString p] w = (Ret x, t) \<and>
        st (\<lambda>a b c. \<exists>c0. J a b c0 \<and> c = c0((u, ck p) := None)) t)"
    by (auto simp: stmt_execute_run unindex_fi)
qed

lemma t_renameIndexed:
  assumes "p \<in> S" and "q \<in> S" and "p \<noteq> q" and "length m = 32" and "NUL \<notin> set m"
  shows "triple (st (\<lambda>a b c. consist {(u, q)} a b c \<and> a (pathKey u p) = Some m))
     (renameIndexedFile A u p q m n) (\<lambda>_. fine) fine"
proof -
  have id: "c_str p = p" "c_str q = q" "c_str m = m" and len: "length m \<le> 32"
    using no_nul assms by (simp_all add: c_str_id)
  let ?J = "\<lambda>a b c. \<exists>a0 b0 c0. (consist {(u, q)} a0 b0 c0 \<and> a0 (pathKey u p) = Some m) \<and>
    a = a0(pathKey u p := None, pathKey u q \<mapsto> m) \<and>
    b = b0(refsKey m := insert (refMember u q) (b0 (refsKey m) - {refMember u p})) \<and>
    c = c0((u, ck q) \<mapsto> upsert (c0 (u, ck q)) q m n False ''ready'')"
  have last: "triple (st ?J) (with_conn A (\<lambda>c. bindE (stmt_new A c sql_unindex) (\<lambda>_.
      bindE (stmt_execute A c sql_unindex [SqlInt u, SqlString p]) (\<lambda>_. return ())))) (\<lambda>_. fine) fine"
  proof (rule t_with_conn, rule triple_bind [OF t_stmt_new], simp, rule triple_bind [OF t_delete_row], rule triple_return)
    fix w :: "('r, 'm, 'f, 'z) world_scheme"
    assume h: "st (\<lambda>a b c. \<exists>c0. ?J a b c0 \<and> c = c0((u, ck p) := None)) w"
    then show "fine w"
      using refs_inv_move [OF _ assms(1,2,3)] by (fastforce simp: free_def simp del: fun_upd_apply)
  qed
  show ?thesis
    unfolding renameIndexedFile_def
    by (rule triple_bind [OF t_removeRef], rule triple_bind [OF t_addRef], rule triple_bind [OF t_delPath],
        rule triple_bind [OF t_index [OF assms(2) len]], rule triple_bind [OF t_setPath], rule triple_pre [OF last])
      (unfold id, fastforce simp del: fun_upd_apply simp: fun_upd_same fun_upd_upd)
qed

lemma t_row:
  assumes "p \<in> S" and "length m \<le> 32" and "d \<or> m = []"
  shows "triple (st (consist (insert (u, p) X))) (indexFile A u p m n d s) (\<lambda>_. st (consist X)) E"
  by (rule triple_post [OF t_index [OF assms(1,2)]])
    (use refs_inv_row [OF _ assms(1) keys_inj _ assms(3)] in \<open>fastforce simp: free_def simp del: fun_upd_apply\<close>)

text \<open>The row that is renamed is absent, of a directory, or of a file with content.\<close>

abbreviation "movable u p q \<equiv> (\<lambda>a b c. consist {(u, q)} a b c \<and>
  (\<forall>i. c (u, ck p) = Some i \<longrightarrow> \<not> if_isDir i \<longrightarrow> if_md5 i \<noteq> []))"

lemma t_rename_file:
  assumes "p \<in> S" and "q \<in> S" and "p \<noteq> q" and r: "r = Some i" "\<not> if_isDir i"
  shows "triple (st (\<lambda>a b c. movable u p q a b c \<and> r = c (u, ck p)))
      (renameIndexedFile A u p q (if_md5 i) (if_size i)) (\<lambda>_. fine) fine"
proof (cases "length (if_md5 i) = 32 \<and> NUL \<notin> set (if_md5 i)")
  case True
  show ?thesis
    by (rule triple_pre [OF t_renameIndexed [OF assms(1-3)]])
      (use True r refs_invD(5) [OF _ assms(1)] in \<open>auto simp: free_def\<close>)
next
  case False
  have "\<not> (movable u p q a b c \<and> r = c (u, ck p))" for a b c
    using False r refs_invD(5) [of ck S a b c p u i] refs_invD(2) [of ck S a b c u p] assms(1) by metis
  then show ?thesis by (intro triple_pre [OF triple_False]) blast
qed

text \<open>The tail of a rename that moves no content: the row of \<open>p\<close> goes, a row of \<open>q\<close> appears.\<close>

lemma t_rename_rows:
  assumes "p \<in> S" and "q \<in> S" and "p \<noteq> q"
  shows "triple (st (\<lambda>a b c. consist {(u, p), (u, q)} a b c \<and>
        md5 = (case a (pathKey u (c_str p)) of None \<Rightarrow> [] | Some v \<Rightarrow> v)))
      (bindE (fileExists A phys') (\<lambda>ex.
         bindE (if ex then fileSize A phys' else return 0) (\<lambda>sz.
         bindE (unindex A u p) (\<lambda>_.
         bindE (indexFile A u q md5 sz False ''ready'') (\<lambda>_.
         if md5 \<noteq> [] then setPathMd5 A u q md5 else return ()))))) (\<lambda>_. fine) fine"
proof (cases "md5 = []")
  case False
  have "\<not> (consist {(u, p), (u, q)} a b c \<and> md5 = (case a (pathKey u (c_str p)) of None \<Rightarrow> [] | Some v \<Rightarrow> v))"
    for a b c
    using False no_nul [OF assms(1)] by (auto simp: free_def c_str_id)
  then show ?thesis by (intro triple_pre [OF triple_False]) blast
next
  case True
  have drop: "consist {(u, q)} (a(pathKey u p := None)) b (c((u, ck p) := None))"
    if "consist {(u, p), (u, q)} a b c" for a b c
    using released_drop [OF released_none [where X = "{(u, q)}" and u = u and p = p] assms(1)] that
    by (auto simp: free_def)
  have un: "triple (st (consist {(u, p), (u, q)})) (unindex A u p) (\<lambda>_. st (consist {(u, q)})) fine"
    by (rule triple_post [OF t_unindex]) (use drop no_nul [OF assms(1)] in \<open>auto simp: c_str_id\<close>)
  have weak: "st (consist {(u, p), (u, q)}) w \<Longrightarrow> fine w" for w :: "('r, 'm, 'f, 'b) world_scheme"
    by (auto simp: free_def)
  show ?thesis
    unfolding True
    by (rule triple_pre [where P' = "st (consist {(u, p), (u, q)})"], rule triple_bind [OF t_fileExists],
        rule triple_bind [OF t_frame], (intro os_frame_intros)[1], rule weak, assumption,
        rule triple_bind [OF un], rule triple_bind [OF t_row [OF assms(2)]])
      (simp_all add: triple_def)
qed

lemma t_renameUserPath:
  assumes "p \<in> S" and "q \<in> S" and "p \<noteq> q"
  shows "triple (st (movable (s_userId session) p q)) (renameUserPath A session phys p phys' q) (\<lambda>_. fine) fine"
  unfolding renameUserPath_def
proof (rule triple_bind [OF t_lookup], rule triple_case_option)
  let ?u = "s_userId session"
  fix r :: "indexed_file option"
  assume r: "(case r of None \<Rightarrow> None | Some i \<Rightarrow> if if_isDir i then None else Some i) = None"
  show "triple (st (\<lambda>a b c. movable ?u p q a b c \<and> r = c (?u, ck p)))
      (bindE (renamePath A phys phys') (\<lambda>_. bindE (getPathMd5 A ?u p) (\<lambda>md5.
         bindE (fileExists A phys') (\<lambda>ex.
         bindE (if ex then fileSize A phys' else return 0) (\<lambda>sz.
         bindE (unindex A ?u p) (\<lambda>_.
         bindE (indexFile A ?u q md5 sz False ''ready'') (\<lambda>_.
         if md5 \<noteq> [] then setPathMd5 A ?u q md5 else return ()))))))) (\<lambda>_. fine) fine"
    by (rule triple_pre [where P' = "st (consist {(?u, p), (?u, q)})"],
        rule triple_bind [OF t_frame], rule os_frame_intros, simp add: free_def,
        rule triple_bind [OF t_getPath], rule t_rename_rows [OF assms])
      (use r free_of_row [where X = "{(?u, q)}" and u = ?u and p = p] in \<open>auto split: option.splits if_splits\<close>)
next
  fix r :: "indexed_file option" and i
  assume "(case r of None \<Rightarrow> None | Some i \<Rightarrow> if if_isDir i then None else Some i) = Some i"
  then have "r = Some i" "\<not> if_isDir i" by (auto split: option.splits if_splits)
  then show "triple (st (\<lambda>a b c. movable (s_userId session) p q a b c \<and> r = c (s_userId session, ck p)))
      (renameIndexedFile A (s_userId session) p q (if_md5 i) (if_size i)) (\<lambda>_. fine) fine"
    by (rule t_rename_file [OF assms])
qed

end

end
