(* ===== verification/Json_Util.thy ===== *)
theory Json_Util
  imports Services
begin

text \<open>
  \<open>src/json_util.cpp\<close>. The JSON library (jsoncpp) is a parameter: a record of the operations the
  program calls on \<open>Json::Value\<close>, over an abstract type of values. Reading operations throw when
  the value has another type than the one asked for; they return \<open>exn + 'a\<close>. The locale
  \<open>json_service\<close> states the documented behaviour the round-trip properties rely on.
\<close>

section \<open>The library\<close>

text \<open>\<open>j_parse\<close> is \<open>CharReader::parse\<close>: whether it succeeded, the value it left in \<open>out\<close>, the
  error text. \<open>j_set\<close> is an assignment to \<open>v[key]\<close> on an object or null value, \<open>j_at\<close> reading
  \<open>v[key]\<close>, \<open>j_get\<close> reading with a default, \<open>j_elems\<close> what iterating over the value gives.\<close>

record 'j jsoncpp =
  j_parse :: "string \<Rightarrow> bool \<times> 'j \<times> string"
  j_write :: "'j \<Rightarrow> string"
  j_null :: 'j
  j_objectValue :: 'j
  j_arrayValue :: 'j
  j_str :: "string \<Rightarrow> 'j"
  j_Int :: "int \<Rightarrow> 'j"
  j_UInt :: "u32 \<Rightarrow> 'j"
  j_Int64 :: "int \<Rightarrow> 'j"
  j_UInt64 :: "u64 \<Rightarrow> 'j"
  j_bool :: "bool \<Rightarrow> 'j"
  j_set :: "'j \<Rightarrow> string \<Rightarrow> 'j \<Rightarrow> 'j"
  j_append :: "'j \<Rightarrow> 'j \<Rightarrow> 'j"
  j_isMember :: "'j \<Rightarrow> string \<Rightarrow> exn + bool"
  j_at :: "'j \<Rightarrow> string \<Rightarrow> exn + 'j"
  j_get :: "'j \<Rightarrow> string \<Rightarrow> 'j \<Rightarrow> exn + 'j"
  j_asString :: "'j \<Rightarrow> exn + string"
  j_asInt :: "'j \<Rightarrow> exn + int"
  j_asUInt :: "'j \<Rightarrow> exn + u32"
  j_asUInt64 :: "'j \<Rightarrow> exn + u64"
  j_asBool :: "'j \<Rightarrow> exn + bool"
  j_elems :: "'j \<Rightarrow> 'j list"

section \<open>json\_util.cpp\<close>

definition parseJson :: "'j jsoncpp \<Rightarrow> string \<Rightarrow> bool \<times> 'j \<times> string" where
  "parseJson J s = (case j_parse J s of (ok, v, e) \<Rightarrow> (ok, v, if ok then [] else e))"

definition dumpJson :: "'j jsoncpp \<Rightarrow> 'j \<Rightarrow> string" where
  "dumpJson J v = j_write J v"

text \<open>A run of assignments \<open>v["k1"] = x1; v["k2"] = x2; ...\<close>.\<close>

definition assign :: "'j jsoncpp \<Rightarrow> 'j \<Rightarrow> (string \<times> 'j) list \<Rightarrow> 'j" where
  "assign J v fs = foldl (\<lambda>v (k, x). j_set J v k x) v fs"

definition makeReply :: "'j jsoncpp \<Rightarrow> u64 \<Rightarrow> int \<Rightarrow> string \<Rightarrow> 'j \<Rightarrow> 'j" where
  "makeReply J seq code msg data =
     assign J (j_null J) [(''seq'', j_UInt64 J seq), (''code'', j_Int J code), (''msg'', j_str J msg),
       (''data'', data)]"

text \<open>\<open>v.get(key, def).asString()\<close> and its siblings, as the program writes them.\<close>

definition get_as :: "'j jsoncpp \<Rightarrow> ('j \<Rightarrow> exn + 'a) \<Rightarrow> 'j \<Rightarrow> string \<Rightarrow> 'j \<Rightarrow> exn + 'a" where
  "get_as J as v key def = (case j_get J v key def of Inl e \<Rightarrow> Inl e | Inr x \<Rightarrow> as x)"

definition get_string :: "'j jsoncpp \<Rightarrow> 'j \<Rightarrow> string \<Rightarrow> string \<Rightarrow> exn + string" where
  "get_string J v key def = get_as J (j_asString J) v key (j_str J def)"

definition get_u64 :: "'j jsoncpp \<Rightarrow> 'j \<Rightarrow> string \<Rightarrow> exn + u64" where
  "get_u64 J v key = get_as J (j_asUInt64 J) v key (j_Int J 0)"

definition get_bool :: "'j jsoncpp \<Rightarrow> 'j \<Rightarrow> string \<Rightarrow> exn + bool" where
  "get_bool J v key = get_as J (j_asBool J) v key (j_bool J False)"

section \<open>What the program relies on\<close>

text \<open>
  \<open>obj\<close> is an object (or null) value. Reading a member gives what was assigned last, text and
  numbers of the type asked for read back as they are, and writing an object out and parsing it
  gives an object whose members read the same. The last law is on values built from text that the
  writer reproduces (\<open>plain\<close>: valid UTF-8) and 32-bit numbers.
\<close>

locale json_service =
  fixes J :: "'j jsoncpp" and obj :: "'j \<Rightarrow> bool" and plain :: "string \<Rightarrow> bool"
  assumes obj_null: "obj (j_null J)" and obj_set: "obj v \<Longrightarrow> obj (j_set J v k x)"
    and get_set: "obj v \<Longrightarrow> j_get J (j_set J v k x) k' d = (if k = k' then Inr x else j_get J v k' d)"
    and at_set: "obj v \<Longrightarrow> j_at J (j_set J v k x) k' = (if k = k' then Inr x else j_at J v k')"
    and get_null: "j_get J (j_null J) k d = Inr d"
    and member_set: "obj v \<Longrightarrow> j_isMember J (j_set J v k x) k' = (if k = k' then Inr True else j_isMember J v k')"
    and member_null: "j_isMember J (j_null J) k = Inr False"
    and as_str: "j_asString J (j_str J s) = Inr s"
    and as_Int: "- (2 ^ 31) \<le> i \<Longrightarrow> i < 2 ^ 31 \<Longrightarrow> j_asInt J (j_Int J i) = Inr i"
    and as_u64: "j_asUInt64 J (j_UInt64 J n) = Inr n"
    and written_flat: "\<forall>(k, x) \<in> set fs. (\<exists>s. x = j_str J s \<and> plain s) \<or> (\<exists>i. x = j_Int J i \<and> - (2 ^ 31) \<le> i \<and> i < 2 ^ 31) \<Longrightarrow>
      j_parse J (j_write J (assign J (j_null J) fs)) = (True, assign J (j_null J) fs, [])"
    and written_nonempty: "j_write J v \<noteq> []"
begin

lemma assign_Nil: "assign J v [] = v"
  by (simp add: assign_def)

lemma assign_snoc: "assign J v (fs @ [(k, x)]) = j_set J (assign J v fs) k x"
  by (simp add: assign_def)

lemma obj_assign: "obj v \<Longrightarrow> obj (assign J v fs)"
  by (induction fs rule: rev_induct) (auto simp: assign_Nil assign_snoc obj_set)

lemma get_assign:
  "j_get J (assign J (j_null J) fs) k d = Inr (case map_of (rev fs) k of None \<Rightarrow> d | Some x \<Rightarrow> x)"
  by (induction fs rule: rev_induct)
    (auto simp: assign_Nil assign_snoc get_null get_set obj_assign obj_null split: option.splits)

lemma get_string_assign:
  "map_of (rev fs) k = Some (j_str J s) \<Longrightarrow> get_string J (assign J (j_null J) fs) k d = Inr s"
  by (simp add: get_string_def get_as_def get_assign as_str)

lemma get_default: "map_of (rev fs) k = None \<Longrightarrow> get_string J (assign J (j_null J) fs) k d = Inr d"
  by (simp add: get_string_def get_as_def get_assign as_str)

end

end
