(* ===== verification/Auth_Service.thy ===== *)
theory Auth_Service
  imports Transfer_Service Json_Util
begin

text \<open>
  \<open>src/auth.cpp\<close>: accounts in the MySQL table \<open>users\<close>, sessions in Redis under the token that
  \<open>login\<close> hands out. The statements run on handles of the pool; a handle is held until the scope
  that acquired it ends, also while a nested call acquires a second one. Log lines are left out.
\<close>

section \<open>User names\<close>

definition validUsername :: "string \<Rightarrow> bool" where
  "validUsername u \<longleftrightarrow>
     \<not> (length u < 3 \<or> length u > 32) \<and> (\<forall>c \<in> set u. isalnum c \<or> c = CHR ''_'')"

definition ensureUserRoot :: "('r, 'm, 'f) env \<Rightarrow> string \<Rightarrow> (('r, 'm, 'f, 'z) world_scheme, string) cpp" where
  "ensureUserRoot A username =
     (let rootDir = joinPath (usersRoot (cfg A)) username
      in bindE (ensureDir A rootDir) (\<lambda>ok.
         if \<not> ok then throw (CloudError Internal ''cannot create user root'') else return rootDir))"

section \<open>Statements\<close>

definition sql_login_log :: string where
  "sql_login_log = ''INSERT INTO login_log(user_id, ip, success) VALUES(?, ?, ?)''"

definition sql_insert_user :: string where
  "sql_insert_user = ''INSERT INTO users(username, password_hash, salt, root_dir) '' @ ''VALUES(?, ?, ?, ?)''"

definition sql_select_user :: string where
  "sql_select_user = ''SELECT id, password_hash, salt, root_dir FROM users WHERE username=? LIMIT 1''"

text \<open>\<open>err.find(needle) != npos\<close>.\<close>

fun contains :: "string \<Rightarrow> string \<Rightarrow> bool" where
  "contains needle [] = (needle = [])"
| "contains needle (c # s) = (take (length needle) (c # s) = needle \<or> contains needle s)"

text \<open>\<open>static_cast<int>\<close> of a 64-bit number keeps the low 32 bits.\<close>

definition int_of_u64 :: "u64 \<Rightarrow> int" where
  "int_of_u64 n = sint (ucast n :: 32 word)"

text \<open>\<open>std::atol\<close>: white space, a sign, digits; 0 when there are none. Beyond the range of
  \<open>long\<close> the behaviour is undefined; the C library saturates.\<close>

definition atol :: "string \<Rightarrow> int" where
  "atol s =
     (let t = dropWhile isspace s;
          neg = (t \<noteq> [] \<and> hd t = CHR ''-'');
          u = (if t \<noteq> [] \<and> (hd t = CHR ''-'' \<or> hd t = CHR ''+'') then tl t else t);
          v = int (digits_value (takeWhile isdigit u))
      in if neg then max (- (2 ^ 63)) (- v) else min (2 ^ 63 - 1) v)"

text \<open>A row of \<open>users\<close>, and the columns of it that \<open>sql_select_user\<close> delivers.\<close>

record user_row =
  ur_id :: int
  ur_hash :: string
  ur_salt :: string
  ur_root :: string

definition row_user :: "user_row \<Rightarrow> sql_value list" where
  "row_user r = [SqlInt (ur_id r), SqlString (ur_hash r), SqlString (ur_salt r), SqlString (ur_root r)]"

section \<open>Operations\<close>

definition logLogin :: "('r, 'm, 'f) env \<Rightarrow> int \<Rightarrow> string \<Rightarrow> bool \<Rightarrow>
    (('r, 'm, 'f, 'z) world_scheme, unit) cpp" where
  "logLogin A userId ip ok =
     catchE
       (with_conn A (\<lambda>c.
          bindE (stmt_new A c sql_login_log) (\<lambda>_.
          bindE (stmt_execute A c sql_login_log [SqlInt userId, SqlString ip, SqlInt (if ok then 1 else 0)]) (\<lambda>_.
          return ()))))
       (\<lambda>e. return ())"

definition registerUser :: "('r, 'm, 'f) env \<Rightarrow> string \<Rightarrow> string \<Rightarrow>
    (('r, 'm, 'f, 'z) world_scheme, user_session) cpp" where
  "registerUser A username password =
     (if \<not> validUsername username \<or> length password < 6 then
        throw (CloudError BadRequest ''invalid username or password'')
      else
        bindE (randomHex A 16) (\<lambda>salt.
        bindE (liftS (hashPassword A salt password)) (\<lambda>hash.
        bindE (ensureUserRoot A username) (\<lambda>rootDir.
        with_conn A (\<lambda>c.
          bindE (catchE
                   (bindE (stmt_new A c sql_insert_user) (\<lambda>_.
                    bindE (stmt_execute A c sql_insert_user
                             [SqlString username, SqlString hash, SqlString salt, SqlString rootDir]) (\<lambda>res.
                    return (sql_insert_id res))))
                   (\<lambda>e. if contains ''Duplicate'' (what e) then throw (CloudError Conflict ''username exists'')
                        else throw (CloudError Internal (''register failed: '' @ what e)))) (\<lambda>newUserId.
          return \<lparr>s_userId = int_of_u64 newUserId, s_username = username, s_rootDir = rootDir, s_token = []\<rparr>))))))"

definition session_json :: "'j jsoncpp \<Rightarrow> user_session \<Rightarrow> 'j" where
  "session_json J s = assign J (j_null J)
     [(''user_id'', j_Int J (s_userId s)), (''username'', j_str J (s_username s)),
      (''root_dir'', j_str J (s_rootDir s)), (''token'', j_str J (s_token s))]"

definition login :: "('r, 'm, 'f) env \<Rightarrow> 'j jsoncpp \<Rightarrow> string \<Rightarrow> string \<Rightarrow> string \<Rightarrow>
    (('r, 'm, 'f, 'z) world_scheme, user_session) cpp" where
  "login A J username password ip =
     with_conn A (\<lambda>c.
       bindE (stmt_new A c sql_select_user) (\<lambda>_.
       bindE (stmt_execute A c sql_select_user [SqlString username]) (\<lambda>res.
       case sql_rows res of
         [] \<Rightarrow>
           bindE (logLogin A 0 ip False) (\<lambda>_.
           throw (CloudError Unauthorized ''invalid username or password''))
       | row # _ \<Rightarrow>
           let uid = col_int row 0; hash = col_string row 1; salt = col_string row 2 in
           bindE (liftS (verifyPassword A salt password hash)) (\<lambda>good.
           if \<not> good then
             bindE (logLogin A uid ip False) (\<lambda>_.
             throw (CloudError Unauthorized ''invalid username or password''))
           else
             bindE (ensureUserRoot A username) (\<lambda>root.
             bindE (randomHex A 32) (\<lambda>token.
             let s = \<lparr>s_userId = uid, s_username = username, s_rootDir = root, s_token = token\<rparr> in
             bindE (setSession A token (dumpJson J (session_json J s)) (sessionTtlSec (cfg A))) (\<lambda>_.
             bindE (logLogin A uid ip True) (\<lambda>_.
             return s))))))))"

definition checkToken :: "('r, 'm, 'f) env \<Rightarrow> 'j jsoncpp \<Rightarrow> string \<Rightarrow>
    (('r, 'm, 'f, 'z) world_scheme, user_session) cpp" where
  "checkToken A J token =
     (if token = [] then throw (CloudError Unauthorized ''missing token'')
      else
        bindE (getSession A token) (\<lambda>raw.
        if raw = [] then throw (CloudError Unauthorized ''session expired'')
        else
          (case parseJson J raw of (ok, js, _) \<Rightarrow>
             if \<not> ok then throw (CloudError Unauthorized ''bad session'')
             else
               bindE (liftS (get_as J (j_asInt J) js ''user_id'' (j_Int J 0))) (\<lambda>uid.
               bindE (liftS (get_string J js ''username'' [])) (\<lambda>name.
               bindE (liftS (get_string J js ''root_dir'' [])) (\<lambda>root.
               bindE (setSession A token raw (sessionTtlSec (cfg A))) (\<lambda>_.
               return \<lparr>s_userId = uid, s_username = name, s_rootDir = root, s_token = token\<rparr>)))))))"

definition logout :: "('r, 'm, 'f) env \<Rightarrow> string \<Rightarrow> (('r, 'm, 'f, 'z) world_scheme, unit) cpp" where
  "logout A token = delSession A token"

text \<open>The first column of the first row of the stored result, as \<open>atol\<close> reads it.\<close>

definition row_count :: "string option list list option \<Rightarrow> int" where
  "row_count res = (case res of Some ((Some t # _) # _) \<Rightarrow> atol t | _ \<Rightarrow> 0)"

definition ensureDefaultUsers :: "('r, 'm, 'f) env \<Rightarrow> (('r, 'm, 'f, 'z) world_scheme, unit) cpp" where
  "ensureDefaultUsers A =
     with_conn A (\<lambda>c.
       bindE (on_mysql (my_query (sql A) c ''SELECT COUNT(*) FROM users'')) (\<lambda>q.
       case q of
         Inl err \<Rightarrow> throw (StdException err)
       | Inr res \<Rightarrow>
           if row_count res > 0 then return ()
           else
             bindE (registerUser A ''admin'' ''admin123'') (\<lambda>_.
             bindE (registerUser A ''alice'' ''alice123'') (\<lambda>_.
             bindE (registerUser A ''bob'' ''bob123'') (\<lambda>_. return ())))))"

section \<open>The service leaves the connection's own state alone\<close>

lemma more_frame_root [more_frame_intros]: "more_frame (ensureUserRoot A u)"
  unfolding ensureUserRoot_def Let_def by (intro more_frame_intros)

lemma more_frame_logLogin [more_frame_intros]: "more_frame (logLogin A u ip ok)"
  unfolding logLogin_def by (intro more_frame_intros)

lemma more_frame_register [more_frame_intros]: "more_frame (registerUser A u pw)"
  unfolding registerUser_def by (intro more_frame_intros)

lemma more_frame_list [more_frame_intros]:
  "more_frame m \<Longrightarrow> (\<And>x xs. more_frame (k x xs)) \<Longrightarrow> more_frame (case l of [] \<Rightarrow> m | x # xs \<Rightarrow> k x xs)"
  by (cases l) simp_all

lemma more_frame_auth [more_frame_intros]:
  "more_frame (login A J u pw ip)" "more_frame (checkToken A J t)" "more_frame (logout A t)"
  unfolding login_def checkToken_def logout_def Let_def by (intro more_frame_intros)+

end
