(* ===== verification/Reference_Env.thy ===== *)
theory Reference_Env
  imports Transfer_Facts Auth_Service "HOL-Library.AList"
begin

text \<open>
  One concrete environment: in-memory stand-ins for the operating system, MySQL and the digest
  library beside the Redis one of \<open>Redis_Store\<close>. They are instances of the parameters, proved to
  obey the laws that the properties assume, and the witnesses evaluate the model on them. They
  are not part of the program.
\<close>

section \<open>Files\<close>

record ref_fs =
  rf_files :: "string \<Rightarrow> string option"
  rf_dirs :: "string list"
  rf_fds :: "int \<Rightarrow> (string \<times> nat) option"
  rf_next :: int

text \<open>Paths whose last component has 32 or more characters (objects and part files) name regular
  files only.\<close>

definition is_store :: "string \<Rightarrow> bool" where
  "is_store p \<longleftrightarrow> 32 \<le> length (baseName p)"

definition ref_lstat :: "string \<Rightarrow> ref_fs \<Rightarrow> stat_buf option" where
  "ref_lstat p f =
     (case rf_files f p of
        Some c \<Rightarrow> Some \<lparr>st_mode = 0x8000, st_size = int (length c), st_mtime = 0\<rparr>
      | None \<Rightarrow> if \<not> is_store p \<and> p \<in> set (rf_dirs f)
                then Some \<lparr>st_mode = 0x4000, st_size = 0, st_mtime = 0\<rparr> else None)"

definition ref_mkdir :: "string \<Rightarrow> ref_fs \<Rightarrow> errno option \<times> ref_fs" where
  "ref_mkdir p f =
     (if ref_lstat p f \<noteq> None then (Some EEXIST, f)
      else if is_store p then (Some 36, f)
      else (None, f\<lparr>rf_dirs := p # rf_dirs f\<rparr>))"

definition ref_unlink :: "string \<Rightarrow> ref_fs \<Rightarrow> errno option \<times> ref_fs" where
  "ref_unlink p f =
     (if rf_files f p = None then (Some ENOENT, f)
      else (None, f\<lparr>rf_files := (rf_files f)(p := None)\<rparr>))"

definition ref_rename :: "string \<Rightarrow> string \<Rightarrow> ref_fs \<Rightarrow> errno option \<times> ref_fs" where
  "ref_rename p q f =
     (case rf_files f p of
        None \<Rightarrow> (Some ENOENT, f)
      | Some c \<Rightarrow> (None, f\<lparr>rf_files := (rf_files f)(p := None, q \<mapsto> c)\<rparr>))"

definition ref_fd :: "string \<Rightarrow> ref_fs \<Rightarrow> (errno + int) \<times> ref_fs" where
  "ref_fd p f = (Inr (rf_next f), f\<lparr>rf_fds := (rf_fds f)(rf_next f \<mapsto> (p, 0)), rf_next := rf_next f + 1\<rparr>)"

definition ref_open :: "string \<Rightarrow> open_flags \<Rightarrow> ref_fs \<Rightarrow> (errno + int) \<times> ref_fs" where
  "ref_open p fl f =
     (case fl of
        O_RDONLY \<Rightarrow> if rf_files f p = None then (Inl ENOENT, f) else ref_fd p f
      | O_WRONLY_CREAT_TRUNC \<Rightarrow> ref_fd p (f\<lparr>rf_files := (rf_files f)(p \<mapsto> [])\<rparr>)
      | O_RDWR_CREAT \<Rightarrow> ref_fd p (if rf_files f p = None then f\<lparr>rf_files := (rf_files f)(p \<mapsto> [])\<rparr> else f))"

text \<open>The content of the file a descriptor refers to, and the descriptor's position.\<close>

definition ref_at :: "int \<Rightarrow> ref_fs \<Rightarrow> (string \<times> nat \<times> string) option" where
  "ref_at fd f = (case rf_fds f fd of
     None \<Rightarrow> None
   | Some (p, n) \<Rightarrow> (case rf_files f p of None \<Rightarrow> None | Some c \<Rightarrow> Some (p, n, c)))"

definition overwrite_at :: "nat \<Rightarrow> string \<Rightarrow> string \<Rightarrow> string" where
  "overwrite_at n data c = take n (c @ replicate (n - length c) NUL) @ data @ drop (n + length data) c"

definition ref_read :: "int \<Rightarrow> nat \<Rightarrow> ref_fs \<Rightarrow> string option \<times> ref_fs" where
  "ref_read fd k f = (case ref_at fd f of
     None \<Rightarrow> (None, f)
   | Some (p, n, c) \<Rightarrow>
       (Some (take k (drop n c)), f\<lparr>rf_fds := (rf_fds f)(fd \<mapsto> (p, n + length (take k (drop n c))))\<rparr>))"

definition ref_write :: "int \<Rightarrow> string \<Rightarrow> ref_fs \<Rightarrow> nat option \<times> ref_fs" where
  "ref_write fd data f = (case ref_at fd f of
     None \<Rightarrow> (None, f)
   | Some (p, n, c) \<Rightarrow>
       (Some (length data),
        f\<lparr>rf_files := (rf_files f)(p \<mapsto> overwrite_at n data c),
          rf_fds := (rf_fds f)(fd \<mapsto> (p, n + length data))\<rparr>))"

definition ref_pread :: "int \<Rightarrow> nat \<Rightarrow> int \<Rightarrow> ref_fs \<Rightarrow> string option" where
  "ref_pread fd k off f = (case ref_at fd f of
     None \<Rightarrow> None
   | Some (p, n, c) \<Rightarrow> if off < 0 then None else Some (take k (drop (nat off) c)))"

definition ref_pwrite :: "int \<Rightarrow> string \<Rightarrow> int \<Rightarrow> ref_fs \<Rightarrow> nat option \<times> ref_fs" where
  "ref_pwrite fd data off f = (case ref_at fd f of
     None \<Rightarrow> (None, f)
   | Some (p, n, c) \<Rightarrow>
       if off < 0 then (None, f)
       else (Some (length data), f\<lparr>rf_files := (rf_files f)(p \<mapsto> overwrite_at (nat off) data c)\<rparr>))"

definition ref_ftruncate :: "int \<Rightarrow> int \<Rightarrow> ref_fs \<Rightarrow> errno option \<times> ref_fs" where
  "ref_ftruncate fd n f = (case ref_at fd f of
     None \<Rightarrow> (Some 9, f)
   | Some (p, k, c) \<Rightarrow> (None, f\<lparr>rf_files := (rf_files f)(p \<mapsto> take (nat n) c)\<rparr>))"

definition ref_posix :: "ref_fs posix" where
  "ref_posix = \<lparr>os_lstat = ref_lstat, os_stat = ref_lstat,
     os_fstat = (\<lambda>fd f. case ref_at fd f of None \<Rightarrow> None | Some (p, n, c) \<Rightarrow> ref_lstat p f),
     os_realpath = (\<lambda>p f. if ref_lstat p f \<noteq> None then Some p else None),
     os_mkdir = ref_mkdir, os_unlink = ref_unlink,
     os_rmdir = (\<lambda>p f. (None, f\<lparr>rf_dirs := removeAll p (rf_dirs f)\<rparr>)),
     os_rename = ref_rename,
     os_chmod = (\<lambda>p m f. (if ref_lstat p f = None then Some ENOENT else None, f)),
     os_open = ref_open,
     os_close = (\<lambda>fd f. f\<lparr>rf_fds := (rf_fds f)(fd := None)\<rparr>),
     os_fsync = (\<lambda>fd f. f),
     os_read = ref_read, os_write = ref_write, os_pread = ref_pread, os_pwrite = ref_pwrite,
     os_ftruncate = ref_ftruncate,
     os_readdir = (\<lambda>p f. if p \<in> set (rf_dirs f) then Some [] else None),
     os_strerror = (\<lambda>e. ''error''),
     os_random = (\<lambda>n f. (replicate n (of_int (rf_next f)), f\<lparr>rf_next := rf_next f + 1\<rparr>)),
     ifs_bytes = (\<lambda>p f. rf_files f p)\<rparr>"

section \<open>MySQL\<close>

record ref_db =
  rd_index :: "((int \<times> string) \<times> indexed_file) list"
  rd_users :: "(string \<times> user_row) list"

definition ref_fi :: "ref_db \<Rightarrow> int \<times> string \<Rightarrow> indexed_file option" where
  "ref_fi m = map_of (rd_index m)"

definition ref_under :: "int \<Rightarrow> string \<Rightarrow> ((int \<times> string) \<times> indexed_file) list \<Rightarrow> string list" where
  "ref_under u p al = remdups (map (\<lambda>e. if_virtualPath (snd e))
     (filter (\<lambda>e. fst (fst e) = u \<and> \<not> if_isDir (snd e) \<and> like (=) p (if_virtualPath (snd e)))
       (AList.clearjunk al)))"

definition ref_execute :: "nat \<Rightarrow> string \<Rightarrow> sql_value list \<Rightarrow> ref_db \<Rightarrow> (string + sql_result) \<times> ref_db" where
  "ref_execute h text ps m =
     (case ps of
        [SqlInt u, SqlString p] \<Rightarrow>
          if text = sql_lookup then
            (Inr \<lparr>sql_rows = (case ref_fi m (u, p) of None \<Rightarrow> [] | Some i \<Rightarrow> [row_of i]), sql_insert_id = 0\<rparr>, m)
          else if text = sql_unindex then
            (Inr \<lparr>sql_rows = [], sql_insert_id = 0\<rparr>, m\<lparr>rd_index := AList.delete (u, p) (rd_index m)\<rparr>)
          else if text = sql_under then
            (Inr \<lparr>sql_rows = map (\<lambda>q. [SqlString q]) (ref_under u p (rd_index m)), sql_insert_id = 0\<rparr>, m)
          else (Inl ''unknown statement'', m)
      | [SqlInt u, SqlString p, SqlString d, SqlUInt n, SqlInt b, SqlString s] \<Rightarrow>
          if text = sql_index then
            (Inr \<lparr>sql_rows = [], sql_insert_id = 0\<rparr>,
             m\<lparr>rd_index := AList.update (u, p) (upsert (ref_fi m (u, p)) p d n (b \<noteq> 0) s) (rd_index m)\<rparr>)
          else (Inl ''unknown statement'', m)
      | [SqlString u, SqlString h', SqlString s, SqlString r] \<Rightarrow>
          if map_of (rd_users m) u \<noteq> None then (Inl ''Duplicate entry'', m)
          else let n = length (rd_users m) + 1
            in (Inr \<lparr>sql_rows = [], sql_insert_id = of_nat n\<rparr>,
                m\<lparr>rd_users := (u, \<lparr>ur_id = int_of_u64 (of_nat n), ur_hash = h', ur_salt = s, ur_root = r\<rparr>) # rd_users m\<rparr>)
      | [SqlString u] \<Rightarrow>
          (Inr \<lparr>sql_rows = (case map_of (rd_users m) u of None \<Rightarrow> [] | Some r \<Rightarrow> [row_user r]), sql_insert_id = 0\<rparr>, m)
      | _ \<Rightarrow> (Inl ''unknown statement'', m))"

definition ref_mysql :: "ref_db mysql_client" where
  "ref_mysql = \<lparr>my_ping = (\<lambda>h m. (True, m)), my_connect = (\<lambda>m. (MyConnected 0, m)),
     my_close = (\<lambda>h m. m), my_prepare = (\<lambda>h t m. (None, m)), my_execute = ref_execute,
     my_query = (\<lambda>h t m. (Inr (Some [[Some (to_string_nat (length (rd_users m)))]]), m))\<rparr>"

section \<open>Digests, configuration, environment\<close>

definition ref_sum :: "digest_alg \<Rightarrow> string \<Rightarrow> u8 list" where
  "ref_sum alg s = (let n = (case alg of MD5 \<Rightarrow> 16 | SHA256 \<Rightarrow> 32)
     in take n (of_nat (length s) # map byte_of s @ replicate n 0))"

definition ref_evp :: "digest_alg \<Rightarrow> string list \<Rightarrow> evp_result" where
  "ref_evp alg pieces = EvpDigest (ref_sum alg (concat pieces))"

definition ref_config :: config where
  "ref_config = \<lparr>listenIp = ''0.0.0.0'', listenPort = 9000, storageRoot = ''/d'', logFile = ''/l'',
     mysqlHost = ''h'', mysqlPort = 3306, mysqlUser = ''u'', mysqlPassword = ''p'', mysqlDb = ''c'',
     mysqlPoolSize = 8, redisHost = ''h'', redisPort = 6379, redisPassword = [], redisDb = 0,
     chunkSize = 65536, maxConnections = 1024, sessionTtlSec = 3600, connIdleTimeoutSec = 300,
     maxUploadBytes = 8589934592, challengeBytes = 4096, copyWorkers = 2, copySleepUs = 0\<rparr>"

definition ref_env :: "(ref_redis, ref_db, ref_fs) env" where
  "ref_env = \<lparr>cfg = ref_config, os = ref_posix, rds = ref_hiredis, sql = ref_mysql, evp = ref_evp,
     loop_bound = 8\<rparr>"

definition ref_fs0 :: ref_fs where
  "ref_fs0 = \<lparr>rf_files = (\<lambda>_. None), rf_dirs = [], rf_fds = (\<lambda>_. None), rf_next = 3\<rparr>"

definition ref_world :: "(ref_redis, ref_db, ref_fs) world" where
  "ref_world = \<lparr>w_os = ref_fs0, w_redis = ref_redis0, ctx_set = True, w_mysql = \<lparr>rd_index = [], rd_users = []\<rparr>,
     idle_conns = [0, 1], pool_stopping = False\<rparr>"

section \<open>The laws hold\<close>

lemma sql_texts_distinct [simp]:
  "sql_index \<noteq> sql_lookup" "sql_index \<noteq> sql_unindex" "sql_index \<noteq> sql_under"
  "sql_lookup \<noteq> sql_index" "sql_lookup \<noteq> sql_unindex" "sql_lookup \<noteq> sql_under"
  "sql_unindex \<noteq> sql_index" "sql_unindex \<noteq> sql_lookup" "sql_unindex \<noteq> sql_under"
  "sql_under \<noteq> sql_index" "sql_under \<noteq> sql_lookup" "sql_under \<noteq> sql_unindex"
  by (simp_all add: sql_index_def sql_lookup_def sql_unindex_def sql_under_def)

lemma ref_under_set:
  "set (ref_under u p al) =
   {if_virtualPath i | c i. map_of al (u, c) = Some i \<and> \<not> if_isDir i \<and> like (=) p (if_virtualPath i)}"
proof -
  have "(k, i) \<in> set (AList.clearjunk al) \<longleftrightarrow> map_of al k = Some i" for k i
    by (metis distinct_clearjunk map_of_clearjunk map_of_eq_Some_iff)
  then show ?thesis by (auto simp: ref_under_def image_iff) force+
qed

interpretation ref_index: index_service ref_mysql ref_fi "\<lambda>p. p" "\<lambda>p d. True" "(=)"
proof unfold_locales
  fix h u pat m
  show "\<exists>k rows. fst (my_execute ref_mysql h sql_under [SqlInt u, SqlString pat] m) =
      Inr \<lparr>sql_rows = map (\<lambda>p. [SqlString p]) rows, sql_insert_id = k\<rparr> \<and> distinct rows \<and>
      set rows = {if_virtualPath i | c i. ref_fi m (u, c) = Some i \<and> \<not> if_isDir i \<and> like (=) pat (if_virtualPath i)}"
    by (rule exI [of _ 0], rule exI [of _ "ref_under u pat (rd_index m)"])
      (simp add: ref_mysql_def ref_execute_def ref_fi_def ref_under_set, simp add: ref_under_def)
qed (auto simp: ref_mysql_def ref_execute_def ref_fi_def update_conv' delete_conv')

interpretation ref_digest: digest ref_evp ref_sum
  by unfold_locales (simp_all add: ref_evp_def ref_sum_def)

lemma ref_env_sel [simp]:
  "rds ref_env = ref_hiredis" "sql ref_env = ref_mysql" "evp ref_env = ref_evp" "os ref_env = ref_posix"
  "cfg ref_env = ref_config" "loop_bound ref_env = 8"
  by (simp_all add: ref_env_def)

interpretation ref_store: store_env ref_env rr_strs ref_sets ref_fi "\<lambda>p. p" "\<lambda>p d. True" "(=)"
  by (intro_locales)
    (simp_all add: ref_redis.redis_service_axioms ref_index.index_service_axioms)

lemma ref_world_up: "store_up ref_env rr_strs ref_sets ref_world"
  using ref_redis0_ready by (simp add: store_up_def ref_world_def)

end
