(* ===== verification/Path_Guard.thy ===== *)
theory Path_Guard
  imports Services
begin

text \<open>
  \<open>src/path_guard.cpp\<close>: normalising a client's logical path and resolving it below the
  user's root. \<open>resolve\<close> only reads the file system, through \<open>lstat\<close> and \<open>realpath\<close>; the
  containment theorem assumes of them only that \<open>realpath\<close> gives canonical paths.
\<close>

section \<open>normalizeLogical\<close>

definition hasNul :: "string \<Rightarrow> bool" where
  "hasNul s \<longleftrightarrow> find_first NUL s \<noteq> None"

fun normalize_go :: "string list \<Rightarrow> string list \<Rightarrow> exn + string list" where
  "normalize_go [] st = Inr st"
| "normalize_go (c # parts) st =
     (if c = [] \<or> c = ''.'' then normalize_go parts st
      else if c = ''..'' then
        (if st = [] then Inl (CloudError Forbidden ''path traversal denied'')
         else normalize_go parts (butlast st))
      else if c = ''~'' \<or> find_first CHR 0x5C c \<noteq> None then
        Inl (CloudError Forbidden ''illegal path component'')
      else normalize_go parts (st @ [c]))"

fun join_loop :: "string list \<Rightarrow> nat \<Rightarrow> string \<Rightarrow> string" where
  "join_loop [] i out = out"
| "join_loop (c # cs) i out = join_loop cs (Suc i) ((if i \<noteq> 0 then out @ ''/'' else out) @ c)"

definition normalizeLogical :: "string \<Rightarrow> exn + string" where
  "normalizeLogical logical =
     (if hasNul logical then Inl (CloudError Forbidden ''invalid path'')
      else (case normalize_go (split logical CHR ''/'') [] of
              Inl e \<Rightarrow> Inl e
            | Inr st \<Rightarrow> if st = [] then Inr [] else Inr (join_loop st 0 [])))"

section \<open>resolve\<close>

definition isInside :: "string \<Rightarrow> string \<Rightarrow> bool option" where
  "isInside path root = startsWithPath path root"

definition mustRealpath :: "'f posix \<Rightarrow> 'f \<Rightarrow> string \<Rightarrow> exn + string" where
  "mustRealpath P f path =
     (case os_realpath P (c_str path) f of
        None \<Rightarrow> Inl (CloudError NotFound ''path not found'')
      | Some r \<Rightarrow> Inr r)"

text \<open>\<open>guarded b e k\<close>: throw \<open>e\<close> unless the prefix test \<open>b\<close> holds.\<close>

definition guarded :: "bool option \<Rightarrow> exn \<Rightarrow> 'a outcome \<Rightarrow> 'a outcome" where
  "guarded b e k = (case b of None \<Rightarrow> Undef | Some True \<Rightarrow> k | Some False \<Rightarrow> Raise e)"

fun resolve_parts ::
  "'f posix \<Rightarrow> 'f \<Rightarrow> string \<Rightarrow> string \<Rightarrow> bool \<Rightarrow> string list \<Rightarrow> string \<Rightarrow> string outcome" where
  "resolve_parts P f root norm mustExist [] cur =
     guarded (isInside cur root) (CloudError Forbidden ''path escaped user root'') (Ret cur)"
| "resolve_parts P f root norm mustExist (name # parts) cur =
     (if name = [] then resolve_parts P f root norm mustExist parts cur
      else (let next = joinPath cur name in
        case os_lstat P (c_str next) f of
          None \<Rightarrow>
            if parts = [] \<and> \<not> mustExist then
              guarded (isInside cur root) (CloudError Forbidden ''path escaped user root'') (Ret next)
            else Raise (CloudError NotFound (''path not found: /'' @ norm))
        | Some st \<Rightarrow>
            if S_ISLNK (st_mode st) then
              (case mustRealpath P f next of
                 Inl e \<Rightarrow> Raise e
               | Inr real \<Rightarrow>
                   guarded (isInside real root) (CloudError Forbidden ''symlink escapes user root'')
                     (resolve_parts P f root norm mustExist parts real))
            else if S_ISDIR (st_mode st) \<or> S_ISREG (st_mode st) then
              (case isInside next root of
                 None \<Rightarrow> Undef
               | Some inside \<Rightarrow>
                   if \<not> inside \<and> next \<noteq> root
                   then Raise (CloudError Forbidden ''path escaped user root'')
                   else resolve_parts P f root norm mustExist parts next)
            else resolve_parts P f root norm mustExist parts next))"

definition resolve :: "'f posix \<Rightarrow> 'f \<Rightarrow> string \<Rightarrow> string \<Rightarrow> bool \<Rightarrow> string outcome" where
  "resolve P f userRoot logical mustExist =
     (if userRoot = [] \<or> hd userRoot \<noteq> CHR ''/'' then
        Raise (CloudError Internal ''user root is not absolute'')
      else (case mustRealpath P f userRoot of
              Inl e \<Rightarrow> Raise e
            | Inr root \<Rightarrow>
                (case normalizeLogical logical of
                   Inl e \<Rightarrow> Raise e
                 | Inr norm \<Rightarrow>
                     if norm = [] then Ret root
                     else resolve_parts P f root norm mustExist (split norm CHR ''/'') root)))"

section \<open>Facts on normalisation\<close>

text \<open>A clean component: what \<open>normalizeLogical\<close> keeps.\<close>

definition clean_component :: "string \<Rightarrow> bool" where
  "clean_component c \<longleftrightarrow>
     c \<noteq> [] \<and> c \<noteq> ''.'' \<and> c \<noteq> ''..'' \<and> c \<noteq> ''~'' \<and> CHR 0x5C \<notin> set c \<and> CHR ''/'' \<notin> set c \<and> NUL \<notin> set c"

lemma find_first_None [simp]: "find_first c s = None \<longleftrightarrow> c \<notin> set s"
  by (simp add: find_first_def)

lemma join_loop_eq: "i \<noteq> 0 \<Longrightarrow> cs \<noteq> [] \<Longrightarrow> join_loop cs i out = out @ CHR ''/'' # join_with CHR ''/'' cs"
proof (induction cs arbitrary: i out)
  case (Cons c cs)
  then show ?case by (cases "cs = []") (simp_all add: join_with_Cons)
qed simp

lemma join_loop_join: "cs \<noteq> [] \<Longrightarrow> join_loop cs 0 [] = join_with CHR ''/'' cs"
  by (cases cs; cases "tl cs = []") (simp_all add: join_loop_eq join_with_Cons)

lemma normalize_go_skip: "c = [] \<or> c = ''.'' \<Longrightarrow> normalize_go (c # parts) st = normalize_go parts st"
  by simp

lemma normalize_go_up:
  "st \<noteq> [] \<Longrightarrow> normalize_go (''..'' # parts) st = normalize_go parts (butlast st)"
  by simp

lemma normalize_go_bad:
  "normalize_go (''..'' # parts) [] = Inl (CloudError Forbidden ''path traversal denied'')"
  "c = ''~'' \<or> CHR 0x5C \<in> set c \<Longrightarrow>
     normalize_go (c # parts) st = Inl (CloudError Forbidden ''illegal path component'')"
  by auto

lemma normalize_go_push:
  "clean_component c \<Longrightarrow> normalize_go (c # parts) st = normalize_go parts (st @ [c])"
  by (simp add: clean_component_def)

lemma component_cases:
  assumes "CHR ''/'' \<notin> set c" and "NUL \<notin> set c"
  obtains (skip) "c = [] \<or> c = ''.''" | (up) "c = ''..''"
    | (bad) "c = ''~'' \<or> CHR 0x5C \<in> set c" | (push) "clean_component c"
  using assms unfolding clean_component_def by blast

declare normalize_go.simps(2) [simp del]

lemma normalize_go_clean:
  assumes "normalize_go parts st = Inr out" and "\<forall>c \<in> set st. clean_component c"
    and "\<forall>c \<in> set parts. CHR ''/'' \<notin> set c \<and> NUL \<notin> set c"
  shows "\<forall>c \<in> set out. clean_component c"
  using assms
proof (induction parts arbitrary: st)
  case (Cons c parts)
  have c: "CHR ''/'' \<notin> set c" "NUL \<notin> set c" using Cons.prems(3) by simp_all
  have rest: "\<forall>c \<in> set parts. CHR ''/'' \<notin> set c \<and> NUL \<notin> set c" using Cons.prems(3) by simp
  from c show ?case
  proof (cases rule: component_cases)
    case skip
    show ?thesis
      using Cons.IH [OF _ Cons.prems(2) rest] Cons.prems(1) normalize_go_skip [OF skip] by metis
  next
    case up
    then have ne: "st \<noteq> []" using Cons.prems(1) by (auto simp: normalize_go_bad(1))
    have "\<forall>c \<in> set (butlast st). clean_component c" using Cons.prems(2) in_set_butlastD by metis
    from Cons.IH [OF _ this rest] show ?thesis
      using Cons.prems(1) up normalize_go_up [OF ne] by metis
  next
    case bad
    show ?thesis using Cons.prems(1) normalize_go_bad(2) [OF bad] by (metis Inr_not_Inl)
  next
    case push
    have "\<forall>c \<in> set (st @ [c]). clean_component c" using Cons.prems(2) push by simp
    from Cons.IH [OF _ this rest] show ?thesis
      using Cons.prems(1) normalize_go_push [OF push] by metis
  qed
qed simp

lemma normalize_go_id:
  "\<forall>c \<in> set parts. clean_component c \<Longrightarrow> normalize_go parts st = Inr (st @ parts)"
  by (induction parts arbitrary: st) (simp_all add: normalize_go_push)

lemma split_no_NUL: "NUL \<notin> set s \<Longrightarrow> x \<in> set (split s d) \<Longrightarrow> NUL \<notin> set x"
proof -
  have *: "x \<in> set xs \<Longrightarrow> set x \<subseteq> set (join_with d xs)" for xs
    by (induction d xs rule: join_with.induct) auto
  show "NUL \<notin> set s \<Longrightarrow> x \<in> set (split s d) \<Longrightarrow> NUL \<notin> set x"
    using * [of "split s d"] split_join [of d s] by auto
qed

lemma normalizeLogical_Inr:
  assumes "normalizeLogical logical = Inr norm"
  obtains comps where "norm = join_with CHR ''/'' comps" and "\<forall>c \<in> set comps. clean_component c"
    and "normalize_go (split logical CHR ''/'') [] = Inr comps" and "NUL \<notin> set logical"
proof -
  from assms obtain comps where c: "normalize_go (split logical CHR ''/'') [] = Inr comps"
    and n: "NUL \<notin> set logical" and norm: "norm = (if comps = [] then [] else join_loop comps 0 [])"
    by (auto simp: normalizeLogical_def hasNul_def split: if_splits sum.splits)
  have "\<forall>x \<in> set (split logical CHR ''/''). CHR ''/'' \<notin> set x \<and> NUL \<notin> set x"
    using split_no_delim split_no_NUL n by blast
  then have "\<forall>c \<in> set comps. clean_component c" using normalize_go_clean [OF c] by simp
  then show ?thesis using that c n norm join_loop_join by (cases "comps = []") auto
qed

lemma split_clean_join:
  "\<forall>c \<in> set comps. clean_component c \<Longrightarrow> comps \<noteq> [] \<Longrightarrow>
     split (join_with CHR ''/'' comps) CHR ''/'' = comps"
  by (rule split_join_with) (auto simp: clean_component_def)

lemma join_with_empty_iff:
  "\<forall>c \<in> set comps. clean_component c \<Longrightarrow> join_with d comps = [] \<longleftrightarrow> comps = []"
  by (cases comps; cases "tl comps") (auto simp: clean_component_def)

lemma join_with_set: "c \<in> set (join_with d xs) \<Longrightarrow> c = d \<or> (\<exists>x \<in> set xs. c \<in> set x)"
  by (induction d xs rule: join_with.induct) auto

lemma norm_no_NUL: "normalizeLogical logical = Inr norm \<Longrightarrow> NUL \<notin> set norm"
  by (erule normalizeLogical_Inr) (auto simp: clean_component_def NUL_def dest: join_with_set)

section \<open>Facts on resolution\<close>

lemma guarded_Ret: "guarded b e k = Ret x \<longleftrightarrow> b = Some True \<and> k = Ret x"
  by (auto simp: guarded_def split: option.splits bool.splits)

lemma resolve_parts_inside:
  assumes "resolve_parts P f root norm mustExist parts cur = Ret p" and "root \<noteq> []"
    and "\<forall>c \<in> set parts. CHR ''/'' \<notin> set c"
  shows "startsWithPath p root = Some True"
  using assms
proof (induction parts arbitrary: cur)
  case Nil
  then show ?case by (auto simp: guarded_Ret isInside_def)
next
  case (Cons name parts)
  show ?case
  proof (cases "name = []")
    case True
    with Cons show ?thesis by simp
  next
    case False
    then show ?thesis
      using Cons.prems Cons.IH
      by (auto simp: Let_def guarded_Ret isInside_def startsWithPath_joinPath
          split: option.splits if_splits sum.splits)
  qed
qed

text \<open>Canonical absolute paths: what \<open>realpath\<close> is documented to return.\<close>

definition canonical :: "string \<Rightarrow> bool" where
  "canonical p \<longleftrightarrow> p = ''/'' \<or>
     (p \<noteq> [] \<and> hd p = CHR ''/'' \<and>
      (\<forall>c \<in> set (split (tl p) CHR ''/''). c \<noteq> [] \<and> c \<noteq> ''.'' \<and> c \<noteq> ''..''))"

definition realpath_canonical :: "'f posix \<Rightarrow> 'f \<Rightarrow> bool" where
  "realpath_canonical P f \<longleftrightarrow> (\<forall>q r. os_realpath P q f = Some r \<longrightarrow> canonical r)"

lemma canonical_nonempty: "canonical p \<Longrightarrow> p \<noteq> []"
  by (auto simp: canonical_def)

lemma split_snoc: "d \<notin> set x \<Longrightarrow> split (s @ d # x) d = split s d @ [x]"
proof -
  assume x: "d \<notin> set x"
  have "s @ d # x = join_with d (split s d @ [x])"
    by (simp add: join_with_append split_join)
  moreover have "split (join_with d (split s d @ [x])) d = split s d @ [x]"
    using x split_no_delim by (intro split_join_with) auto
  ultimately show ?thesis by simp
qed

lemma split_single: "d \<notin> set x \<Longrightarrow> split x d = [x]"
  by (simp add: split_def split_go_last)

lemma canonical_parts:
  assumes "canonical p" and "p \<noteq> ''/''"
  shows "p \<noteq> []" and "hd p = CHR ''/''"
    and "\<forall>c \<in> set (split (tl p) CHR ''/''). c \<noteq> [] \<and> c \<noteq> ''.'' \<and> c \<noteq> ''..''"
  using assms unfolding canonical_def by blast+

lemma canonical_last:
  assumes "canonical p" and "p \<noteq> ''/''"
  shows "last p \<noteq> CHR ''/''"
proof
  assume l: "last p = CHR ''/''"
  note p = canonical_parts [OF assms]
  have "tl p \<noteq> []" using p(1,2) assms(2) by (cases p) auto
  then have "tl p = butlast (tl p) @ CHR ''/'' # []"
    using l p(1) by (metis append_butlast_last_id last_tl)
  then have "[] \<in> set (split (tl p) CHR ''/'')"
    using split_snoc [of "CHR ''/''" "[]" "butlast (tl p)"] by (metis empty_iff empty_set in_set_conv_decomp)
  with p(3) show False by blast
qed

lemma canonical_joinPath:
  assumes "canonical cur" and "clean_component name"
  shows "canonical (joinPath cur name)"
proof (cases "cur = ''/''")
  case True
  with assms(2) show ?thesis
    by (simp add: canonical_def clean_component_def joinPath_last split_single)
next
  case False
  have name: "name \<noteq> []" "CHR ''/'' \<notin> set name" "name \<noteq> ''.''" "name \<noteq> ''..''"
    using assms(2) by (simp_all add: clean_component_def)
  have j: "joinPath cur name = cur @ CHR ''/'' # name"
    using canonical_last [OF assms(1) False] canonical_nonempty [OF assms(1)] name
    by (simp add: joinPath_last)
  have cur: "cur \<noteq> []" "hd cur = CHR ''/''"
    "\<forall>c \<in> set (split (tl cur) CHR ''/''). c \<noteq> [] \<and> c \<noteq> ''.'' \<and> c \<noteq> ''..''"
    using assms(1) False by (auto simp: canonical_def)
  then have "tl (joinPath cur name) = tl cur @ CHR ''/'' # name" by (simp add: j)
  then have "split (tl (joinPath cur name)) CHR ''/'' = split (tl cur) CHR ''/'' @ [name]"
    using split_snoc name by simp
  with cur name show ?thesis by (auto simp: canonical_def j)
qed

lemma resolve_parts_canonical:
  assumes "resolve_parts P f root norm mustExist parts cur = Ret p" and "canonical cur"
    and "realpath_canonical P f" and "\<forall>c \<in> set parts. clean_component c"
  shows "canonical p"
  using assms
proof (induction parts arbitrary: cur)
  case Nil
  then show ?case by (auto simp: guarded_Ret)
next
  case (Cons name parts)
  have name: "name \<noteq> []" "clean_component name" using Cons.prems(4) by (auto simp: clean_component_def)
  have next_ok: "canonical (joinPath cur name)" using Cons.prems(2) name by (simp add: canonical_joinPath)
  have rest: "\<forall>c \<in> set parts. clean_component c" using Cons.prems(4) by simp
  note IH = Cons.IH [OF _ _ Cons.prems(3) rest]
  show ?case
  proof (cases "os_lstat P (c_str (joinPath cur name)) f")
    case None
    with Cons.prems(1) name next_ok show ?thesis by (auto simp: Let_def guarded_Ret split: if_splits)
  next
    case (Some st)
    show ?thesis
    proof (cases "S_ISLNK (st_mode st)")
      case True
      with Some Cons.prems(1) name obtain real where
        "mustRealpath P f (joinPath cur name) = Inr real"
        and r: "resolve_parts P f root norm mustExist parts real = Ret p"
        by (auto simp: Let_def guarded_Ret split: sum.splits)
      then have "canonical real"
        using Cons.prems(3) by (auto simp: mustRealpath_def realpath_canonical_def split: option.splits)
      with r show ?thesis by (rule IH)
    next
      case False
      with Some Cons.prems(1) name have "resolve_parts P f root norm mustExist parts (joinPath cur name) = Ret p"
        by (auto simp: Let_def split: option.splits if_splits)
      then show ?thesis using next_ok by (rule IH)
    qed
  qed
qed

section \<open>Properties\<close>

text \<open>a normalised logical path is clean and stable. The result of \<open>normalizeLogical\<close> is
  empty or consists of components none of which is empty, \<open>.\<close>, \<open>..\<close>, \<open>~\<close> or contains a
  backslash, a slash or a NUL byte; normalising it again, with or without a leading slash, gives
  it back.\<close>

theorem normalizeLogical_clean_idempotent:
  assumes "normalizeLogical logical = Inr norm"
  shows "(norm = [] \<or> (\<forall>c \<in> set (split norm CHR ''/''). clean_component c))
    \<and> normalizeLogical norm = Inr norm \<and> normalizeLogical (CHR ''/'' # norm) = Inr norm"
proof -
  obtain comps where norm: "norm = join_with CHR ''/'' comps"
    and clean: "\<forall>c \<in> set comps. clean_component c"
    using assms by (rule normalizeLogical_Inr)
  have nul: "\<not> hasNul norm" "\<not> hasNul (CHR ''/'' # norm)"
    using norm_no_NUL [OF assms] by (simp_all add: hasNul_def NUL_def)
  show ?thesis
  proof (cases "comps = []")
    case True
    have "split [] CHR ''/'' = [[]]" "split [CHR ''/''] CHR ''/'' = [[], []]" by (simp_all add: split_def)
    with True nul show ?thesis
      by (simp add: norm normalizeLogical_def normalize_go_skip)
  next
    case False
    have s: "split norm CHR ''/'' = comps" unfolding norm by (rule split_clean_join [OF clean False])
    then have s': "split (CHR ''/'' # norm) CHR ''/'' = [] # comps"
      using split_go_acc [of "CHR ''/''" norm "[[]]" "[]"] by (simp add: split_def)
    show ?thesis
      using clean False nul s s' norm
      by (simp add: normalizeLogical_def normalize_go_skip normalize_go_id join_loop_join)
  qed
qed

theorem normalizeLogical_clean_idempotent_witness:
  "normalizeLogical ''/a/./b//../c'' = Inr ''a/c'' \<and> normalizeLogical ''/a/c'' = Inr ''a/c''"
proof -
  have h: "normalizeLogical ''/a/./b//../c'' = Inr ''a/c''"
    by (simp add: normalizeLogical_def hasNul_def NUL_def split_def normalize_go.simps)
  show ?thesis using h normalizeLogical_clean_idempotent [OF h] by simp
qed

lemma resolve_inside:
  assumes "realpath_canonical P f" and "resolve P f userRoot logical mustExist = Ret p"
  shows "\<exists>root. os_realpath P (c_str userRoot) f = Some root \<and> canonical p \<and>
    (p = root \<or> (\<exists>rest. p = (if last root = CHR ''/'' then root else root @ ''/'') @ rest))"
proof -
  obtain root norm where r: "mustRealpath P f userRoot = Inr root"
    and n: "normalizeLogical logical = Inr norm"
    and p: "norm = [] \<and> p = root \<or>
      norm \<noteq> [] \<and> resolve_parts P f root norm mustExist (split norm CHR ''/'') root = Ret p"
    using assms(2) by (auto simp: resolve_def split: if_splits sum.splits)
  have root: "os_realpath P (c_str userRoot) f = Some root"
    using r by (auto simp: mustRealpath_def split: option.splits)
  then have can: "canonical root" using assms(1) by (simp add: realpath_canonical_def)
  have "canonical p \<and> startsWithPath p root = Some True"
    using p
  proof
    assume "norm = [] \<and> p = root"
    with can show ?thesis by (simp add: startsWithPath_def)
  next
    assume "norm \<noteq> [] \<and> resolve_parts P f root norm mustExist (split norm CHR ''/'') root = Ret p"
    then have ne: "norm \<noteq> []"
      and res: "resolve_parts P f root norm mustExist (split norm CHR ''/'') root = Ret p" by simp_all
    obtain comps where comps: "norm = join_with CHR ''/'' comps" "\<forall>c \<in> set comps. clean_component c"
      using n by (rule normalizeLogical_Inr)
    then have "split norm CHR ''/'' = comps"
      using ne split_clean_join [OF comps(2)] by (cases "comps = []") auto
    then have "canonical p"
      using resolve_parts_canonical [OF res can assms(1)] comps(2) by simp
    moreover have "startsWithPath p root = Some True"
      using resolve_parts_inside [OF res canonical_nonempty [OF can]] split_no_delim by blast
    ultimately show ?thesis ..
  qed
  then show ?thesis
    using root canonical_nonempty [OF can] by (simp add: startsWithPath_iff)
qed

text \<open>C8: no client path leaves the user's root. Whatever the file system contains, symbolic
  links included, a path that \<open>resolve\<close> returns is the resolved root of the user or lies below
  it, separated by a slash, and has no \<open>.\<close> or \<open>..\<close> component that could lead out again. Of
  \<open>lstat\<close> nothing is assumed, of \<open>realpath\<close> that its results are canonical paths.\<close>

theorem resolve_stays_inside_root:
  assumes "realpath_canonical P f" and "resolve P f userRoot logical mustExist = Ret p"
  shows "\<exists>root. os_realpath P (c_str userRoot) f = Some root \<and> canonical p \<and>
    (p = root \<or> (\<exists>rest. p = (if last root = CHR ''/'' then root else root @ ''/'') @ rest))"
  using assms by (rule resolve_inside)

end
