(* ===== verification/Store_Properties.thy ===== *)
theory Store_Properties
  imports Store_Invariant Reference_Env Path_Guard "HOL-Library.Code_Target_Nat"
begin

text \<open>
  The properties of the object store, stated over the operations of \<open>src/transfer.cpp\<close>: what
  releasing a path does to shared and to unshared content, what the reference count counts, and
  that every sequence of operations of a connection keeps the three services consistent.
\<close>

section \<open>States and steps\<close>

text \<open>The services are up and agree with each other.\<close>

definition store_ok :: "('r, 'm, 'f) env \<Rightarrow> ('r \<Rightarrow> string \<Rightarrow> string option) \<Rightarrow> ('r \<Rightarrow> string \<Rightarrow> string set) \<Rightarrow>
    ('m \<Rightarrow> int \<times> string \<Rightarrow> indexed_file option) \<Rightarrow> (string \<Rightarrow> string) \<Rightarrow> string set \<Rightarrow>
    ('r, 'm, 'f, 'z) world_scheme \<Rightarrow> bool" where
  "store_ok A strs sets fi ck S w \<longleftrightarrow>
     ctx_set w \<and> redis_ready (rds A) strs sets (w_redis w) \<and> \<not> pool_stopping w \<and>
     refs_inv ck S (strs (w_redis w)) (sets (w_redis w)) (fi (w_mysql w))"

text \<open>The paths whose entry names a digest.\<close>

definition holders :: "('r \<Rightarrow> string \<Rightarrow> string option) \<Rightarrow> string \<Rightarrow> ('r, 'm, 'f, 'z) world_scheme \<Rightarrow> (int \<times> string) set" where
  "holders strs m w = {(u, p). strs (w_redis w) (pathKey u p) = Some m}"

text \<open>An open upload is for a path in use, under a digest of 32 characters.\<close>

definition session_ok :: "string set \<Rightarrow> upload_session \<Rightarrow> bool" where
  "session_ok S x \<longleftrightarrow> (0 \<le> us_fd x \<longrightarrow> us_virtualPath x \<in> S \<and> length (us_md5 x) = 32)"

text \<open>A run that came to an end, by returning or by throwing.\<close>

definition ran :: "('s, 'a) cpp \<Rightarrow> 's \<Rightarrow> 's \<Rightarrow> bool" where
  "ran m w w' \<longleftrightarrow> (\<exists>x. m w = (Ret x, w')) \<or> (\<exists>e. m w = (Raise e, w'))"

text \<open>What \<open>onUploadBegin\<close> and \<open>onDownloadBegin\<close> of \<open>src/connection.cpp\<close> do to the sessions.\<close>

definition open_upload :: "('r, 'm, 'f) env \<Rightarrow> user_session \<Rightarrow> string \<Rightarrow> string \<Rightarrow> string \<Rightarrow> u64 \<Rightarrow>
    (('r, 'm, 'f, 'z) tstate_scheme, unit) cpp" where
  "open_upload A session dest p m n =
     bindE (closeUpload A) (\<lambda>_.
     bindE (beginUpload A session dest p m n) (\<lambda>st.
     modify (\<lambda>w. w\<lparr>upload := st\<rparr>)))"

definition open_download :: "('r, 'm, 'f) env \<Rightarrow> user_session \<Rightarrow> string \<Rightarrow>
    (('r, 'm, 'f, 'z) tstate_scheme, unit) cpp" where
  "open_download A session p =
     bindE (closeDownload A) (\<lambda>_.
     bindE (beginDownload A session p) (\<lambda>st.
     modify (\<lambda>w. w\<lparr>download := st\<rparr>)))"

text \<open>
  One operation of a connection. Renaming needs a target without content and different from the
  source, and a source whose row, if it is that of a file, has a digest; \<open>mkdir\<close> indexes a path
  without content. The code does not check these; see the findings.
\<close>

inductive transfer_step :: "('r, 'm, 'f) env \<Rightarrow> ('r \<Rightarrow> string \<Rightarrow> string option) \<Rightarrow>
    ('m \<Rightarrow> int \<times> string \<Rightarrow> indexed_file option) \<Rightarrow> (string \<Rightarrow> string) \<Rightarrow> string set \<Rightarrow>
    ('r, 'm, 'f) tstate \<Rightarrow> ('r, 'm, 'f) tstate \<Rightarrow> bool"
  for A :: "('r, 'm, 'f) env" and strs fi ck S
where
  upload_begin: "p \<in> S \<Longrightarrow> ran (open_upload A ses dest p m n) w w' \<Longrightarrow> transfer_step A strs fi ck S w w'"
| upload_chunk: "ran (writeChunk A off data len) w w' \<Longrightarrow> transfer_step A strs fi ck S w w'"
| upload_end: "ran (finishUpload A ses) w w' \<Longrightarrow> transfer_step A strs fi ck S w w'"
| instant_query: "ran (queryInstant A ses m n) w w' \<Longrightarrow> transfer_step A strs fi ck S w w'"
| instant_upload: "p \<in> S \<Longrightarrow> length m = 32 \<Longrightarrow> NUL \<notin> set m \<Longrightarrow>
    ran (instantUpload A ses dest p m n off proof ow) w w' \<Longrightarrow> transfer_step A strs fi ck S w w'"
| download_begin: "p \<in> S \<Longrightarrow> ran (open_download A ses p) w w' \<Longrightarrow> transfer_step A strs fi ck S w w'"
| download_chunk: "ran (readChunk A off len) w w' \<Longrightarrow> transfer_step A strs fi ck S w w'"
| remove: "p \<in> S \<Longrightarrow> ran (removeUserPath A ses phys p) w w' \<Longrightarrow> transfer_step A strs fi ck S w w'"
| rename: "p \<in> S \<Longrightarrow> q \<in> S \<Longrightarrow> p \<noteq> q \<Longrightarrow> strs (w_redis w) (pathKey (s_userId ses) q) = None \<Longrightarrow>
    (\<And>i. fi (w_mysql w) (s_userId ses, ck p) = Some i \<Longrightarrow> \<not> if_isDir i \<Longrightarrow> if_md5 i \<noteq> []) \<Longrightarrow>
    ran (renameUserPath A ses phys p phys' q) w w' \<Longrightarrow> transfer_step A strs fi ck S w w'"
| index_dir: "p \<in> S \<Longrightarrow> strs (w_redis w) (pathKey u p) = None \<Longrightarrow>
    ran (indexFile A u p [] 0 True ''ready'') w w' \<Longrightarrow> transfer_step A strs fi ck S w w'"

inductive_cases transfer_stepE: "transfer_step A strs fi ck S w w'"

lemma ran_triple: "triple P m (\<lambda>_. Q) Q \<Longrightarrow> P w \<Longrightarrow> ran m w w' \<Longrightarrow> Q w'"
  unfolding ran_def using triple_Ret triple_Raise by fastforce

lemma triple_disj:
  "triple P m Q E \<Longrightarrow> triple P' m Q E \<Longrightarrow> triple (\<lambda>s. P s \<or> P' s) m Q E"
  unfolding triple_def by simp

lemma ran_more:
  assumes "more_frame m" and "ran m w w'"
  shows "upload w' = upload w" "download w' = download w"
proof -
  have "world.more (snd (m w)) = world.more w" by (rule more_frameD [OF assms(1)])
  with assms(2) have "world.more w' = world.more w" unfolding ran_def by force
  then show "upload w' = upload w" "download w' = download w" by (cases w; cases w'; simp)+
qed

section \<open>The abstract store\<close>

text \<open>
  What the object store promises its clients: a map from a user's path to the digest of its
  content. \<open>Put\<close> is the replacement at the end of an upload (release what the path referred to, then
  add the new reference), \<open>Drop\<close> a removal.
\<close>

datatype content_op = Put int string string u64 | Drop int string

definition content_of :: "('r \<Rightarrow> string \<Rightarrow> string option) \<Rightarrow> ('r, 'm, 'f, 'z) world_scheme \<Rightarrow> int \<times> string \<Rightarrow> string option" where
  "content_of strs w = (\<lambda>(u, p). strs (w_redis w) (pathKey u p))"

fun spec_op :: "content_op \<Rightarrow> (int \<times> string \<Rightarrow> string option) \<Rightarrow> (int \<times> string \<Rightarrow> string option)" where
  "spec_op (Put u p m n) c = c((u, p) \<mapsto> m)"
| "spec_op (Drop u p) c = c((u, p) := None)"

fun run_op :: "('r, 'm, 'f) env \<Rightarrow> content_op \<Rightarrow> (('r, 'm, 'f, 'z) world_scheme, unit) cpp" where
  "run_op A (Put u p m n) = bindE (releaseContentRef A u p) (\<lambda>_. addContentRef A u p m n)"
| "run_op A (Drop u p) = releaseContentRef A u p"

fun op_ok :: "string set \<Rightarrow> content_op \<Rightarrow> bool" where
  "op_ok S (Put u p m n) \<longleftrightarrow> p \<in> S \<and> length m = 32 \<and> NUL \<notin> set m"
| "op_ok S (Drop u p) \<longleftrightarrow> p \<in> S"

section \<open>Every step keeps the store consistent\<close>

lemma os_frame_beginUpload: "os_frame (beginUpload A ses dest p m n)"
  unfolding beginUpload_def Let_def by (intro os_frame_intros)

lemma beginUpload_Ret:
  assumes "beginUpload A ses dest p m n w = (Ret st, w')"
  shows "us_virtualPath st = p \<and> us_md5 st = m \<and> length m = 32 \<and> us_totalSize st = n \<and> n \<le> maxUploadBytes (cfg A)"
  using assms unfolding beginUpload_def Let_def
  by (auto elim!: bindE_RetD split: if_splits option.splits sum.splits)

lemma t_more:
  fixes m :: "(('r, 'm, 'f, 'z) tstate_scheme, 'x) cpp"
  assumes "more_frame m"
  shows "triple (\<lambda>w. K (upload w)) m (\<lambda>_ w. K (upload w)) (\<lambda>w. K (upload w))"
  unfolding triple_def
proof (intro allI impI)
  fix w :: "('r, 'm, 'f, 'z) tstate_scheme"
  assume k: "K (upload w)"
  have "world.more (snd (m w)) = world.more w" by (rule more_frameD [OF assms])
  then have "upload (snd (m w)) = upload w" by (cases w; cases "snd (m w)") simp
  with k show "case m w of (Ret x, t) \<Rightarrow> K (upload t) | (Raise e, t) \<Rightarrow> K (upload t) | (Blocked, t) \<Rightarrow> True | (Undef, t) \<Rightarrow> True"
    by (cases "m w"; cases "fst (m w)") auto
qed

text \<open>The upload session through the operations that change it.\<close>

lemma closeUpload_session:
  "triple (\<lambda>w. True) (closeUpload A) (\<lambda>_ w. us_fd (upload w) < 0) (\<lambda>w. False)"
  by (auto simp: triple_def closeUpload_def bindE_def close_fd_def on_os_run split: prod.splits outcome.splits)

lemma open_upload_session:
  assumes "p \<in> S"
  shows "triple (\<lambda>w. True) (open_upload A ses dest p m n) (\<lambda>_ w. session_ok S (upload w)) (\<lambda>w. session_ok S (upload w))"
  unfolding open_upload_def
proof (rule triple_bind [where R = "\<lambda>_ w. us_fd (upload w) < 0"])
  show "triple (\<lambda>w. True) (closeUpload A) (\<lambda>_ w. us_fd (upload w) < 0) (\<lambda>w. session_ok S (upload w))"
    by (rule triple_conseq [OF closeUpload_session]) simp_all
  fix x
  show "triple (\<lambda>w. us_fd (upload w) < 0) (bindE (beginUpload A ses dest p m n) (\<lambda>st. modify (\<lambda>w. w\<lparr>upload := st\<rparr>)))
      (\<lambda>_ w. session_ok S (upload w)) (\<lambda>w. session_ok S (upload w))"
  proof (rule triple_bind [where R = "\<lambda>st w. us_fd (upload w) < 0 \<and> us_virtualPath st = p \<and> length (us_md5 st) = 32"])
    show "triple (\<lambda>w. us_fd (upload w) < 0) (beginUpload A ses dest p m n)
        (\<lambda>st w. us_fd (upload w) < 0 \<and> us_virtualPath st = p \<and> length (us_md5 st) = 32) (\<lambda>w. session_ok S (upload w))"
      by (rule triple_conseq [OF triple_result [OF t_more [where K = "\<lambda>x. us_fd x < 0"]]], rule os_more_frame [OF os_frame_beginUpload],
          drule beginUpload_Ret, assumption, assumption) (auto simp: session_ok_def)
  qed (rule triple_modify, simp add: session_ok_def assms)
qed

lemma writeChunk_session:
  "triple (\<lambda>w. session_ok S (upload w)) (writeChunk A off data len) (\<lambda>_ w. session_ok S (upload w)) (\<lambda>w. session_ok S (upload w))"
  by (auto simp: triple_def writeChunk_def Let_def bindE_def on_os_run session_ok_def split: prod.splits outcome.splits if_splits)

lemma finishUpload_session:
  "triple (\<lambda>w. session_ok S (upload w)) (finishUpload A ses) (\<lambda>_ w. session_ok S (upload w)) (\<lambda>w. session_ok S (upload w))"
  unfolding finishUpload_def
  by (rule triple_bind [where R = "\<lambda>_ w. session_ok S (upload w)"], rule triple_gets, assumption,
      rule triple_if, rule triple_throw, assumption,
      rule triple_bind [OF t_more [where K = "session_ok S"]], (intro more_frame_intros)[1],
      rule triple_bind [OF t_more [where K = "session_ok S"]], (intro more_frame_intros)[1],
      rule triple_bind [OF triple_modify [where Q = "\<lambda>_ w. session_ok S (upload w)"]], simp add: session_ok_def,
      rule t_more [where K = "session_ok S"], (intro more_frame_intros)[1])

context content_env
begin

lemma fine_iff: "store_ok A strs sets fi ck S w \<longleftrightarrow> fine w"
  by (simp add: store_ok_def free_def)

lemma t_resolve_any: "triple (st J) (resolveObjectPath A m) (\<lambda>_. st J) (st J)"
proof -
  have "triple (st J) (getObjectPath A m) (\<lambda>_. st J) (st J)"
    by (rule triple_runI) (simp add: store_runs)
  then show ?thesis
    unfolding resolveObjectPath_def
    by (rule triple_bind) (rule triple_if, rule triple_return, assumption, rule triple_liftS, assumption, assumption)
qed

lemma t_setChallenge: "triple fine (setChallenge A t m off len) (\<lambda>_. fine) fine"
proof (rule triple_runI)
  fix w :: "('r, 'm, 'f, 'z) world_scheme"
  assume h: "fine w"
  define k where "k = c_str (chalKey t m)"
  define v where "v = to_string_nat (unat off) @ '':'' @ to_string_nat (unat len)"
  have k: "pathKey u q \<noteq> k" "refsKey d \<noteq> k" for u q d
    by (simp_all add: k_def c_str_chal pathKey_def refsKey_def)
  then have nr: "k \<notin> range refsKey" by (metis rangeE)
  let ?r = "rcmd (rds A) [''SETEX'', k, to_string_int 120, v] (w_redis w)"
  have "setChallenge A t m off len w = (Ret (), w\<lparr>w_redis := ?r\<rparr>)"
    using h by (simp add: setChallenge_def cmd_runs k_def v_def)
  moreover have "refs_inv ck S (strs ?r) (sets ?r) (fi (w_mysql w))"
    using h k by (auto simp: SETEX_effect intro: refs_inv_cong)
  ultimately show "(\<exists>t'. setChallenge A t m off len w = (Blocked, t')) \<or>
      (\<exists>x t'. setChallenge A t m off len w = (Ret x, t') \<and> fine t')"
    using h nr by (simp add: free_def)
qed

lemma t_query: "triple fine (queryInstant A ses m n) (\<lambda>_. fine) fine"
  unfolding queryInstant_def
  by (rule triple_if, rule triple_throw, assumption, rule triple_bind [OF t_resolve_any],
      rule triple_bind [OF t_fileExists], rule triple_bind [OF t_fine], (intro os_frame_intros)[1],
      rule triple_if, rule triple_return, assumption, rule triple_case_prod,
      rule triple_bind [OF t_setChallenge], rule triple_return, assumption)

lemma t_closeUpload: "triple fine (closeUpload A) (\<lambda>_. fine) fine"
  unfolding closeUpload_def
  by (rule triple_bind [OF t_gets], rule triple_if, rule triple_bind [OF t_close], rule triple_modify, simp,
      rule triple_return, assumption)

lemma t_closeDownload: "triple fine (closeDownload A) (\<lambda>_. fine) fine"
  unfolding closeDownload_def
  by (rule triple_bind [OF t_gets], rule triple_if, rule triple_bind [OF t_close], rule triple_modify, simp,
      rule triple_return, assumption)

lemma t_open_upload: "triple fine (open_upload A ses dest p m n) (\<lambda>_. fine) fine"
  unfolding open_upload_def
  by (rule triple_bind [OF t_closeUpload], rule triple_bind [OF t_fine [OF os_frame_beginUpload]],
      rule triple_modify, simp)

lemma t_open_download: "triple fine (open_download A ses p) (\<lambda>_. fine) fine"
proof -
  have get: "triple fine (getPathMd5 A u q) (\<lambda>_. fine) fine" for u q
    by (rule triple_post [OF t_getPath]) blast
  have look: "triple fine (lookupFile A u q) (\<lambda>_. fine) fine" for u q
    by (rule triple_post [OF t_lookup]) blast
  have "triple fine (beginDownload A ses p) (\<lambda>_. fine) fine"
    unfolding beginDownload_def
    by (rule triple_bind [OF t_fine], rule os_frame_intros, rule triple_bind [OF get],
        rule triple_bind [where R = "\<lambda>_. fine"], rule triple_if, rule triple_bind [OF look], rule t_fine,
        (intro os_frame_intros)[1], rule triple_return, assumption,
        rule triple_bind [OF t_resolve_any], rule t_fine, (intro os_frame_intros)[1])
  then show ?thesis
    unfolding open_download_def
    by (rule triple_bind [OF t_closeDownload triple_bind]) (rule triple_modify, simp)
qed

lemma t_writeChunk: "triple fine (writeChunk A off data len) (\<lambda>_. fine) fine"
  unfolding writeChunk_def Let_def
  by (rule triple_bind [OF t_gets], rule triple_if, rule triple_throw, assumption, rule triple_if, rule triple_throw, assumption,
      rule triple_bind [OF t_os], rule triple_if, rule triple_throw, assumption, rule triple_if,
      rule triple_modify, simp, rule triple_return, assumption)

lemma t_readChunk: "triple fine (readChunk A off len) (\<lambda>_. fine) fine"
  unfolding readChunk_def Let_def by (rule t_fine) (intro os_frame_intros)

lemma t_finish_any:
  "triple (\<lambda>w. fine w \<and> session_ok S (upload w)) (finishUpload A ses) (\<lambda>_. fine) fine"
proof -
  have closed: "triple (\<lambda>w. fine w \<and> us_fd (upload w) < 0) (finishUpload A ses) (\<lambda>_. fine) fine"
    by (auto simp: triple_def finishUpload_def bindE_def)
  show ?thesis
    by (rule triple_pre [OF triple_disj [OF closed t_finishUpload]]) (auto simp: session_ok_def)
qed

lemma step_keeps_store:
  assumes "transfer_step A strs fi ck S w w'" and "fine w" and "session_ok S (upload w)"
  shows "fine w'"
  using assms(1)
proof (cases rule: transfer_step.cases)
  case (upload_begin p ses dest m n)
  then show ?thesis by (elim ran_triple [OF t_open_upload assms(2)])
next
  case (upload_chunk off data len)
  then show ?thesis by (elim ran_triple [OF t_writeChunk assms(2)])
next
  case (upload_end ses)
  then show ?thesis by (rule ran_triple [OF t_finish_any conjI [OF assms(2,3)]])
next
  case (instant_query ses m n)
  then show ?thesis by (rule ran_triple [OF t_query assms(2)])
next
  case instant_upload
  then show ?thesis by (elim ran_triple [OF t_instantUpload assms(2)])
next
  case (download_begin p ses)
  then show ?thesis by (elim ran_triple [OF t_open_download assms(2)])
next
  case (download_chunk off len)
  then show ?thesis by (rule ran_triple [OF t_readChunk assms(2)])
next
  case (remove p ses phys)
  then show ?thesis by (elim ran_triple [OF t_removeUserPath assms(2)])
next
  case (rename p q ses phys phys')
  then have "st (movable (s_userId ses) p q) w" using assms(2) by (auto simp: free_def)
  with rename show ?thesis by (elim ran_triple [OF t_renameUserPath])
next
  case (index_dir p u)
  then have "st (consist (insert (u, p) {})) w" using assms(2) by (auto simp: free_def)
  from ran_triple [OF t_row this index_dir(3)] index_dir(1) show ?thesis by simp
qed

end

lemma open_download_session:
  "triple (\<lambda>w. K (upload w)) (open_download A ses p) (\<lambda>_ w. K (upload w)) (\<lambda>w. K (upload w))"
proof -
  have "triple (\<lambda>w. K (upload w)) (closeDownload A) (\<lambda>_ w. K (upload w)) (\<lambda>w. K (upload w))"
    unfolding closeDownload_def
    by (rule triple_bind [where R = "\<lambda>_ w. K (upload w)"], rule triple_gets, assumption, rule triple_if,
        rule triple_bind [OF t_more [where K = K]], (intro more_frame_intros)[1], rule triple_modify, simp,
        rule triple_return, assumption)
  then show ?thesis
    unfolding open_download_def
    by (rule triple_bind) (rule triple_bind [OF t_more [where K = K]], (intro more_frame_intros)[1], rule triple_modify, simp)
qed

lemma step_keeps_session:
  assumes "transfer_step A strs fi ck S w w'" and "session_ok S (upload w)"
  shows "session_ok S (upload w')"
  using assms(1)
proof (cases rule: transfer_step.cases)
  case (upload_begin p ses dest m n)
  then show ?thesis by (intro ran_triple [OF open_upload_session TrueI])
next
  case (upload_chunk off data len)
  then show ?thesis by (rule ran_triple [OF writeChunk_session assms(2)])
next
  case (upload_end ses)
  then show ?thesis by (rule ran_triple [OF finishUpload_session assms(2)])
next
  case (download_begin p ses)
  then show ?thesis by (intro ran_triple [OF open_download_session [where K = "session_ok S"] assms(2)])
next
  case (download_chunk off len)
  moreover have "os_frame (readChunk A off len)"
    unfolding readChunk_def Let_def by (intro os_frame_intros)
  ultimately show ?thesis using ran_more(1) [OF os_more_frame] assms(2) by metis
qed (use assms(2) ran_more(1) more_frame_intros in metis)+

section \<open>Releasing a path of a consistent store\<close>

context content_env
begin

lemma consistent_md5:
  assumes "store_ok A strs sets fi ck S w" and "strs (w_redis w) (pathKey u p) = Some m"
  shows "md5_of w u p = m" "p \<in> S" "m \<noteq> []" "c_str p = p" "c_str m = m"
proof -
  have inv: "refs_inv ck S (strs (w_redis w)) (sets (w_redis w)) (fi (w_mysql w))"
    using assms(1) by (simp add: store_ok_def)
  show p: "p \<in> S" and "m \<noteq> []" and "c_str m = m" and "c_str p = p"
    using refs_invD(2) [OF inv assms(2)] no_nul by (auto simp: c_str_id)
  show "md5_of w u p = m"
    using view_md5_inv [OF inv p no_nul [OF p]] assms(2) by (simp add: path_md5_view)
qed

lemma consistent_others:
  assumes "store_ok A strs sets fi ck S w"
  shows "sets (w_redis w) (refsKey m) - {refMember u p} = (\<lambda>(v, q). refMember v q) ` (holders strs m w - {(u, p)})"
proof -
  have "refs_inv ck S (strs (w_redis w)) (sets (w_redis w)) (fi (w_mysql w))"
    using assms by (simp add: store_ok_def)
  from refs_invD(1) [OF this] show ?thesis by (auto simp: holders_def image_iff)
qed

lemma release_keeps_ok:
  assumes "store_ok A strs sets fi ck S w" and "p \<in> S" and "releaseContentRef A u p w = (Ret (), w')"
  shows "store_ok A strs sets fi ck S w'"
  using triple_Ret [OF t_release_keep [OF assms(2), where X = "{}" and E = "\<lambda>_. True"] _ assms(3)] assms(1)
  by (simp add: fine_iff)

lemma add_ok:
  assumes "store_ok A strs sets fi ck S w" and "idle_conns w \<noteq> []"
    and "p \<in> S" and "length m = 32" and "NUL \<notin> set m" and "strs (w_redis w) (pathKey u p) = None"
  obtains w' where "addContentRef A u p m n w = (Ret (), w')" and "store_ok A strs sets fi ck S w'"
    and "idle_conns w' \<noteq> []" and "w_os w' = w_os w"
    and "strs (w_redis w') = (strs (w_redis w))(pathKey u p \<mapsto> m)"
    and "fi (w_mysql w') (u, ck p) = Some (upsert (fi (w_mysql w) (u, ck p)) p m n False ''ready'')"
proof -
  have up: "up w" using assms(1,2) by (simp add: store_ok_def)
  have fit: "fits p m" using room assms(3,4) by simp
  obtain w' where r: "addContentRef A u p m n w = (Ret (), w')" "up w'" "w_os w' = w_os w"
    "strs (w_redis w') = (strs (w_redis w))(pathKey u (c_str p) \<mapsto> m)"
    "fi (w_mysql w') = (fi (w_mysql w))((u, ck p) \<mapsto> upsert (fi (w_mysql w) (u, ck p)) p m n False ''ready'')"
    using addContentRef_run [OF up fit] by metis
  have "st (consist {(u, p)}) w" using assms(1,6) by (simp add: store_ok_def free_def)
  from triple_Ret [OF t_add [OF assms(3-5), where E = "\<lambda>_. True"] this r(1)]
  have "store_ok A strs sets fi ck S w'" by (simp add: fine_iff)
  then show thesis using that r no_nul [OF assms(3)] by (simp add: c_str_id)
qed

lemma release_total:
  assumes "store_ok A strs sets fi ck S w" and "idle_conns w \<noteq> []" and "p \<in> S"
  obtains w' where "releaseContentRef A u p w = (Ret (), w')" and "store_ok A strs sets fi ck S w'"
    and "idle_conns w' \<noteq> []" and "content_of strs w' = (content_of strs w)((u, p) := None)"
proof -
  note res = that
  have inv: "refs_inv ck S (strs (w_redis w)) (sets (w_redis w)) (fi (w_mysql w))"
    using assms(1) by (simp add: store_ok_def)
  have up: "up w" using assms(1,2) by (simp add: store_ok_def)
  have p: "c_str p = p" using no_nul [OF assms(3)] by (simp add: c_str_id)
  have fin: thesis if r: "releaseContentRef A u p w = (Ret (), w')" and "up w'"
    and v: "\<And>v q. strs (w_redis w') (pathKey v q) = (if (v, q) = (u, p) then None else strs (w_redis w) (pathKey v q))" for w'
  proof (rule res [OF r release_keeps_ok [OF assms(1,3) r]])
    show "idle_conns w' \<noteq> []" using \<open>up w'\<close> by blast
    show "content_of strs w' = (content_of strs w)((u, p) := None)"
      by (auto simp: content_of_def fun_eq_iff v)
  qed
  show thesis
  proof (cases "strs (w_redis w) (pathKey u p)")
    case None
    have "md5_of w u p = []"
      using view_md5_inv [OF inv assms(3) no_nul [OF assms(3)]] None by (simp add: path_md5_view)
    then show thesis by (rule release_none [OF up]) (erule fin, assumption, simp add: p)
  next
    case (Some m)
    note c = consistent_md5 [OF assms(1) Some]
    show thesis
    proof (cases "sets (w_redis w) (refsKey (c_str m)) - {refMember u (c_str p)} = {}")
      case False
      show thesis by (rule release_keep [OF up c(1,3) False]) (erule fin, assumption, simp add: p)
    next
      case True
      have "length m = 32" using refs_invD(2) [OF inv Some] by blast
      then obtain obj where "object_path A (val w (objKey (c_str m))) m = Inr obj"
        by (cases "val w (objKey (c_str m)) = []") (simp_all add: object_path_def objectPathFor_def)
      then show thesis by (rule release_gc [OF up c(1,3) True]) (erule fin, assumption, simp add: p)
    qed
  qed
qed

lemma put_total:
  assumes "store_ok A strs sets fi ck S w" and "idle_conns w \<noteq> []" and "op_ok S op"
  shows "\<exists>w'. run_op A op w = (Ret (), w') \<and> store_ok A strs sets fi ck S w' \<and> idle_conns w' \<noteq> [] \<and>
    content_of strs w' = spec_op op (content_of strs w)"
proof (cases op)
  case (Drop u p)
  then have "p \<in> S" using assms(3) by simp
  from release_total [OF assms(1,2) this, of u] show ?thesis unfolding Drop run_op.simps spec_op.simps by metis
next
  case (Put u p m n)
  then have ok: "p \<in> S" "length m = 32" "NUL \<notin> set m" using assms(3) by simp_all
  obtain v where v: "releaseContentRef A u p w = (Ret (), v)" "store_ok A strs sets fi ck S v"
    "idle_conns v \<noteq> []" "content_of strs v = (content_of strs w)((u, p) := None)"
    by (rule release_total [OF assms(1,2) ok(1), of u])
  have "strs (w_redis v) (pathKey u p) = None"
    using fun_cong [OF v(4), of "(u, p)"] by (simp add: content_of_def)
  from add_ok [OF v(2,3) ok this, of n]
  obtain w' where w': "addContentRef A u p m n v = (Ret (), w')" "store_ok A strs sets fi ck S w'"
    "idle_conns w' \<noteq> []" "strs (w_redis w') = (strs (w_redis v))(pathKey u p \<mapsto> m)"
    by metis
  have "content_of strs w' = (content_of strs w)((u, p) \<mapsto> m)"
    using v(4) by (auto simp: content_of_def fun_eq_iff w'(4) split: if_splits)
  then show ?thesis using Put v w' by (simp add: bindE_run)
qed

lemma ops_total:
  assumes "store_ok A strs sets fi ck S w" and "idle_conns w \<noteq> []" and "list_all (op_ok S) ops"
  shows "\<exists>w'. forE ops (run_op A) w = (Ret (), w') \<and> store_ok A strs sets fi ck S w' \<and>
    content_of strs w' = fold spec_op ops (content_of strs w)"
  using assms
proof (induction ops arbitrary: w)
  case (Cons op ops)
  obtain v where v: "run_op A op w = (Ret (), v)" "store_ok A strs sets fi ck S v" "idle_conns v \<noteq> []"
    "content_of strs v = spec_op op (content_of strs w)"
    using put_total [OF Cons.prems(1,2)] Cons.prems(3) by auto
  then show ?case using Cons.IH [OF v(2,3)] Cons.prems(3) by (simp add: bindE_run)
qed simp

end

section \<open>The reference environment is an instance\<close>

interpretation ref_content: content_env ref_env rr_strs ref_sets ref_fi "\<lambda>p. p" "\<lambda>p d. True" "(=)" "{p. NUL \<notin> set p}"
  by unfold_locales simp_all

lemma ref_content_env:
  "content_env ref_env rr_strs ref_sets ref_fi (\<lambda>p. p) (\<lambda>p d. True) (=) {p. NUL \<notin> set p}"
  by (rule ref_content.content_env_axioms)

text \<open>A fresh server, a user, and the digest of a one-byte file.\<close>

definition ref_state :: "(ref_redis, ref_db, ref_fs) tstate" where
  "ref_state = \<lparr>w_os = ref_fs0, w_redis = ref_redis0, ctx_set = True, w_mysql = \<lparr>rd_index = [], rd_users = []\<rparr>,
     idle_conns = [0, 1], pool_stopping = False, upload = no_upload, download = no_download\<rparr>"

definition ref_user :: user_session where
  "ref_user = \<lparr>s_userId = 1, s_username = ''al'', s_rootDir = ''/d/users/al'', s_token = ''t''\<rparr>"

definition ref_md5 :: string where
  "ref_md5 = toHex (ref_sum MD5 ''x'')"

abbreviation "ref_ok \<equiv> store_ok ref_env rr_strs ref_sets ref_fi (\<lambda>p. p) {p. NUL \<notin> set p}"

abbreviation "ref_step \<equiv> transfer_step ref_env rr_strs ref_fi (\<lambda>p. p) {p. NUL \<notin> set p}"

lemma ref_state_ok: "ref_ok ref_state" "session_ok {p. NUL \<notin> set p} (upload ref_state)"
  using ref_redis0_ready
  by (simp_all add: store_ok_def ref_state_def refs_inv_def ref_redis0_def ref_sets_def ref_fi_def
      session_ok_def no_upload_def)

lemma ran_Ret: "fst (m w) = Ret x \<Longrightarrow> ran m w (snd (m w))"
  unfolding ran_def by (metis prod.collapse)

lemma ref_begins: "fst (open_upload ref_env ref_user ''/d/users/al/a'' ''/a'' ref_md5 1 ref_state) = Ret ()"
  by code_simp

lemma ref_writes:
  "fst (writeChunk ref_env 0 ''x'' 1 (snd (open_upload ref_env ref_user ''/d/users/al/a'' ''/a'' ref_md5 1 ref_state))) = Ret ()"
  by code_simp

section \<open>Properties\<close>



text \<open>C6: releasing a path whose content another path still refers to leaves the file system alone;
  the other path keeps its entry, the released one loses its entry and its row, and the store stays
  consistent.\<close>

theorem shared_content_survives_release:
  assumes "content_env A strs sets fi ck fits ceq S" and "store_ok A strs sets fi ck S w" and "idle_conns w \<noteq> []"
    and "(u, p) \<in> holders strs m w" and "(v, q) \<in> holders strs m w" and "(v, q) \<noteq> (u, p)"
  shows "\<exists>w'. releaseContentRef A u p w = (Ret (), w') \<and> w_os w' = w_os w \<and>
    holders strs m w' = holders strs m w - {(u, p)} \<and> fi (w_mysql w') (u, ck p) = None \<and>
    strs (w_redis w') (objKey m) = strs (w_redis w) (objKey m) \<and> store_ok A strs sets fi ck S w'"
proof -
  have e: "strs (w_redis w) (pathKey u p) = Some m" using assms(4) by (simp add: holders_def)
  note c = content_env.consistent_md5 [OF assms(1,2) e]
  have up: "ctx_set w \<and> redis_ready (rds A) strs sets (w_redis w) \<and> \<not> pool_stopping w \<and> idle_conns w \<noteq> []"
    using assms(2,3) by (simp add: store_ok_def)
  have "(v, q) \<in> holders strs m w - {(u, p)}" using assms(5,6) by simp
  then have "sets (w_redis w) (refsKey (c_str m)) - {refMember u (c_str p)} \<noteq> {}"
    unfolding c content_env.consistent_others [OF assms(1,2)] by blast
  from store_env.release_keep [OF content_env.axioms(1) [OF assms(1)] up c(1,3) this]
  obtain w' where r: "releaseContentRef A u p w = (Ret (), w')" "w_os w' = w_os w"
    "strs (w_redis w') = (strs (w_redis w))(pathKey u (c_str p) := None)"
    "fi (w_mysql w') = (fi (w_mysql w))((u, ck p) := None)"
    by metis
  moreover have "holders strs m w' = holders strs m w - {(u, p)}"
    unfolding holders_def r(3) c by auto
  ultimately show ?thesis
    using content_env.release_keeps_ok [OF assms(1,2) c(2) r(1)] by simp
qed

text \<open>Two users holding the same content.\<close>

lemma ref_add:
  assumes "ref_ok w" and "idle_conns w \<noteq> []" and "NUL \<notin> set p" and "rr_strs (w_redis w) (pathKey u p) = None"
  shows "\<exists>w'. addContentRef ref_env u p ref_md5 1 w = (Ret (), w') \<and> ref_ok w' \<and> idle_conns w' \<noteq> [] \<and>
    w_os w' = w_os w \<and> rr_strs (w_redis w') = (rr_strs (w_redis w))(pathKey u p \<mapsto> ref_md5)"
proof -
  have md: "length ref_md5 = 32" "NUL \<notin> set ref_md5" by code_simp+
  show ?thesis
    by (rule ref_content.add_ok [OF assms(1,2) _ md assms(4), where n = 1]) (use assms(3) in blast)+
qed

lemma ref_shared:
  obtains w :: "(ref_redis, ref_db, ref_fs) tstate" where "ref_ok w" and "idle_conns w \<noteq> []"
    and "holders rr_strs ref_md5 w = {(1, ''/a''), (2, ''/b'')}"
proof -
  have free: "rr_strs (w_redis ref_state) (pathKey u p) = None" for u p
    by (simp add: ref_state_def ref_redis0_def)
  have nul: "NUL \<notin> set ''/a''" "NUL \<notin> set ''/b''" and idle: "idle_conns ref_state \<noteq> []"
    by (simp_all add: NUL_def ref_state_def)
  obtain v :: "(ref_redis, ref_db, ref_fs) tstate" where v: "ref_ok v" "idle_conns v \<noteq> []"
    "rr_strs (w_redis v) = (rr_strs (w_redis ref_state))(pathKey 1 ''/a'' \<mapsto> ref_md5)"
    using ref_add [OF ref_state_ok(1) idle nul(1) free] by blast
  have "rr_strs (w_redis v) (pathKey 2 ''/b'') = None" by (simp add: v(3) free)
  then obtain w :: "(ref_redis, ref_db, ref_fs) tstate" where w: "ref_ok w" "idle_conns w \<noteq> []"
    "rr_strs (w_redis w) = (rr_strs (w_redis v))(pathKey 2 ''/b'' \<mapsto> ref_md5)"
    using ref_add [OF v(1,2) nul(2)] by blast
  have "holders rr_strs ref_md5 w = {(1, ''/a''), (2, ''/b'')}"
    unfolding holders_def w(3) v(3) using free by auto
  then show thesis using that w by blast
qed

theorem shared_content_survives_release_witness:
  "\<exists>(w :: (ref_redis, ref_db, ref_fs) tstate) w'. ref_ok w \<and> holders rr_strs ref_md5 w = {(1, ''/a''), (2, ''/b'')} \<and>
    releaseContentRef ref_env 1 ''/a'' w = (Ret (), w') \<and> w_os w' = w_os w \<and>
    holders rr_strs ref_md5 w' = {(2, ''/b'')}"
proof -
  obtain w :: "(ref_redis, ref_db, ref_fs) tstate" where w: "ref_ok w" "idle_conns w \<noteq> []"
    "holders rr_strs ref_md5 w = {(1, ''/a''), (2, ''/b'')}" by (rule ref_shared)
  show ?thesis
    using shared_content_survives_release [OF ref_content_env w(1,2), of 1 "''/a''" ref_md5 2 "''/b''"] w by auto
qed



text \<open>the reference count Redis reports for a digest is the number of paths, of all users, whose
  entry names it.\<close>

theorem refcount_counts_holders:
  assumes "content_env A strs sets fi ck fits ceq S" and "store_ok A strs sets fi ck S w" and "NUL \<notin> set m"
  shows "\<exists>w'. refCount A m w = (Ret (int (card (holders strs m w))), w')"
proof -
  have inv: "refs_inv ck S (strs (w_redis w)) (sets (w_redis w)) (fi (w_mysql w))"
    using assms(2) by (simp add: store_ok_def)
  have "sets (w_redis w) (refsKey m) = (\<lambda>(v, q). refMember v q) ` holders strs m w"
    using refs_invD(1) [OF inv] by (auto simp: holders_def image_iff)
  moreover have "inj_on (\<lambda>(v, q). refMember v q) (holders strs m w)" by (auto intro!: inj_onI)
  ultimately have "card (sets (w_redis w) (refsKey m)) = card (holders strs m w)" by (simp add: card_image)
  moreover have "redis_env A strs sets"
    using content_env.axioms(1) [OF assms(1)] by (rule store_env.axioms)
  then have "refCount A m w = (Ret (int (card (sets (w_redis w) (refsKey (c_str m))))),
      w\<lparr>w_redis := rcmd (rds A) [''SCARD'', refsKey (c_str m)] (w_redis w)\<rparr>)"
    using assms(2) redis_env.cmdSCard_run [of A strs sets w m] by (simp add: refCount_def store_ok_def)
  ultimately show ?thesis using assms(3) by (simp add: c_str_id)
qed

theorem refcount_counts_holders_witness:
  "\<exists>(w :: (ref_redis, ref_db, ref_fs) tstate) w'. holders rr_strs ref_md5 w = {(1, ''/a''), (2, ''/b'')} \<and>
    refCount ref_env ref_md5 w = (Ret 2, w')"
proof -
  obtain w :: "(ref_redis, ref_db, ref_fs) tstate" where w: "ref_ok w" "idle_conns w \<noteq> []"
    "holders rr_strs ref_md5 w = {(1, ''/a''), (2, ''/b'')}" by (rule ref_shared)
  have md: "NUL \<notin> set ref_md5" by code_simp
  show ?thesis using refcount_counts_holders [OF ref_content_env w(1) md] w by auto
qed



section \<open>Path resolution at a concrete file system\<close>

theorem resolve_stays_inside_root_witness:
  "realpath_canonical ref_posix (ref_fs0\<lparr>rf_dirs := [''/d/al'']\<rparr>) \<and>
   resolve ref_posix (ref_fs0\<lparr>rf_dirs := [''/d/al'']\<rparr>) ''/d/al'' ''x/../b'' False = Ret ''/d/al/b'' \<and>
   canonical ''/d/al/b''"
proof -
  let ?f = "ref_fs0\<lparr>rf_dirs := [''/d/al'']\<rparr>"
  have "q = ''/d/al''" if "os_realpath ref_posix p ?f = Some q" for p q
    using that by (simp add: ref_posix_def ref_lstat_def ref_fs0_def split: if_splits)
  moreover have "canonical ''/d/al''" by code_simp
  ultimately have 1: "realpath_canonical ref_posix ?f" unfolding realpath_canonical_def by metis
  have 2: "resolve ref_posix ?f ''/d/al'' ''x/../b'' False = Ret ''/d/al/b''" by code_simp
  show ?thesis using 1 2 resolve_stays_inside_root [OF 1 2] by blast
qed

end
