(* ===== verification/Transfer_Properties.thy ===== *)
theory Transfer_Properties
  imports Store_Properties
begin

text \<open>
  Properties of single operations of \<open>src/transfer.cpp\<close>: the possession proof of an instant
  upload, the bounds of challenges and chunks (at the width of the machine integers), what a
  finished upload has checked, and the descriptors of the sessions.
\<close>

section \<open>Widths\<close>

lemma unat_u64_of_u32 [simp]: "unat (ucast (c :: u32) :: u64) = unat c"
  using unsigned_less [of c, where ?'a = nat] by (simp add: unsigned_ucast_eq take_bit_nat_eq_self)

lemma unat_u32_of_u64: "unat (n :: u64) < 2 ^ 32 \<Longrightarrow> unat (ucast n :: u32) = unat n"
  by (simp add: unsigned_ucast_eq take_bit_nat_eq_self)

lemma u32_less: "unat (c :: u32) < 2 ^ 32"
  using unsigned_less [of c, where ?'a = nat] by simp

lemma u64_less: "unat (n :: u64) < 2 ^ 64"
  using unsigned_less [of n, where ?'a = nat] by simp

text \<open>The end of a chunk, computed in 64 bits: it wraps only where the offset, read as \<open>off_t\<close>, is
  negative.\<close>

lemma unat_chunk_end:
  fixes off :: u64 and len :: u32
  assumes "0 \<le> sint off"
  shows "unat (off + ucast len) = unat off + unat len"
proof -
  have lt: "sint off < 2 ^ 63" using sint_lt [of off] by simp
  then have "uint off = sint off"
    using assms by (simp add: uint_sint take_bit_int_eq_self)
  then have "int (unat off) < 2 ^ 63" using lt by simp
  then have "unat off < 2 ^ 63" by (simp only: of_nat_less_numeral_power_cancel_iff)
  then show ?thesis
    using u32_less [of len] by (simp add: unat_plus_if')
qed

section \<open>Challenges\<close>

text \<open>C27: the slice a client is challenged with lies within the object, at the width of the
  machine integers: offset plus length is at most the size. It is empty only for an empty object and
  never longer than the configured length (4096 when that is 0).\<close>

theorem challenge_within_object:
  assumes "challenge_for A m token n = (off, len)"
  shows "unat off + unat len \<le> unat n \<and> (len = 0 \<longleftrightarrow> n = 0) \<and>
    len \<le> (if challengeBytes (cfg A) = 0 then 4096 else challengeBytes (cfg A))"
proof -
  define c where "c = (if challengeBytes (cfg A) = 0 then 4096 else challengeBytes (cfg A))"
  define l where "l = (if ucast c > n then ucast n else c)"
  define s where "s = (if n > ucast l then n - ucast l else 0)"
  have c: "c \<noteq> 0" by (simp add: c_def)
  show ?thesis
  proof (cases "n = 0")
    case True
    then show ?thesis using assms by (simp add: challenge_for_def Let_def)
  next
    case False
    have eq: "off = (if s \<noteq> 0 then challenge_seed (m @ token) mod s else 0)" "len = l"
      using assms False unfolding challenge_for_def Let_def c_def l_def s_def by auto
    have l: "unat l = min (unat c) (unat n)"
      using u32_less [of c] by (auto simp: l_def word_less_nat_alt unat_u32_of_u64)
    then have ln: "unat l \<le> unat n" by simp
    have s: "unat s = unat n - unat l"
      using ln by (auto simp: s_def word_less_nat_alt unat_sub_if')
    have "unat off \<le> unat s"
      using eq(1) by (cases "s = 0") (simp_all add: unat_mod less_imp_le unat_gt_0)
    then have "unat off + unat len \<le> unat n" using eq(2) s ln by simp
    moreover have "len \<noteq> 0" using eq(2) l c False by (auto simp: unat_eq_zero min_def split: if_splits)
    moreover have "len \<le> c" using eq(2) l by (simp add: word_le_nat_alt)
    ultimately show ?thesis using False c_def by simp
  qed
qed

theorem challenge_within_object_witness:
  "challenge_for ref_env ref_md5 ''t'' 5000 = (550, 4096) \<and> unat (550 :: u64) + unat (4096 :: u32) \<le> unat (5000 :: u64)"
proof -
  have h: "challenge_for ref_env ref_md5 ''t'' 5000 = (550, 4096)" by code_simp
  show ?thesis using h challenge_within_object [OF h] by blast
qed

section \<open>Instant upload\<close>

text \<open>C10: an instant upload that succeeds has passed every check: a challenge was pending for the
  session and the digest, the client named its offset, the object exists and has the announced size, and
  unless the challenged slice is empty the client's proof is the MD5 of exactly that slice of
  the stored object. This holds whatever the services answer.\<close>

theorem instant_upload_proves_possession:
  assumes "instantUpload A ses dest p m n off prf_md5 ow w = (Ret (), w')"
  shows "\<exists>len w1 obj w2. getChallenge A (s_token ses) m w = (Ret (Some (off, len)), w1) \<and>
    resolveObjectPath A m w1 = (Ret obj, w2) \<and> os_lstat (os A) (c_str obj) (w_os w2) \<noteq> None \<and>
    fst (fileSize A obj w2) = Ret n \<and>
    (0 < len \<longrightarrow> fst (md5FileRange A obj off len w2) = Ret prf_md5)"
proof -
  obtain ch w1 where 1: "getChallenge A (s_token ses) m w = (Ret ch, w1)"
    using assms unfolding instantUpload_def by (elim bindE_RetD)
  note b1 = bindE_run(1) [where m = "getChallenge A (s_token ses) m" and s = w, OF 1]
  from assms obtain len where ch: "ch = Some (off, len)"
    unfolding instantUpload_def b1 by (auto split: option.splits if_splits)
  obtain obj w2 where 2: "resolveObjectPath A m w1 = (Ret obj, w2)"
    using assms unfolding instantUpload_def b1 ch by (auto elim: bindE_RetD)
  note b2 = bindE_run(1) [where m = "resolveObjectPath A m" and s = w1, OF 2]
  have "os_lstat (os A) (c_str obj) (w_os w2) \<noteq> None \<and> fst (fileSize A obj w2) = Ret n \<and>
      (0 < len \<longrightarrow> fst (md5FileRange A obj off len w2) = Ret prf_md5)"
    using assms unfolding instantUpload_def b1 ch
    by (auto simp: b2 bindE_run(1) [where m = "fileExists A obj", OF fileExists_run]
        bindE_run(1) [where m = "fileSize A obj", OF fileSize_run] fileSize_run
        elim!: bindE_RetD split: if_splits)
  with 1 2 ch show ?thesis by blast
qed

section \<open>Chunks\<close>

text \<open>\<open>pread\<close> and \<open>pwrite\<close> fail with \<open>EINVAL\<close> on a negative offset and change nothing; \<open>pread\<close>
  delivers at most what was asked for.\<close>

definition positional_io :: "'f posix \<Rightarrow> bool" where
  "positional_io P \<longleftrightarrow>
     (\<forall>fd d off f. off < 0 \<longrightarrow> os_pwrite P fd d off f = (None, f)) \<and>
     (\<forall>fd k off f. off < 0 \<longrightarrow> os_pread P fd k off f = None) \<and>
     (\<forall>fd k off f b. os_pread P fd k off f = Some b \<longrightarrow> length b \<le> k)"

lemma ref_positional: "positional_io ref_posix"
  by (auto simp: positional_io_def ref_posix_def ref_pwrite_def ref_pread_def split: option.splits)

text \<open>C25: a chunk that is accepted lies within the announced size, although the test adds in 64 bits
  and may wrap; it is written at its offset, and the received mark becomes the larger of the
  old one and the chunk's end. Nothing else of the session changes.\<close>

theorem accepted_chunk_within_size:
  assumes "positional_io (os A)" and "writeChunk A off data len w = (Ret (), w')"
  shows "0 \<le> us_fd (upload w) \<and> unat off + unat len \<le> unat (us_totalSize (upload w)) \<and>
    w_os w' = snd (os_pwrite (os A) (us_fd (upload w)) (take (unat len) data) (int (unat off)) (w_os w)) \<and>
    upload w' = (upload w)\<lparr>us_received := max (us_received (upload w)) (off + ucast len)\<rparr>"
proof -
  have acc: "\<not> us_fd (upload w) < 0" "off + ucast len \<le> us_totalSize (upload w)"
    "fst (os_pwrite (os A) (us_fd (upload w)) (take (unat len) data) (sint off) (w_os w)) = Some (unat len)"
    and w': "w' = (w\<lparr>w_os := snd (os_pwrite (os A) (us_fd (upload w)) (take (unat len) data) (sint off) (w_os w))\<rparr>)
       \<lparr>upload := (upload w)\<lparr>us_received := max (us_received (upload w)) (off + ucast len)\<rparr>\<rparr>"
    using assms(2) by (auto simp: writeChunk_def Let_def bindE_def on_os_run max_def not_less split: if_splits)
  have pos: "0 \<le> sint off"
  proof (rule ccontr)
    assume "\<not> 0 \<le> sint off"
    then have "fst (os_pwrite (os A) (us_fd (upload w)) (take (unat len) data) (sint off) (w_os w)) = None"
      using assms(1) by (simp add: positional_io_def)
    then show False using acc(3) by simp
  qed
  have "sint off = int (unat off)"
    using pos sint_lt [of off] uint_sint [of off] by (simp add: take_bit_int_eq_self)
  then show ?thesis
    using acc w' unat_chunk_end [OF pos, of len] by (simp add: word_le_nat_alt)
qed

text \<open>C26: a chunk that does not lie within the announced size is refused and changes neither the
  part file nor the session, also where the 64-bit sum wraps around.\<close>

theorem oversized_chunk_refused:
  assumes "positional_io (os A)" and "unat (us_totalSize (upload w)) < unat off + unat len"
  shows "\<exists>e. writeChunk A off data len w = (Raise e, w)"
proof (cases "0 \<le> sint off")
  case True
  then have "us_totalSize (upload w) < off + ucast len"
    using assms(2) unat_chunk_end [OF True, of len] by (simp add: word_less_nat_alt)
  then show ?thesis by (simp add: writeChunk_def bindE_def)
next
  case False
  then have "os_pwrite (os A) (us_fd (upload w)) (take (unat len) data) (sint off) (w_os w) = (None, w_os w)"
    using assms(1) by (simp add: positional_io_def)
  then show ?thesis by (simp add: writeChunk_def bindE_def on_os_run)
qed

lemma readChunk_within:
  assumes "positional_io (os A)" and "readChunk A off len w = (Ret b, w')"
  shows "w' = w \<and> 0 \<le> ds_fd (download w) \<and> length b \<le> unat len \<and>
    (b \<noteq> [] \<longrightarrow> unat off + length b \<le> unat (ds_totalSize (download w)))"
proof (cases "b = []")
  case True
  then show ?thesis
    using assms(2) by (auto simp: readChunk_def Let_def bindE_def split: if_splits option.splits)
next
  case False
  define t where "t = ds_totalSize (download w)"
  define l where "l = (if off + ucast len > t then ucast (t - off) else len)"
  have r: "0 \<le> ds_fd (download w)" "w' = w" "off < t"
    "os_pread (os A) (ds_fd (download w)) (unat l) (sint off) (w_os w) = Some b"
    using assms(2) False unfolding readChunk_def Let_def bindE_def t_def l_def
    by (auto simp: not_le split: if_splits option.splits)
  have pos: "0 \<le> sint off"
    using assms(1) r(4) unfolding positional_io_def by (metis not_le option.distinct(1))
  have len: "length b \<le> unat l" using assms(1) r(4) by (auto simp: positional_io_def)
  have lt: "unat off < unat t" using r(3) by (simp add: word_less_nat_alt)
  have "unat l \<le> unat len \<and> unat off + unat l \<le> unat t"
  proof (cases "off + ucast len > t")
    case True
    then have over: "unat t < unat off + unat len" using unat_chunk_end [OF pos, of len] by (simp add: word_less_nat_alt)
    have d: "unat (t - off) = unat t - unat off" using lt by (simp add: unat_sub_if')
    then have "unat (t - off) < 2 ^ 32" using over u32_less [of len] by simp
    then show ?thesis using True d over lt by (simp add: l_def unat_u32_of_u64)
  next
    case False
    then have "l = len" by (simp add: l_def)
    then show ?thesis
      using False unat_chunk_end [OF pos, of len] by (simp add: not_less word_le_nat_alt)
  qed
  then show ?thesis using r len unfolding t_def by simp
qed

text \<open>reading a chunk changes nothing and delivers at most the bytes asked for and none beyond the
  size the download was opened with.\<close>

theorem read_chunk_within_size:
  assumes "positional_io (os A)" and "readChunk A off len w = (Ret b, w')"
  shows "w' = w \<and> 0 \<le> ds_fd (download w) \<and> length b \<le> unat len \<and>
    (b \<noteq> [] \<longrightarrow> unat off + length b \<le> unat (ds_totalSize (download w)))"
  using assms by (rule readChunk_within)

text \<open>A session on an open file of three bytes, for uploading and for downloading.\<close>

definition ref_open_state :: "(ref_redis, ref_db, ref_fs) tstate" where
  "ref_open_state = ref_state
     \<lparr>w_os := ref_fs0\<lparr>rf_files := [''/p'' \<mapsto> ''abc''], rf_fds := [3 \<mapsto> (''/p'', 0)], rf_next := 4\<rparr>,
      upload := no_upload\<lparr>us_fd := 3, us_totalSize := 5, us_partPath := ''/p'', us_virtualPath := ''/a'',
        us_md5 := ref_md5\<rparr>,
      download := no_download\<lparr>ds_fd := 3, ds_totalSize := 3\<rparr>\<rparr>"

lemma ref_positional_env: "positional_io (os ref_env)"
  by (simp add: ref_positional)

theorem accepted_chunk_within_size_witness:
  "\<exists>w'. writeChunk ref_env 3 ''de'' 2 ref_open_state = (Ret (), w') \<and>
    upload w' = (upload ref_open_state)\<lparr>us_received := 5\<rparr>"
proof -
  have "fst (writeChunk ref_env 3 ''de'' 2 ref_open_state) = Ret ()" by code_simp
  then obtain w' where r: "writeChunk ref_env 3 ''de'' 2 ref_open_state = (Ret (), w')" by (metis prod.collapse)
  then show ?thesis
    using accepted_chunk_within_size [OF ref_positional_env r] by (simp add: ref_open_state_def no_upload_def)
qed

theorem oversized_chunk_refused_witness:
  "\<exists>e. writeChunk ref_env (- 2) ''abcd'' 4 ref_open_state = (Raise e, ref_open_state)"
  by (rule oversized_chunk_refused [OF ref_positional_env]) (simp add: ref_open_state_def no_upload_def)

theorem read_chunk_within_size_witness:
  "\<exists>w'. readChunk ref_env 1 9 ref_open_state = (Ret ''bc'', w') \<and> w' = ref_open_state"
proof -
  have "fst (readChunk ref_env 1 9 ref_open_state) = Ret ''bc''" by code_simp
  then obtain w' where r: "readChunk ref_env 1 9 ref_open_state = (Ret ''bc'', w')" by (metis prod.collapse)
  then show ?thesis using read_chunk_within_size [OF ref_positional_env r] by blast
qed

section \<open>Finishing an upload\<close>

text \<open>The state in which the checks of \<open>finishUpload\<close> run: flushed and closed.\<close>

definition flushed :: "('r, 'm, 'f) env \<Rightarrow> ('r, 'm, 'f, 'z) tstate_scheme \<Rightarrow> ('r, 'm, 'f, 'z) tstate_scheme" where
  "flushed A w = w\<lparr>w_os := os_close (os A) (us_fd (upload w)) (os_fsync (os A) (us_fd (upload w)) (w_os w)),
     upload := (upload w)\<lparr>us_fd := -1\<rparr>\<rparr>"

lemma finishUpload_flushed:
  assumes "0 \<le> us_fd (upload w)"
  obtains tail where "finishUpload A ses w = bindE (fileSize A (us_partPath (upload w))) tail (flushed A w)"
    and "more_frame (bindE (fileSize A (us_partPath (upload w))) tail)"
    and "\<And>n. n \<noteq> us_totalSize (upload w) \<Longrightarrow> tail n = throw (CloudError Unprocessable ''uploaded size mismatch'')"
    and "\<And>n y v v'. tail n v = (Ret y, v') \<Longrightarrow> fst (md5File A (us_partPath (upload w)) v) = Ret (us_md5 (upload w))"
proof -
  let ?st = "upload w"
  let ?tail = "\<lambda>n. if n \<noteq> us_totalSize ?st then throw (CloudError Unprocessable ''uploaded size mismatch'')
       else
         bindE (md5File A (us_partPath ?st)) (\<lambda>realMd5.
         if realMd5 \<noteq> us_md5 ?st then
           bindE (unlink A (us_partPath ?st)) (\<lambda>_.
           throw (CloudError Unprocessable ''md5 mismatch, transfer corrupted''))
         else
           bindE (lookupFile A (s_userId ses) (us_virtualPath ?st)) (\<lambda>info.
           bindE (if (case info of Some i \<Rightarrow> \<not> if_isDir i | None \<Rightarrow> False) then
                    releaseContentRef A (s_userId ses) (us_virtualPath ?st)
                  else
                    bindE (fileExists A (us_destPath ?st)) (\<lambda>ex.
                    if ex then bindE (unlink A (us_destPath ?st)) (\<lambda>_. return ()) else return ())) (\<lambda>_.
           bindE (publishObject A (us_md5 ?st) (us_partPath ?st) (us_totalSize ?st)) (\<lambda>_.
           bindE (unlink A (us_partPath ?st)) (\<lambda>_.
           addContentRef A (s_userId ses) (us_virtualPath ?st) (us_md5 ?st) (us_totalSize ?st))))))"
  show thesis
  proof (rule that [of ?tail])
    show "finishUpload A ses w = bindE (fileSize A (us_partPath ?st)) ?tail (flushed A w)"
      using assms unfolding finishUpload_def flushed_def
      by (simp add: bindE_run(1) [OF gets_run] bindE_run(1) [OF on_os_run] bindE_run(1) [OF modify_run] close_fd_def)
    show "more_frame (bindE (fileSize A (us_partPath ?st)) ?tail)"
      by (intro more_frame_intros)
    show "\<And>n. n \<noteq> us_totalSize ?st \<Longrightarrow> ?tail n = throw (CloudError Unprocessable ''uploaded size mismatch'')"
      by simp
    show "fst (md5File A (us_partPath ?st) v) = Ret (us_md5 ?st)" if "?tail n v = (Ret y, v')" for n y v v'
      using that by (auto elim!: bindE_RetD split: if_splits)
  qed
qed

text \<open>C16: an upload that finishes successfully has been checked: the part file on disk, flushed and
  closed, has exactly the announced size and its MD5 is the announced digest. The descriptor is
  closed. This holds whatever the services answer.\<close>

theorem finished_upload_verified:
  assumes "finishUpload A ses w = (Ret (), w')"
  shows "0 \<le> us_fd (upload w) \<and> fst (fileSize A (us_partPath (upload w)) (flushed A w)) = Ret (us_totalSize (upload w)) \<and>
    fst (md5File A (us_partPath (upload w)) (flushed A w)) = Ret (us_md5 (upload w)) \<and> us_fd (upload w') = -1"
proof -
  have pos: "0 \<le> us_fd (upload w)"
    using assms by (auto simp: finishUpload_def bindE_def not_less split: if_splits)
  obtain tail where t: "finishUpload A ses w = bindE (fileSize A (us_partPath (upload w))) tail (flushed A w)"
    "more_frame (bindE (fileSize A (us_partPath (upload w))) tail)"
    "\<And>n. n \<noteq> us_totalSize (upload w) \<Longrightarrow> tail n = throw (CloudError Unprocessable ''uploaded size mismatch'')"
    "\<And>n y v v'. tail n v = (Ret y, v') \<Longrightarrow> fst (md5File A (us_partPath (upload w)) v) = Ret (us_md5 (upload w))"
    by (rule finishUpload_flushed [OF pos, of A ses]) blast
  obtain n where n: "fileSize A (us_partPath (upload w)) (flushed A w) = (Ret n, flushed A w)"
    "tail n (flushed A w) = (Ret (), w')"
    using assms t(1) by (auto simp: bindE_def fileSize_run)
  then have "n = us_totalSize (upload w)" using t(3) by force
  moreover have "world.more w' = world.more (flushed A w)"
    using more_frameD [OF t(2), of "flushed A w"] assms t(1) by simp
  then have "upload w' = upload (flushed A w)" by (cases w'; cases "flushed A w") simp
  ultimately show ?thesis using pos n t(4) [OF n(2)] by (simp add: flushed_def)
qed

text \<open>finishing closes the descriptor of the session on every path: whether it succeeds, throws or never
  returns, a session that was open has no descriptor afterwards, so that a later
  \<open>closeUpload\<close> cannot close it twice.\<close>

theorem finish_closes_descriptor:
  assumes "0 \<le> us_fd (upload w)"
  shows "us_fd (upload (snd (finishUpload A ses w))) = -1"
proof -
  obtain tail where t: "finishUpload A ses w = bindE (fileSize A (us_partPath (upload w))) tail (flushed A w)"
    "more_frame (bindE (fileSize A (us_partPath (upload w))) tail)"
    by (rule finishUpload_flushed [OF assms, of A ses])
  have "world.more (snd (finishUpload A ses w)) = world.more (flushed A w)"
    unfolding t(1) by (rule more_frameD [OF t(2)])
  then have "upload (snd (finishUpload A ses w)) = upload (flushed A w)"
    by (cases "snd (finishUpload A ses w)"; cases "flushed A w") simp
  then show ?thesis by (simp add: flushed_def)
qed

theorem finish_closes_descriptor_witness:
  "us_fd (upload ref_open_state) = 3 \<and> us_fd (upload (snd (finishUpload ref_env ref_user ref_open_state))) = -1"
  using finish_closes_descriptor [of ref_open_state ref_env ref_user] by (simp add: ref_open_state_def no_upload_def)

section \<open>Complete runs at the reference environment\<close>

text \<open>A part file of one byte that has been received, and a stored object with a pending challenge.\<close>

definition ref_done_state :: "(ref_redis, ref_db, ref_fs) tstate" where
  "ref_done_state = ref_open_state
     \<lparr>w_os := ref_fs0\<lparr>rf_files := [''/p'' \<mapsto> ''x''], rf_fds := [3 \<mapsto> (''/p'', 0)], rf_next := 4\<rparr>,
      upload := (upload ref_open_state)\<lparr>us_totalSize := 1\<rparr>\<rparr>"

definition ref_chal_state :: "(ref_redis, ref_db, ref_fs) tstate" where
  "ref_chal_state = ref_state
     \<lparr>w_os := ref_fs0\<lparr>rf_files := [''/o'' \<mapsto> ''x'']\<rparr>,
      w_redis := ref_redis0\<lparr>rr_strs := [chalKey ''t'' ref_md5 \<mapsto> ''0:1'', objKey ref_md5 \<mapsto> ''/o'']\<rparr>\<rparr>"

theorem finished_upload_verified_witness:
  "\<exists>w'. finishUpload ref_env ref_user ref_done_state = (Ret (), w') \<and>
    fst (md5File ref_env ''/p'' (flushed ref_env ref_done_state)) = Ret ref_md5 \<and> us_fd (upload w') = -1"
proof -
  have "fst (finishUpload ref_env ref_user ref_done_state) = Ret ()" by code_simp
  then obtain w' where r: "finishUpload ref_env ref_user ref_done_state = (Ret (), w')" by (metis prod.collapse)
  then show ?thesis
    using finished_upload_verified [OF r] by (simp add: ref_done_state_def ref_open_state_def)
qed

theorem instant_upload_proves_possession_witness:
  "\<exists>w' len w1. instantUpload ref_env ref_user ''/d/users/al/a'' ''/a'' ref_md5 1 0 ref_md5 False ref_chal_state = (Ret (), w') \<and>
    getChallenge ref_env ''t'' ref_md5 ref_chal_state = (Ret (Some (0, len)), w1)"
proof -
  have "fst (instantUpload ref_env ref_user ''/d/users/al/a'' ''/a'' ref_md5 1 0 ref_md5 False ref_chal_state) = Ret ()"
    by code_simp
  then obtain w' where r: "instantUpload ref_env ref_user ''/d/users/al/a'' ''/a'' ref_md5 1 0 ref_md5 False ref_chal_state = (Ret (), w')"
    by (metis prod.collapse)
  then show ?thesis
    using instant_upload_proves_possession [OF r] by (auto simp: ref_user_def)
qed

section \<open>The challenge from query to upload\<close>

text \<open>the challenge \<open>queryInstant\<close> reports on a hit is the one \<open>instantUpload\<close> will check: reading it
  back for the same session token and digest gives the same offset and length, through their
  decimal representation in Redis.\<close>

theorem challenge_roundtrip:
  assumes "redis_env A strs sets" and "ctx_set w" and "redis_ready (rds A) strs sets (w_redis w)"
    and "NUL \<notin> set (s_token ses)" and "queryInstant A ses m n w = (Ret q, w')" and "iq_hit q"
  shows "\<exists>w''. getChallenge A (s_token ses) m w' = (Ret (Some (iq_challengeOffset q, iq_challengeLen q)), w'')"
proof -
  obtain off len where c: "challenge_for A m (s_token ses) n = (off, len)" by fastforce
  have up: "ctx_set w1 \<and> redis_ready (rds A) strs sets (w_redis w1)"
    if "resolveObjectPath A m w = (Ret obj, w1)" for obj w1
    using that redis_env.store_runs(7) [OF assms(1), of w m] assms(2,3)
      redis_service.rok_ops(7) [OF redis_env.axioms [OF assms(1)] assms(3), of m]
    by (auto simp: resolveObjectPath_def bindE_def liftS_def split: if_splits sum.splits option.splits)
  obtain w1 where w1: "ctx_set w1 \<and> redis_ready (rds A) strs sets (w_redis w1)"
    and run: "setChallenge A (s_token ses) m off len w1 = (Ret (), w')"
    and q: "iq_challengeOffset q = off" "iq_challengeLen q = len"
    using assms(5,6) up unfolding queryInstant_def c
    by (auto simp: fileExists_run fileSize_run elim!: bindE_RetD split: if_splits)
  have w': "w' = w1\<lparr>w_redis := r_setChal (rds A) (s_token ses) m off len (w_redis w1)\<rparr>"
    using redis_env.challenge_runs(1) [OF assms(1) w1 assms(4), of m off len] run by simp
  note svc = redis_env.axioms [OF assms(1)] and rdy = conjunct2 [OF w1]
  have "getChallenge A (s_token ses) m w' = (Ret (Some (off, len)), w'\<lparr>w_redis := r_getChal (rds A) (s_token ses) m (w_redis w')\<rparr>)"
    by (rule redis_env.getChallenge_run [OF assms(1) _ assms(4)])
      (use w1 in \<open>simp_all add: w' redis_service.rok_ops(9) [OF svc rdy] redis_service.strs_ops(9) [OF svc rdy]\<close>)
  then show ?thesis using q by blast
qed

theorem challenge_roundtrip_witness:
  "\<exists>q w' w''. queryInstant ref_env ref_user ref_md5 1 ref_chal_state = (Ret q, w') \<and> iq_hit q \<and>
    getChallenge ref_env ''t'' ref_md5 w' = (Ret (Some (iq_challengeOffset q, iq_challengeLen q)), w'')"
proof -
  let ?q = "\<lparr>iq_hit = True, iq_size = 1, iq_challengeOffset = 0, iq_challengeLen = 1\<rparr>"
  have "fst (queryInstant ref_env ref_user ref_md5 1 ref_chal_state) = Ret ?q" by code_simp
  then obtain w' where r: "queryInstant ref_env ref_user ref_md5 1 ref_chal_state = (Ret ?q, w')" by (metis prod.collapse)
  have ready: "redis_ready (rds ref_env) rr_strs ref_sets (w_redis ref_chal_state)"
    using ref_redis0_ready by (auto simp: redis_ready_def ref_chal_state_def ref_sets_def ref_redis0_def ref_hiredis_def)
  have "redis_env ref_env rr_strs ref_sets" by (rule ref_store.redis_env_axioms)
  from challenge_roundtrip [OF this _ ready _ r] r show ?thesis
    by (auto simp: ref_chal_state_def ref_state_def ref_user_def NUL_def)
qed

section \<open>Digests of files\<close>

text \<open>C40: the three ways to a digest agree: hashing a file block by block, hashing the range that is
  the whole file, as the proof of possession of a small object does, and hashing its content in one
  piece, so that the server and a client that hash the same bytes come to the same content name.\<close>

theorem streamed_digest_is_digest:
  assumes "digest_env A dig" and "ifs_bytes (os A) (c_str path) (w_os w) = Some bytes" and "length bytes < 2 ^ 32"
  shows "\<exists>d. md5Hex A bytes = Inr d \<and> md5File A path w = (Ret d, w) \<and>
    md5FileRange A path 0 (of_nat (length bytes)) w = (Ret d, w)"
proof -
  have "unat (of_nat (length bytes) :: u32) = length bytes" using assms(3) by (simp add: unat_of_nat)
  moreover have "evp A MD5 [bytes] = EvpDigest (dig MD5 bytes)"
    using digest.run [OF digest_env.axioms [OF assms(1)], of MD5 "[bytes]"] by simp
  ultimately show ?thesis
    using digest_env.md5File_run [OF assms(1,2)]
    by (simp add: md5Hex_def digestHex_def md5FileRange_def Let_def assms(2)
        digest.md5_text_def [OF digest_env.axioms [OF assms(1)]])
qed

lemma ref_digest_env: "digest_env ref_env ref_sum"
  by unfold_locales (simp_all add: ref_env_def ref_digest.run ref_digest.md5_length ref_digest.sha256_length)

theorem streamed_digest_is_digest_witness:
  "\<exists>d. md5Hex ref_env ''abc'' = Inr d \<and> md5File ref_env ''/p'' (ref_world\<lparr>w_os := ref_fs0\<lparr>rf_files := [''/p'' \<mapsto> ''abc'']\<rparr>\<rparr>) =
     (Ret d, ref_world\<lparr>w_os := ref_fs0\<lparr>rf_files := [''/p'' \<mapsto> ''abc'']\<rparr>\<rparr>)"
proof -
  have "ifs_bytes (os ref_env) (c_str ''/p'') (w_os (ref_world\<lparr>w_os := ref_fs0\<lparr>rf_files := [''/p'' \<mapsto> ''abc'']\<rparr>\<rparr>)) = Some ''abc''"
    by (simp add: ref_env_def ref_posix_def c_str_def NUL_def)
  from streamed_digest_is_digest [OF ref_digest_env this] show ?thesis by auto
qed

end
