(* ===== verification/Object_Copy.thy ===== *)
theory Object_Copy
  imports Reference_Env "HOL-Library.Code_Target_Nat"
begin

text \<open>
  Publishing an object: the copy loop of \<open>TransferService::copyToObjectStore\<close>. The locale
  \<open>file_service\<close> states what the loop relies on of \<open>open\<close>, \<open>read\<close>, \<open>write\<close>, \<open>close\<close>,
  \<open>fsync\<close> and \<open>mkdir\<close> on regular files: reads and writes may be short, every call may fail. Under
  these laws the loop ends within a number of turns bounded by the size of the source, and when it
  returns the object has exactly the bytes of the source.
\<close>

section \<open>Total correctness\<close>

text \<open>As \<open>triple\<close>, but the run also comes to an end.\<close>

definition total :: "('s \<Rightarrow> bool) \<Rightarrow> ('s, 'a) cpp \<Rightarrow> ('a \<Rightarrow> 's \<Rightarrow> bool) \<Rightarrow> bool" where
  "total P m Q \<longleftrightarrow> (\<forall>s. P s \<longrightarrow> (case m s of
       (Ret x, t) \<Rightarrow> Q x t
     | (Raise e, t) \<Rightarrow> True
     | (Blocked, t) \<Rightarrow> False
     | (Undef, t) \<Rightarrow> False))"

lemma totalD: "total P m Q \<Longrightarrow> P s \<Longrightarrow>
   case m s of (Ret x, t) \<Rightarrow> Q x t | (Raise e, t) \<Rightarrow> True | (Blocked, t) \<Rightarrow> False | (Undef, t) \<Rightarrow> False"
  by (simp only: total_def)

lemma total_bind:
  assumes "total P m R" and "\<And>x. total (R x) (f x) Q"
  shows "total P (bindE m f) Q"
  unfolding total_def
proof (intro allI impI)
  fix s
  assume "P s"
  note 1 = totalD [OF assms(1) this]
  obtain r t where m: "m s = (r, t)" by fastforce
  show "case bindE m f s of (Ret x, t) \<Rightarrow> Q x t | (Raise e, t) \<Rightarrow> True | (Blocked, t) \<Rightarrow> False | (Undef, t) \<Rightarrow> False"
  proof (cases r)
    case (Ret x)
    then have "R x t" using 1 m by simp
    from totalD [OF assms(2) this] show ?thesis using m Ret by (simp add: bindE_run)
  qed (use 1 m in \<open>simp_all add: bindE_run\<close>)
qed

lemma total_pre: "total P' m Q \<Longrightarrow> (\<And>s. P s \<Longrightarrow> P' s) \<Longrightarrow> total P m Q"
  unfolding total_def by simp

lemma total_pure: "(b \<Longrightarrow> total P m Q) \<Longrightarrow> total (\<lambda>s. P s \<and> b) m Q"
  by (auto simp: total_def)

lemma total_return: "(\<And>s. P s \<Longrightarrow> Q x s) \<Longrightarrow> total P (return x) Q"
  by (simp add: total_def)

lemma total_throw: "total P (throw e) Q"
  by (simp add: total_def)

lemma total_on_os:
  "(\<And>w x f. P w \<Longrightarrow> g (w_os w) = (x, f) \<Longrightarrow> Q x (w\<lparr>w_os := f\<rparr>)) \<Longrightarrow> total P (on_os g) Q"
  by (auto simp: total_def on_os_def split: prod.splits)

section \<open>Regular files\<close>

text \<open>\<open>files\<close> gives the content of a regular file, \<open>fds\<close> the file and the position of an open
  descriptor.\<close>

locale file_service =
  fixes P :: "'f posix" and files :: "'f \<Rightarrow> string \<Rightarrow> string option" and fds :: "'f \<Rightarrow> int \<Rightarrow> (string \<times> nat) option"
  assumes open_read: "os_open P p O_RDONLY f = (Inr fd, f') \<Longrightarrow> files f p = Some c \<Longrightarrow>
      files f' = files f \<and> fds f' = (fds f)(fd \<mapsto> (p, 0)) \<and> fds f fd = None"
    and open_trunc: "os_open P p O_WRONLY_CREAT_TRUNC f = (Inr fd, f') \<Longrightarrow>
      files f' = (files f)(p \<mapsto> []) \<and> fds f' = (fds f)(fd \<mapsto> (p, 0)) \<and> fds f fd = None"
    and read_some: "os_read P fd k f = (Some d, f') \<Longrightarrow> fds f fd = Some (p, n) \<Longrightarrow> files f p = Some c \<Longrightarrow>
      files f' = files f \<and> fds f' = (fds f)(fd \<mapsto> (p, n + length d)) \<and> length d \<le> k \<and>
      d = take (length d) (drop n c) \<and> (d = [] \<longrightarrow> k = 0 \<or> length c \<le> n)"
    and write_some: "os_write P fd d f = (Some x, f') \<Longrightarrow> fds f fd = Some (p, length c) \<Longrightarrow> files f p = Some c \<Longrightarrow>
      x \<le> length d \<and> (d \<noteq> [] \<longrightarrow> 0 < x) \<and> files f' = (files f)(p \<mapsto> c @ take x d) \<and>
      fds f' = (fds f)(fd \<mapsto> (p, length c + x))"
    and quiet: "files (os_close P fd f) = files f" "files (os_fsync P fd f) = files f"
    and mkdir_quiet: "files (snd (os_mkdir P q f)) = files f" "fds (snd (os_mkdir P q f)) = fds f"
begin

lemma ensureDir_go_files:
  assumes "os A = P" and "ensureDir_go A parts cur w = (r, w')"
  shows "files (w_os w') = files (w_os w) \<and> fds (w_os w') = fds (w_os w)"
  using assms(2)
proof (induction parts arbitrary: cur w)
  case (Cons part parts)
  show ?case
  proof (cases "part = [] \<or> part = ''.''")
    case True
    then show ?thesis using Cons by simp
  next
    case False
    define cur' where "cur' = (if cur = ''/'' then cur @ part else if cur = [] then part else cur @ ''/'' @ part)"
    define v where "v = w\<lparr>w_os := snd (os_mkdir P (c_str cur') (w_os w))\<rparr>"
    have v: "files (w_os v) = files (w_os w) \<and> fds (w_os v) = fds (w_os w)" by (simp add: v_def mkdir_quiet)
    have "ensureDir_go A (part # parts) cur w =
        (if fst (os_mkdir P (c_str cur') (w_os w)) \<noteq> None \<and> fst (os_mkdir P (c_str cur') (w_os w)) \<noteq> Some EEXIST
         then return False else ensureDir_go A parts cur') v"
      using False assms(1) unfolding cur'_def v_def
      by (simp only: ensureDir_go.simps Let_def if_False bindE_run(1) [OF on_os_run])
    then show ?thesis
      using Cons v by (cases "fst (os_mkdir P (c_str cur') (w_os w)) \<noteq> None \<and> fst (os_mkdir P (c_str cur') (w_os w)) \<noteq> Some EEXIST") auto
  qed
qed simp

lemma ensureDir_files:
  assumes "os A = P" and "ensureDir A q w = (r, w')"
  shows "files (w_os w') = files (w_os w) \<and> fds (w_os w') = fds (w_os w)"
proof (cases "q = []")
  case True
  then show ?thesis using assms(2) by (simp add: ensureDir_def)
next
  case False
  then show ?thesis using ensureDir_go_files [OF assms(1)] assms(2) by (simp add: ensureDir_def)
qed

end

section \<open>The copy loop\<close>

lemma total_close_throw: "total P (bindE (close_fd A fd) (\<lambda>_. throw e)) Q"
  unfolding close_fd_def by (rule total_bind [where R = "\<lambda>_ _. True"], rule total_on_os, simp, rule total_throw)

lemma ensureDir_go_returns: "fst (ensureDir_go A parts cur w) \<in> range Ret"
proof (induction parts arbitrary: cur w)
  case (Cons part parts)
  then show ?case by (simp add: bindE_run(1) [OF on_os_run] Let_def rangeI)
qed simp

lemma ensureDir_returns: "fst (ensureDir A q w) \<in> range Ret"
  using ensureDir_go_returns by (auto simp: ensureDir_def)

locale file_env = file_service "os A" files fds
  for A :: "('r, 'm, 'f) env" and files :: "'f \<Rightarrow> string \<Rightarrow> string option"
    and fds :: "'f \<Rightarrow> int \<Rightarrow> (string \<times> nat) option"
begin

text \<open>The source open at position \<open>k\<close>, the destination holding \<open>d\<close> and open at its end.\<close>

definition copying :: "string \<Rightarrow> string \<Rightarrow> int \<Rightarrow> int \<Rightarrow> string \<Rightarrow> nat \<Rightarrow> string \<Rightarrow> 'f \<Rightarrow> bool" where
  "copying src dest fin fout c k d f \<longleftrightarrow> src \<noteq> dest \<and> fin \<noteq> fout \<and> files f src = Some c \<and> files f dest = Some d \<and>
     fds f fin = Some (src, k) \<and> fds f fout = Some (dest, length d)"

lemma total_ensureDir:
  "total (\<lambda>w :: ('r, 'm, 'f, 'z) world_scheme. Q (files (w_os w)) (fds (w_os w))) (ensureDir A q) (\<lambda>_ w. Q (files (w_os w)) (fds (w_os w)))"
  unfolding total_def
proof (intro allI impI)
  fix w :: "('r, 'm, 'f, 'z) world_scheme"
  assume "Q (files (w_os w)) (fds (w_os w))"
  moreover obtain b w' where e: "ensureDir A q w = (Ret b, w')"
    using ensureDir_returns [of A q w] by (cases "ensureDir A q w") auto
  ultimately show "case ensureDir A q w of (Ret x, w) \<Rightarrow> Q (files (w_os w)) (fds (w_os w))
    | (Raise e, t) \<Rightarrow> True | (Blocked, t) \<Rightarrow> False | (Undef, t) \<Rightarrow> False"
    using ensureDir_files [OF refl e] by simp
qed

lemma copying_read:
  assumes "copying src dest fin fout c k d f" and "os_read (os A) fin b f = (Some x, f')"
  shows "copying src dest fin fout c (k + length x) d f' \<and> x = take (length x) (drop k c) \<and> (x = [] \<longrightarrow> b = 0 \<or> length c \<le> k)"
  using assms read_some [OF assms(2), of src k c] unfolding copying_def by auto

lemma copying_write:
  assumes "copying src dest fin fout c k d f" and "os_write (os A) fout x f = (Some n, f')"
  shows "copying src dest fin fout c k (d @ take n x) f' \<and> n \<le> length x \<and> (x \<noteq> [] \<longrightarrow> 0 < n)"
  using assms write_some [OF assms(2), of dest d] unfolding copying_def by auto

lemma total_abort: "total P (copy_abort A fin fout q msg) Q"
  unfolding copy_abort_def close_fd_def unlink_def
  by (rule total_bind [where R = "\<lambda>_ _. True"], rule total_on_os, simp)+ (rule total_throw)

lemma write_loop_total:
  assumes "length data \<le> n"
  shows "total (\<lambda>w :: ('r, 'm, 'f, 'z) world_scheme. copying src dest fin fout c k d (w_os w)) (write_loop A n fin fout q data)
    (\<lambda>_ w. copying src dest fin fout c k (d @ data) (w_os w))"
  using assms
proof (induction n arbitrary: data d)
  case 0
  then show ?case by (subst write_loop.simps) (simp add: total_def)
next
  case (Suc n)
  let ?R = "\<lambda>r (w :: ('r, 'm, 'f, 'z) world_scheme). case r of None \<Rightarrow> True
    | Some m \<Rightarrow> copying src dest fin fout c k (d @ take m data) (w_os w) \<and> m \<le> length data \<and> 0 < m"
  show ?case
  proof (cases "data = []")
    case True
    then show ?thesis by (subst write_loop.simps) (simp add: total_def)
  next
    case False
    have "total (\<lambda>w :: ('r, 'm, 'f, 'z) world_scheme. copying src dest fin fout c k d (w_os w)) (on_os (os_write (os A) fout data)) ?R"
      by (rule total_on_os) (use copying_write False in \<open>fastforce split: option.splits\<close>)
    moreover have "total (?R r) (case r of None \<Rightarrow> copy_abort A fin fout q ''write object failed''
        | Some x \<Rightarrow> write_loop A n fin fout q (drop x data))
        (\<lambda>_ w. copying src dest fin fout c k (d @ data) (w_os w))" for r
    proof (cases r)
      case None
      then show ?thesis by (simp add: total_abort)
    next
      case (Some m)
      have "total (\<lambda>w :: ('r, 'm, 'f, 'z) world_scheme. copying src dest fin fout c k (d @ take m data) (w_os w) \<and> (m \<le> length data \<and> 0 < m))
          (write_loop A n fin fout q (drop m data)) (\<lambda>_ w. copying src dest fin fout c k (d @ data) (w_os w))"
      proof (rule total_pure)
        assume "m \<le> length data \<and> 0 < m"
        then have "length (drop m data) \<le> n" using Suc.prems by auto
        from Suc.IH [OF this, of "d @ take m data"]
        show "total (\<lambda>w :: ('r, 'm, 'f, 'z) world_scheme. copying src dest fin fout c k (d @ take m data) (w_os w))
          (write_loop A n fin fout q (drop m data)) (\<lambda>_ w. copying src dest fin fout c k (d @ data) (w_os w))"
          by simp
      qed
      then show ?thesis using Some by simp
    qed
    ultimately have "total (\<lambda>w :: ('r, 'm, 'f, 'z) world_scheme. copying src dest fin fout c k d (w_os w)) (bindE (on_os (os_write (os A) fout data)) (\<lambda>r.
        case r of None \<Rightarrow> copy_abort A fin fout q ''write object failed''
        | Some x \<Rightarrow> write_loop A n fin fout q (drop x data))) (\<lambda>_ w. copying src dest fin fout c k (d @ data) (w_os w))"
      by (rule total_bind)
    with False show ?thesis by (subst write_loop.simps) simp
  qed
qed

lemma copy_loop_total:
  assumes "length c < n + k" and "k \<le> length c" and "length c \<le> loop_bound A" and "0 < b"
  shows "total (\<lambda>w :: ('r, 'm, 'f, 'z) world_scheme. copying src dest fin fout c k (take k c) (w_os w)) (copy_loop A n fin fout q b cnt)
    (\<lambda>r w. files (w_os w) dest = Some c \<and> r = cnt + of_nat (length c - k))"
  using assms(1,2)
proof (induction n arbitrary: k cnt)
  case (Suc n)
  let ?post = "\<lambda>r (w :: ('r, 'm, 'f, 'z) world_scheme). files (w_os w) dest = Some c \<and> r = cnt + of_nat (length c - k)"
  let ?R = "\<lambda>r (w :: ('r, 'm, 'f, 'z) world_scheme). case r of None \<Rightarrow> True
    | Some x \<Rightarrow> copying src dest fin fout c (k + length x) (take k c) (w_os w) \<and>
        (x = take (length x) (drop k c) \<and> (x = [] \<longrightarrow> length c \<le> k))"
  have 1: "total (\<lambda>w :: ('r, 'm, 'f, 'z) world_scheme. copying src dest fin fout c k (take k c) (w_os w)) (on_os (os_read (os A) fin b)) ?R"
    by (rule total_on_os) (use copying_read assms(4) in \<open>fastforce split: option.splits\<close>)
  have 2: "total (\<lambda>w :: ('r, 'm, 'f, 'z) world_scheme. copying src dest fin fout c (k + length x) (take k c) (w_os w))
      (if x = [] then return cnt else bindE (write_loop A (loop_bound A) fin fout q x) (\<lambda>_.
         copy_loop A n fin fout q b (cnt + of_nat (length x)))) ?post"
    if x: "x = take (length x) (drop k c)" "x = [] \<longrightarrow> length c \<le> k" for x
  proof (cases "x = []")
    case True
    then show ?thesis using x Suc.prems by (auto simp: total_def copying_def)
  next
    case False
    have len: "k + length x \<le> length c"
      using arg_cong [OF x(1), of length] Suc.prems by simp
    have tk: "take k c @ x = take (k + length x) c" using x(1) by (simp add: take_add)
    have w: "total (\<lambda>w :: ('r, 'm, 'f, 'z) world_scheme. copying src dest fin fout c (k + length x) (take k c) (w_os w)) (write_loop A (loop_bound A) fin fout q x)
        (\<lambda>_ w. copying src dest fin fout c (k + length x) (take (k + length x) c) (w_os w))"
      using write_loop_total [of x "loop_bound A"] len assms(3) unfolding tk [symmetric] by simp
    have left: "length c - k = length x + (length c - (k + length x))" using len by simp
    have "length c < n + (k + length x)" using Suc.prems False by (cases x) auto
    from Suc.IH [OF this len, of "cnt + of_nat (length x)"]
    have "total (\<lambda>w :: ('r, 'm, 'f, 'z) world_scheme. copying src dest fin fout c (k + length x) (take (k + length x) c) (w_os w))
        (copy_loop A n fin fout q b (cnt + of_nat (length x))) ?post"
      unfolding left of_nat_add add.assoc .
    with w False show ?thesis by (simp add: total_bind)
  qed
  show ?case
    unfolding copy_loop.simps
  proof (rule total_bind [OF 1])
    fix r
    show "total (?R r) (case r of None \<Rightarrow> copy_abort A fin fout q ''read source failed''
       | Some x \<Rightarrow> if x = [] then return cnt else bindE (write_loop A (loop_bound A) fin fout q x) (\<lambda>_.
         copy_loop A n fin fout q b (cnt + of_nat (length x)))) ?post"
      by (cases r) (simp_all only: option.case total_abort, intro total_pure 2, simp_all)
  qed
qed simp


lemma copyToObjectStore_total:
  assumes "length c < loop_bound A" and "c_str src \<noteq> c_str dest"
  shows "total (\<lambda>w :: ('r, 'm, 'f, 'z) world_scheme. files (w_os w) (c_str src) = Some c) (copyToObjectStore A src dest n)
    (\<lambda>_ w. files (w_os w) (c_str dest) = Some c \<and> (n \<noteq> 0 \<longrightarrow> n = of_nat (length c)))"
proof -
  let ?buf = "if chunkSize (cfg A) \<noteq> 0 then unat (chunkSize (cfg A)) else 65536"
  have buf: "0 < ?buf" by (simp add: unat_gt_0)
  let ?opened = "\<lambda>i (w :: ('r, 'm, 'f, 'z) world_scheme). case i of Inl _ \<Rightarrow> True
    | Inr fin \<Rightarrow> files (w_os w) (c_str src) = Some c \<and> fds (w_os w) fin = Some (c_str src, 0)"
  let ?both = "\<lambda>fin t (w :: ('r, 'm, 'f, 'z) world_scheme). case t of Inl _ \<Rightarrow> True
    | Inr fout \<Rightarrow> copying (c_str src) (c_str dest) fin fout c 0 (take 0 c) (w_os w)"
  let ?copied = "\<lambda>r (w :: ('r, 'm, 'f, 'z) world_scheme). files (w_os w) (c_str dest) = Some c \<and> r = 0 + of_nat (length c - 0)"
  have 1: "total (\<lambda>w :: ('r, 'm, 'f, 'z) world_scheme. files (w_os w) (c_str src) = Some c) (on_os (os_open (os A) (c_str src) O_RDONLY)) ?opened"
    by (rule total_on_os) (auto dest!: open_read split: sum.splits)
  have 2: "total (?opened (Inr fin)) (ensureDir A (parentDir dest)) (\<lambda>_. ?opened (Inr fin))" for fin
    using total_ensureDir [of "\<lambda>g h. g (c_str src) = Some c \<and> h fin = Some (c_str src, 0)" "parentDir dest"] by simp
  have 3: "total (?opened (Inr fin)) (on_os (os_open (os A) (c_str dest) O_WRONLY_CREAT_TRUNC)) (?both fin)" for fin
    by (rule total_on_os) (use assms(2) in \<open>auto dest!: open_trunc simp: copying_def split: sum.splits\<close>)
  have 4: "total (?both fin (Inr fout)) (copy_loop A (loop_bound A) fin fout dest ?buf 0) ?copied" for fin fout
    unfolding sum.case by (rule copy_loop_total [OF _ _ _ buf]) (use assms(1) in simp_all)
  have 5: "total (?copied r) (bindE (on_os (\<lambda>f. ((), os_fsync (os A) fout f))) (\<lambda>_.
      bindE (close_fd A fin) (\<lambda>_. bindE (close_fd A fout) (\<lambda>_.
      if n \<noteq> 0 \<and> r \<noteq> n then bindE (unlink A dest) (\<lambda>_. throw (CloudError Unprocessable ''object size mismatch''))
      else return ()))))
      (\<lambda>_ w. files (w_os w) (c_str dest) = Some c \<and> (n \<noteq> 0 \<longrightarrow> n = of_nat (length c)))" for r fin fout
    unfolding total_def close_fd_def unlink_def
    by (auto simp: bindE_run(1) [OF on_os_run] quiet)
  show ?thesis
    unfolding copyToObjectStore_def
  proof (rule total_bind [OF 1])
    fix i
    show "total (?opened i) (case i of Inl _ \<Rightarrow> throw (CloudError NotFound ''source missing for object publish'')
      | Inr fin \<Rightarrow> bindE (ensureDir A (parentDir dest)) (\<lambda>_.
         bindE (on_os (os_open (os A) (c_str dest) O_WRONLY_CREAT_TRUNC)) (\<lambda>t.
         case t of
           Inl err \<Rightarrow> bindE (close_fd A fin) (\<lambda>_.
             throw (CloudError Internal (''open object failed: '' @ os_strerror (os A) err)))
         | Inr fout \<Rightarrow>
             bindE (copy_loop A (loop_bound A) fin fout dest ?buf 0) (\<lambda>copied.
             bindE (on_os (\<lambda>f. ((), os_fsync (os A) fout f))) (\<lambda>_.
             bindE (close_fd A fin) (\<lambda>_.
             bindE (close_fd A fout) (\<lambda>_.
             if n \<noteq> 0 \<and> copied \<noteq> n then
               bindE (unlink A dest) (\<lambda>_. throw (CloudError Unprocessable ''object size mismatch''))
             else return ()))))))) (\<lambda>_ w. files (w_os w) (c_str dest) = Some c \<and> (n \<noteq> 0 \<longrightarrow> n = of_nat (length c)))"
    proof (cases i)
      case (Inr fin)
      show ?thesis
        unfolding Inr sum.case
      proof (rule total_bind [OF 2 [unfolded sum.case]], rule total_bind [OF 3 [unfolded sum.case]])
        fix t
        show "total (?both fin t) (case t of
           Inl err \<Rightarrow> bindE (close_fd A fin) (\<lambda>_.
             throw (CloudError Internal (''open object failed: '' @ os_strerror (os A) err)))
         | Inr fout \<Rightarrow>
             bindE (copy_loop A (loop_bound A) fin fout dest ?buf 0) (\<lambda>copied.
             bindE (on_os (\<lambda>f. ((), os_fsync (os A) fout f))) (\<lambda>_.
             bindE (close_fd A fin) (\<lambda>_.
             bindE (close_fd A fout) (\<lambda>_.
             if n \<noteq> 0 \<and> copied \<noteq> n then
               bindE (unlink A dest) (\<lambda>_. throw (CloudError Unprocessable ''object size mismatch''))
             else return ()))))) (\<lambda>_ w. files (w_os w) (c_str dest) = Some c \<and> (n \<noteq> 0 \<longrightarrow> n = of_nat (length c)))"
        proof (cases t)
          case (Inl err)
          then show ?thesis by (simp add: total_close_throw)
        next
          case (Inr fout)
          show ?thesis unfolding Inr sum.case by (rule total_bind [OF 4 [unfolded sum.case] 5])
        qed
      qed
    qed (simp add: total_throw)
  qed
qed

end

section \<open>The reference file system\<close>

definition ref_fds :: "ref_fs \<Rightarrow> int \<Rightarrow> (string \<times> nat) option" where
  "ref_fds f fd = (if fd < rf_next f then rf_fds f fd else None)"

lemma ref_fds_open [simp]:
  "ref_fds (f\<lparr>rf_fds := (rf_fds f)(rf_next f \<mapsto> x), rf_next := rf_next f + 1\<rparr>) = (ref_fds f)(rf_next f \<mapsto> x)"
  "ref_fds f (rf_next f) = None"
  "ref_fds (f\<lparr>rf_files := g, rf_fds := (rf_fds f)(rf_next f \<mapsto> x), rf_next := rf_next f + 1\<rparr>) = (ref_fds f)(rf_next f \<mapsto> x)"
  by (auto simp: ref_fds_def)

lemma ref_fds_moved:
  "ref_fds f fd = Some y \<Longrightarrow> ref_fds (f\<lparr>rf_fds := (rf_fds f)(fd \<mapsto> x)\<rparr>) = (ref_fds f)(fd \<mapsto> x)"
  by (auto simp: ref_fds_def split: if_splits)

lemma ref_fds_files [simp]: "ref_fds (f\<lparr>rf_files := g\<rparr>) = ref_fds f" "ref_fds (f\<lparr>rf_dirs := d\<rparr>) = ref_fds f"
  by (auto simp: ref_fds_def)

lemma ref_fds_at: "ref_fds f fd = Some (p, n) \<Longrightarrow> rf_files f p = Some c \<Longrightarrow> ref_at fd f = Some (p, n, c)"
  by (simp add: ref_fds_def ref_at_def split: if_splits)

interpretation ref_files: file_env ref_env rf_files ref_fds
proof (unfold_locales, goal_cases)
  case (3 fd k f d f' p n c)
  then show ?case by (auto simp: ref_posix_def ref_read_def ref_fds_at ref_fds_moved min_def)
next
  case (4 fd d f x f' p c)
  have "ref_fds (f\<lparr>rf_files := g, rf_fds := (rf_fds f)(fd \<mapsto> y)\<rparr>) = (ref_fds f)(fd \<mapsto> y)" for g y
    using 4(2) by (auto simp: ref_fds_def split: if_splits)
  with 4 show ?case by (auto simp: ref_posix_def ref_write_def ref_fds_at overwrite_at_def)
qed (auto simp: ref_posix_def ref_open_def ref_fd_def ref_mkdir_def split: if_splits)

section \<open>The copy is total and exact\<close>

text \<open>C18: publishing an object ends: whatever the descriptors deliver in short reads and short
  writes, copying a source of \<open>length c\<close> bytes needs no more than \<open>length c + 1\<close> turns of the
  loop, each of at most \<open>length c\<close> writes; the call returns or throws, it never hangs.\<close>

theorem copyToObjectStore_terminates:
  fixes A :: "('r, 'm, 'f) env" and w :: "('r, 'm, 'f, 'z) world_scheme"
  assumes "file_env A files fds" and "files (w_os w) (c_str src) = Some c"
    and "length c < loop_bound A" and "c_str src \<noteq> c_str dest"
  shows "(\<exists>w'. copyToObjectStore A src dest n w = (Ret (), w')) \<or>
    (\<exists>e w'. copyToObjectStore A src dest n w = (Raise e, w'))"
  using totalD [OF file_env.copyToObjectStore_total [OF assms(1,3,4)], of w n] assms(2)
  by (cases "copyToObjectStore A src dest n w"; cases "fst (copyToObjectStore A src dest n w)") auto

text \<open>C17: a publish that succeeds has stored exactly the bytes of the source under the object's path,
  and when a size was announced it is the size of those bytes.\<close>

theorem published_object_is_source:
  fixes A :: "('r, 'm, 'f) env" and w :: "('r, 'm, 'f, 'z) world_scheme"
  assumes "file_env A files fds" and "files (w_os w) (c_str src) = Some c"
    and "length c < loop_bound A" and "c_str src \<noteq> c_str dest"
    and "copyToObjectStore A src dest n w = (Ret (), w')"
  shows "files (w_os w') (c_str dest) = Some c \<and> (n \<noteq> 0 \<longrightarrow> n = of_nat (length c))"
  using totalD [OF file_env.copyToObjectStore_total [OF assms(1,3,4)], of w n] assms(2,5) by simp

definition ref_src_world :: "(ref_redis, ref_db, ref_fs) world" where
  "ref_src_world = ref_world\<lparr>w_os := ref_fs0\<lparr>rf_files := [''/d/t'' \<mapsto> ''hello'']\<rparr>\<rparr>"

lemma ref_src_file: "rf_files (w_os ref_src_world) (c_str ''/d/t'') = Some ''hello''"
  by (simp add: ref_src_world_def c_str_def NUL_def)

lemma ref_src_dest: "c_str ''/d/t'' \<noteq> c_str ''/d/o''"
  by (simp add: c_str_def NUL_def)

theorem copyToObjectStore_terminates_witness:
  "(\<exists>w'. copyToObjectStore ref_env ''/d/t'' ''/d/o'' 5 ref_src_world = (Ret (), w')) \<or>
   (\<exists>e w'. copyToObjectStore ref_env ''/d/t'' ''/d/o'' 5 ref_src_world = (Raise e, w'))"
  by (rule copyToObjectStore_terminates [OF ref_files.file_env_axioms ref_src_file _ ref_src_dest]) simp

lemma ref_copy_returns: "fst (copyToObjectStore ref_env ''/d/t'' ''/d/o'' 5 ref_src_world) = Ret ()"
  by code_simp

theorem published_object_is_source_witness:
  "rf_files (w_os (snd (copyToObjectStore ref_env ''/d/t'' ''/d/o'' 5 ref_src_world))) (c_str ''/d/o'') = Some ''hello''"
proof -
  have "copyToObjectStore ref_env ''/d/t'' ''/d/o'' 5 ref_src_world =
      (Ret (), snd (copyToObjectStore ref_env ''/d/t'' ''/d/o'' 5 ref_src_world))"
    using ref_copy_returns by (metis prod.collapse)
  from published_object_is_source [OF ref_files.file_env_axioms ref_src_file _ ref_src_dest this]
  show ?thesis by simp
qed

end
