(* ===== verification/Protocol.thy ===== *)
theory Protocol
  imports CS_Utils
begin

text \<open>
  The frame codec of \<open>src/protocol.cpp\<close>: a 12-byte header (magic, version, type, flags,
  length) followed by the payload, and the payload of a binary chunk (file id, offset,
  data). \<open>FrameType\<close> is a scoped enumeration over \<open>uint8_t\<close>, into which
  \<open>parseHeader\<close> casts an arbitrary byte, so a frame type is a byte here with two named
  values. The last section is the frame extraction both ends perform on the byte stream.
\<close>

section \<open>Frames\<close>

type_synonym frame_type = u8

definition FT_Json :: frame_type where "FT_Json = 0"
definition FT_Chunk :: frame_type where "FT_Chunk = 1"

record frame =
  f_type :: frame_type
  f_flags :: u16
  f_payload :: string

record chunk_payload =
  c_fileId :: string
  c_offset :: u64
  c_data :: string

definition kMaxFrameSize :: nat where
  "kMaxFrameSize = 2 * 1024 * 1024"

definition kDefaultChunkSize :: nat where
  "kDefaultChunkSize = 64 * 1024"

definition kFrameMagic :: string where
  "kFrameMagic = ''CSTR''"

definition kHeaderSize :: nat where
  "kHeaderSize = 12"

definition encode :: "frame_type \<Rightarrow> string \<Rightarrow> u16 \<Rightarrow> exn + string" where
  "encode type payload flags =
     (if length payload > kMaxFrameSize then Inl (CloudError PayloadTooLarge ''frame too large'')
      else Inr (kFrameMagic @ [chr_of 1] @ [chr_of type] @ map chr_of (writeU16Be flags)
                @ map chr_of (writeU32Be (of_nat (length payload))) @ payload))"

text \<open>\<open>parseHeader\<close> reads the 12 header bytes; \<open>None\<close> is the result \<open>false\<close>.\<close>

definition parseHeader :: "u8 list \<Rightarrow> (u8 \<times> frame_type \<times> u16 \<times> u32) option" where
  "parseHeader hdr =
     (if take 4 hdr \<noteq> map byte_of kFrameMagic then None
      else (let version = hdr ! 4;
                type = hdr ! 5;
                flags = readU16Be (drop 6 hdr);
                len = readU32Be (drop 8 hdr)
            in if version = 1 \<and> unat len \<le> kMaxFrameSize then Some (version, type, flags, len)
               else None))"

text \<open>The \<open>len\<close> bytes at \<open>data\<close> are the argument \<open>data\<close>; its length is \<open>len\<close>, a
  \<open>uint32_t\<close>.\<close>

definition encodeChunk :: "string \<Rightarrow> u64 \<Rightarrow> string \<Rightarrow> exn + string" where
  "encodeChunk fileId offset data =
     (if length fileId \<noteq> 32 then Inl (CloudError BadRequest ''file_id must be 32 hex chars'')
      else encode FT_Chunk (fileId @ map chr_of (writeU64Be offset) @ data) 0)"

definition decodeChunk :: "string \<Rightarrow> chunk_payload option" where
  "decodeChunk payload =
     (if length payload < 40 then None
      else Some \<lparr>c_fileId = take 32 payload,
                 c_offset = readU64Be (map byte_of (drop 32 payload)),
                 c_data = drop 40 payload\<rparr>)"

section \<open>Frame extraction from a byte stream\<close>

text \<open>
  One turn of the loop of \<open>Connection::onRead\<close> on the input buffer (and, on a complete
  stream, of \<open>CloudClient::recvFrame\<close>): not enough bytes yet, a bad header, or a frame
  and the bytes that follow it.
\<close>

datatype scan = NeedMore | BadFrame | GotFrame frame string

definition nextFrame :: "string \<Rightarrow> scan" where
  "nextFrame input =
     (if length input < kHeaderSize then NeedMore
      else (case parseHeader (map byte_of (take kHeaderSize input)) of
              None \<Rightarrow> BadFrame
            | Some (ver, type, flags, len) \<Rightarrow>
                if length input < kHeaderSize + unat len then NeedMore
                else GotFrame \<lparr>f_type = type, f_flags = flags,
                               f_payload = take (unat len) (drop kHeaderSize input)\<rparr>
                              (drop (kHeaderSize + unat len) input)))"

lemma nextFrame_shorter: "nextFrame input = GotFrame fr rest \<Longrightarrow> length rest < length input"
  by (auto simp: nextFrame_def kHeaderSize_def split: if_splits option.splits)

text \<open>The whole loop: the frames found, the bytes left in the buffer, and whether a bad
  header ended it (the connection is then closed).\<close>

function drain :: "string \<Rightarrow> frame list \<times> string \<times> bool" where
  "drain input =
     (case nextFrame input of
        NeedMore \<Rightarrow> ([], input, False)
      | BadFrame \<Rightarrow> ([], input, True)
      | GotFrame fr rest \<Rightarrow> (case drain rest of (fs, left, bad) \<Rightarrow> (fr # fs, left, bad)))"
  by pat_completeness auto
termination
  by (relation "measure length") (auto dest: nextFrame_shorter)

declare drain.simps [simp del]

text \<open>Bytes arrive in pieces; each piece is appended to the input buffer and the loop runs.\<close>

fun feed :: "frame list \<times> string \<times> bool \<Rightarrow> string \<Rightarrow> frame list \<times> string \<times> bool" where
  "feed (out, buf, closed) bytes =
     (if closed then (out, buf, closed)
      else (case drain (buf @ bytes) of (fs, left, bad) \<Rightarrow> (out @ fs, left, bad)))"

section \<open>Round trips\<close>

lemma kMaxFrameSize_fits: "n \<le> kMaxFrameSize \<Longrightarrow> unat (of_nat n :: u32) = n"
  by (simp add: kMaxFrameSize_def unat_of_nat)

lemma length_magic [simp]: "length kFrameMagic = 4"
  by (simp add: kFrameMagic_def)

lemma encode_Inr:
  "encode t p f = Inr s \<longleftrightarrow> length p \<le> kMaxFrameSize \<and>
     s = map chr_of (map byte_of kFrameMagic @ 1 # t # writeU16Be f @ writeU32Be (of_nat (length p))) @ p"
  by (auto simp: encode_def comp_def)

text \<open>The header of a frame: twelve bytes that parse back to the frame's fields.\<close>

definition header_bytes :: "frame_type \<Rightarrow> nat \<Rightarrow> u16 \<Rightarrow> u8 list" where
  "header_bytes t n f = map byte_of kFrameMagic @ 1 # t # writeU16Be f @ writeU32Be (of_nat n)"

lemma length_header_bytes [simp]: "length (header_bytes t n f) = kHeaderSize"
  by (simp add: header_bytes_def kHeaderSize_def be16.length_enc be32.length_enc)

lemma encode_header: "encode t p f = Inr s \<Longrightarrow> s = map chr_of (header_bytes t (length p) f) @ p"
  by (simp add: encode_Inr header_bytes_def)

lemma parseHeader_header_bytes:
  assumes "n \<le> kMaxFrameSize"
  shows "parseHeader (header_bytes t n f) = Some (1, t, f, of_nat n)"
proof -
  have h: "header_bytes t n f =
      map byte_of kFrameMagic @ 1 # t # writeU16Be f @ writeU32Be (of_nat n)"
    by (simp add: header_bytes_def)
  have "drop 6 (header_bytes t n f) = writeU16Be f @ writeU32Be (of_nat n)"
    and "drop 8 (header_bytes t n f) = writeU32Be (of_nat n)"
    by (simp_all add: h be16.length_enc)
  moreover have "header_bytes t n f ! 4 = 1" "header_bytes t n f ! 5 = t"
    by (simp_all add: h nth_append)
  moreover have "take 4 (header_bytes t n f) = map byte_of kFrameMagic" by (simp add: h)
  ultimately show ?thesis
    using assms
    by (simp add: parseHeader_def be16.dec_enc be32.dec_enc_exact kMaxFrameSize_fits)
qed

lemma nextFrame_encode:
  assumes "encode t p f = Inr s"
  shows "nextFrame (s @ rest) = GotFrame \<lparr>f_type = t, f_flags = f, f_payload = p\<rparr> rest"
proof -
  have len: "length p \<le> kMaxFrameSize" using assms by (simp add: encode_Inr)
  have s: "s = map chr_of (header_bytes t (length p) f) @ p" by (rule encode_header [OF assms])
  have "map byte_of (take kHeaderSize (s @ rest)) = header_bytes t (length p) f"
    by (simp add: s comp_def)
  then show ?thesis
    using len by (simp add: nextFrame_def parseHeader_header_bytes kMaxFrameSize_fits s)
qed

text \<open>Conversely, whatever is accepted from the stream is an encoded frame.\<close>

lemma parseHeader_Some:
  assumes "length hdr = kHeaderSize" and "parseHeader hdr = Some (v, t, f, n)"
  shows "hdr = header_bytes t (unat n) f" and "unat n \<le> kMaxFrameSize" and "v = 1"
proof -
  have *: "take 4 hdr = map byte_of kFrameMagic" "hdr ! 4 = 1" "t = hdr ! 5" "v = hdr ! 4"
    "f = readU16Be (drop 6 hdr)" "n = readU32Be (drop 8 hdr)" "unat n \<le> kMaxFrameSize"
    using assms(2) by (auto simp: parseHeader_def Let_def split: if_splits)
  show "unat n \<le> kMaxFrameSize" "v = 1" using * by simp_all
  have len: "length hdr = 12" using assms(1) by (simp add: kHeaderSize_def)
  have "take 2 (drop 6 hdr) = writeU16Be f"
    using be16.enc_dec [of "take 2 (drop 6 hdr)"] *(5) len by (simp add: readU16Be_def)
  moreover have "drop 8 hdr = writeU32Be n"
    using be32.enc_dec [of "drop 8 hdr"] *(6) len by simp
  ultimately have "drop 6 hdr = writeU16Be f @ writeU32Be n"
    using append_take_drop_id [of 2 "drop 6 hdr"] by simp
  then have "drop 4 hdr = 1 # t # writeU16Be f @ writeU32Be n"
    using *(2,3) len by (simp add: Cons_nth_drop_Suc [symmetric])
  then show "hdr = header_bytes t (unat n) f"
    using *(1) append_take_drop_id [of 4 hdr] by (simp add: header_bytes_def)
qed

lemma nextFrame_GotFrame:
  assumes "nextFrame input = GotFrame fr rest"
  shows "\<exists>s. encode (f_type fr) (f_payload fr) (f_flags fr) = Inr s \<and> input = s @ rest"
proof -
  let ?h = "map byte_of (take kHeaderSize input)"
  obtain v t f n where n: "parseHeader ?h = Some (v, t, f, n)"
    and len: "kHeaderSize + unat n \<le> length input"
    and fr: "fr = \<lparr>f_type = t, f_flags = f, f_payload = take (unat n) (drop kHeaderSize input)\<rparr>"
    and rest: "rest = drop (kHeaderSize + unat n) input"
    using assms by (auto simp: nextFrame_def split: if_splits option.splits)
  have h: "length ?h = kHeaderSize" using len by simp
  note ph = parseHeader_Some [OF h n]
  have "take kHeaderSize input = map chr_of (header_bytes t (unat n) f)"
    using ph(1) by (metis map_chr_byte)
  then have "input = map chr_of (header_bytes t (unat n) f) @ f_payload fr @ rest"
    using append_take_drop_id [of kHeaderSize input] append_take_drop_id [of "unat n" "drop kHeaderSize input"]
    by (simp add: fr rest add.commute)
  moreover have "length (f_payload fr) = unat n" using len by (simp add: fr)
  ultimately show ?thesis
    using ph(2) fr by (simp add: encode_Inr header_bytes_def)
qed

section \<open>Fragmentation\<close>

lemma nextFrame_append_Got:
  "nextFrame x = GotFrame fr rest \<Longrightarrow> nextFrame (x @ y) = GotFrame fr (rest @ y)"
  using nextFrame_GotFrame nextFrame_encode by fastforce

lemma nextFrame_append_Bad: "nextFrame x = BadFrame \<Longrightarrow> nextFrame (x @ y) = BadFrame"
  by (auto simp: nextFrame_def split: if_splits option.splits)

lemma drain_append:
  "drain (x @ y) =
     (case drain x of (fs, left, bad) \<Rightarrow>
        if bad then (fs, left @ y, True)
        else (case drain (left @ y) of (gs, left', bad') \<Rightarrow> (fs @ gs, left', bad')))"
proof (induction x rule: drain.induct)
  case (1 x)
  show ?case
  proof (cases "nextFrame x")
    case NeedMore
    then show ?thesis by (simp add: drain.simps [of x] split: prod.splits)
  next
    case BadFrame
    then show ?thesis
      by (simp add: drain.simps [of x] drain.simps [of "x @ y"] nextFrame_append_Bad)
  next
    case (GotFrame fr rest)
    with "1.IH" [OF GotFrame] show ?thesis
      by (simp add: drain.simps [of x] drain.simps [of "x @ y"] nextFrame_append_Got
          split: prod.splits)
  qed
qed


lemma drain_left: "drain x = (fs, left, False) \<Longrightarrow> nextFrame left = NeedMore"
proof (induction x arbitrary: fs rule: drain.induct)
  case (1 x)
  show ?case
  proof (cases "nextFrame x")
    case (GotFrame fr rest)
    with "1.IH" [OF GotFrame] "1.prems" show ?thesis
      by (auto simp: drain.simps [of x] split: prod.splits)
  qed (use "1.prems" in \<open>auto simp: drain.simps [of x]\<close>)
qed

lemma feed_closed: "foldl feed (out, buf, True) parts = (out, buf, True)"
  by (induction parts) (simp_all)

lemma feed_all:
  assumes "nextFrame buf = NeedMore" and "drain (buf @ concat parts) = (fs, left, bad)"
    and "foldl feed (out, buf, False) parts = (out', buf', closed)"
  shows "out' = out @ fs \<and> closed = bad \<and> (\<not> bad \<longrightarrow> buf' = left)"
  using assms
proof (induction parts arbitrary: out buf fs)
  case Nil
  then show ?case by (simp add: drain.simps [of buf])
next
  case (Cons p parts)
  obtain gs l b where g: "drain (buf @ p) = (gs, l, b)" by (metis prod_cases3)
  show ?case
  proof (cases b)
    case True
    with Cons.prems g show ?thesis
      using drain_append [of "buf @ p" "concat parts"] by (simp add: feed_closed)
  next
    case False
    obtain hs l' b' where h: "drain (l @ concat parts) = (hs, l', b')" by (metis prod_cases3)
    have "drain (buf @ concat (p # parts)) = (gs @ hs, l', b')"
      using drain_append [of "buf @ p" "concat parts"] False g h by simp
    then have eq: "fs = gs @ hs" "left = l'" "bad = b'" using Cons.prems(2) by simp_all
    have "foldl feed (out @ gs, l, False) parts = (out', buf', closed)"
      using Cons.prems(3) False g by simp
    with h False g show ?thesis
      using Cons.IH [of l hs "out @ gs"] drain_left by (simp add: eq)
  qed
qed

lemma drain_encoded:
  "list_all2 (\<lambda>fr s. encode (f_type fr) (f_payload fr) (f_flags fr) = Inr s) frs ss \<Longrightarrow>
     drain (concat ss) = (frs, [], False)"
proof (induction rule: list_all2_induct)
  case Nil
  then show ?case by (simp add: drain.simps nextFrame_def kHeaderSize_def)
next
  case (Cons fr frs s ss)
  then show ?case
    by (simp add: drain.simps [of "s @ _"] nextFrame_encode)
qed

section \<open>Properties\<close>

text \<open>C11: the framing survives any fragmentation. Whatever frames the peer encodes and however
  the resulting bytes are cut into pieces by the network, the receive loop delivers exactly those
  frames, in order, keeps nothing in its buffer and never reports a bad frame.\<close>

theorem frames_survive_fragmentation:
  assumes "list_all2 (\<lambda>fr s. encode (f_type fr) (f_payload fr) (f_flags fr) = Inr s) frs ss"
    and "concat parts = concat ss"
  shows "foldl feed ([], [], False) parts = (frs, [], False)"
proof -
  have d: "drain ([] @ concat parts) = (frs, [], False)"
    using drain_encoded [OF assms(1)] assms(2) by simp
  have n: "nextFrame [] = NeedMore" by (simp add: nextFrame_def kHeaderSize_def)
  obtain o' b' c' where f: "foldl feed ([], [], False) parts = (o', b', c')" by (metis prod_cases3)
  from feed_all [OF n d f] f show ?thesis by simp
qed

theorem frames_survive_fragmentation_witness:
  "foldl feed ([], [], False)
     [''CS'', ''TR'' @ map chr_of [1, 0, 0], map chr_of [0, 0, 0, 0, 2] @ ''{'', ''}'']
   = ([\<lparr>f_type = FT_Json, f_flags = 0, f_payload = ''{}''\<rparr>], [], False)"
proof (rule frames_survive_fragmentation
    [where ss = "[''CSTR'' @ map chr_of [1, 0, 0, 0, 0, 0, 0, 2] @ ''{}'']"])
  show "list_all2 (\<lambda>fr s. encode (f_type fr) (f_payload fr) (f_flags fr) = Inr s)
    [\<lparr>f_type = FT_Json, f_flags = 0, f_payload = ''{}''\<rparr>]
    [''CSTR'' @ map chr_of [1, 0, 0, 0, 0, 0, 0, 2] @ ''{}'']"
    by (simp add: encode_def kMaxFrameSize_def kFrameMagic_def FT_Json_def writeU16Be_def writeU32Be_def)
qed simp

text \<open>a frame taken from the stream is an encoded frame. Whatever bytes a peer sends, the
  frame that the receive loop extracts is the one whose encoding stands at the front of the
  buffer, exactly its bytes are consumed, and the payload is within the frame limit.\<close>

theorem extracted_frame_is_encoded:
  assumes "nextFrame input = GotFrame fr rest"
  shows "length (f_payload fr) \<le> kMaxFrameSize \<and>
    (\<exists>s. encode (f_type fr) (f_payload fr) (f_flags fr) = Inr s \<and> input = s @ rest)"
  using nextFrame_GotFrame [OF assms] by (auto simp: encode_Inr)

theorem extracted_frame_is_encoded_witness:
  "\<exists>s. encode 7 ''ab'' 258 = Inr s \<and>
     ''CSTR'' @ map chr_of [1, 7, 1, 2, 0, 0, 0, 2] @ ''abXY'' = s @ ''XY''"
proof -
  have "nextFrame (''CSTR'' @ map chr_of [1, 7, 1, 2, 0, 0, 0, 2] @ ''abXY'') =
      GotFrame \<lparr>f_type = 7, f_flags = 258, f_payload = ''ab''\<rparr> ''XY''"
    by (simp add: nextFrame_def kHeaderSize_def parseHeader_def kFrameMagic_def Let_def
        readU16Be_def readU32Be_def kMaxFrameSize_def)
  from extracted_frame_is_encoded [OF this] show ?thesis by simp
qed

lemma decodeChunk_payload:
  assumes "length fileId = 32"
  shows "decodeChunk (fileId @ map chr_of (writeU64Be offset) @ data) =
    Some \<lparr>c_fileId = fileId, c_offset = offset, c_data = data\<rparr>"
proof -
  have "readU64Be (map byte_of (map chr_of (writeU64Be offset) @ data)) = offset"
    by (simp add: comp_def be64.dec_enc)
  with assms show ?thesis by (simp add: decodeChunk_def be64.length_enc)
qed

lemma encodeChunk_payload:
  "length fileId = 32 \<Longrightarrow> encodeChunk fileId offset data = encode FT_Chunk (fileId @ map chr_of (writeU64Be offset) @ data) 0"
  by (simp add: encodeChunk_def)

text \<open>The payload of a binary chunk decodes to the file id, the offset and the data it was
  made from, and it is refused exactly when the file id has not 32 bytes or the chunk does not
  fit into a frame.\<close>

theorem chunk_roundtrip:
  "encodeChunk fileId offset data =
     (if length fileId \<noteq> 32 then Inl (CloudError BadRequest ''file_id must be 32 hex chars'')
      else if length data > kMaxFrameSize - 40 then Inl (CloudError PayloadTooLarge ''frame too large'')
      else Inr (map chr_of (header_bytes FT_Chunk (40 + length data) 0)
                @ fileId @ map chr_of (writeU64Be offset) @ data))
   \<and> (length fileId = 32 \<longrightarrow>
        decodeChunk (fileId @ map chr_of (writeU64Be offset) @ data) =
          Some \<lparr>c_fileId = fileId, c_offset = offset, c_data = data\<rparr>)"
  by (simp add: decodeChunk_payload encodeChunk_def encode_def header_bytes_def be64.length_enc kMaxFrameSize_def comp_def)

theorem chunk_roundtrip_witness:
  "decodeChunk (replicate 32 CHR ''a'' @ map chr_of (writeU64Be 513) @ ''xyz'') =
     Some \<lparr>c_fileId = replicate 32 CHR ''a'', c_offset = 513, c_data = ''xyz''\<rparr>"
  using chunk_roundtrip [of "replicate 32 CHR ''a''" 513 "''xyz''"] by simp

end
