(* ===== verification/Connection.thy ===== *)
theory Connection
  imports Auth_Service Protocol Path_Guard
begin

text \<open>
  \<open>src/connection.cpp\<close>: one client connection. Its state is the session, the authenticated flag,
  the upload and download in progress, the bytes received and not yet handled and the bytes written
  to the output buffer. \<open>onRead\<close> cuts the input into frames and handles each one; a JSON frame is a
  command, answered by a JSON reply (or, for \<open>download_chunk\<close>, a chunk frame). Arguments of one call
  are evaluated from left to right. Log lines are left out.
\<close>

section \<open>State\<close>

record ('r, 'm, 'f) cstate = "('r, 'm, 'f) tstate" +
  c_session :: user_session
  c_authed :: bool
  c_peerIp :: string
  c_in :: string
  c_out :: string
  c_open :: bool

definition no_session :: user_session where
  "no_session = \<lparr>s_userId = 0, s_username = [], s_rootDir = [], s_token = []\<rparr>"

section \<open>Sending\<close>

definition bufferevent_write :: "string \<Rightarrow> (('r, 'm, 'f, 'z) cstate_scheme, unit) cpp" where
  "bufferevent_write raw = modify (\<lambda>w. w\<lparr>c_out := c_out w @ raw\<rparr>)"

definition sendJson :: "'j jsoncpp \<Rightarrow> 'j \<Rightarrow> (('r, 'm, 'f, 'z) cstate_scheme, unit) cpp" where
  "sendJson J v = bindE (liftS (encode FT_Json (dumpJson J v) 0)) bufferevent_write"

definition sendError :: "'j jsoncpp \<Rightarrow> u64 \<Rightarrow> error_code \<Rightarrow> string \<Rightarrow> (('r, 'm, 'f, 'z) cstate_scheme, unit) cpp" where
  "sendError J seq code msg = sendJson J (makeReply J seq (code_value code) msg (j_objectValue J))"

definition sendChunk :: "string \<Rightarrow> u64 \<Rightarrow> string \<Rightarrow> (('r, 'm, 'f, 'z) cstate_scheme, unit) cpp" where
  "sendChunk fileId offset data = bindE (liftS (encodeChunk fileId offset data)) bufferevent_write"

text \<open>\<open>sendJson(makeReply(seq, 0, "ok", data))\<close>.\<close>

definition sendOk :: "'j jsoncpp \<Rightarrow> u64 \<Rightarrow> 'j \<Rightarrow> (('r, 'm, 'f, 'z) cstate_scheme, unit) cpp" where
  "sendOk J seq data = sendJson J (makeReply J seq 0 ''ok'' data)"

section \<open>Guards\<close>

definition requireLogin :: "(('r, 'm, 'f, 'z) cstate_scheme, unit) cpp" where
  "requireLogin = bindE (gets c_authed) (\<lambda>ok.
     if \<not> ok then throw (CloudError Unauthorized ''login required'') else return ())"

definition resolveUserPath :: "('r, 'm, 'f) env \<Rightarrow> string \<Rightarrow> bool \<Rightarrow>
    (('r, 'm, 'f, 'z) cstate_scheme, string) cpp" where
  "resolveUserPath A logical mustExist =
     bindE requireLogin (\<lambda>_ w. (resolve (os A) (w_os w) (s_rootDir (c_session w)) logical mustExist, w))"

text \<open>Resolve a path that need not exist any more: first as an existing one, then, when that is not
  found, as a new one.\<close>

definition resolveAny :: "('r, 'm, 'f) env \<Rightarrow> string \<Rightarrow> (('r, 'm, 'f, 'z) cstate_scheme, string) cpp" where
  "resolveAny A path = catchE (resolveUserPath A path True)
     (\<lambda>e. case e of
            CloudError c m \<Rightarrow> if c \<noteq> NotFound then throw e else resolveUserPath A path False
          | StdException m \<Rightarrow> throw e)"

section \<open>Accounts\<close>

definition onRegister :: "('r, 'm, 'f) env \<Rightarrow> 'j jsoncpp \<Rightarrow> 'j \<Rightarrow> u64 \<Rightarrow> (('r, 'm, 'f, 'z) cstate_scheme, unit) cpp" where
  "onRegister A J root seq =
     bindE (liftS (j_at J root ''data'')) (\<lambda>data.
     bindE (liftS (get_string J data ''username'' [])) (\<lambda>username.
     bindE (liftS (get_string J data ''password'' [])) (\<lambda>password.
     bindE (registerUser A username password) (\<lambda>s.
     sendOk J seq (assign J (j_null J) [(''username'', j_str J (s_username s)), (''user_id'', j_Int J (s_userId s))])))))"

definition onLogin :: "('r, 'm, 'f) env \<Rightarrow> 'j jsoncpp \<Rightarrow> 'j \<Rightarrow> u64 \<Rightarrow> (('r, 'm, 'f, 'z) cstate_scheme, unit) cpp" where
  "onLogin A J root seq =
     bindE (liftS (j_at J root ''data'')) (\<lambda>data.
     bindE (liftS (get_string J data ''username'' [])) (\<lambda>username.
     bindE (liftS (get_string J data ''password'' [])) (\<lambda>password.
     bindE (gets c_peerIp) (\<lambda>ip.
     bindE (login A J username password ip) (\<lambda>s.
     bindE (modify (\<lambda>w. w\<lparr>c_session := s\<rparr>)) (\<lambda>_.
     bindE (modify (\<lambda>w. w\<lparr>c_authed := True\<rparr>)) (\<lambda>_.
     sendOk J seq (assign J (j_null J)
       [(''token'', j_str J (s_token s)), (''username'', j_str J (s_username s)),
        (''user_id'', j_Int J (s_userId s)), (''root'', j_str J ''/'')]))))))))"

definition onLogout :: "('r, 'm, 'f) env \<Rightarrow> 'j jsoncpp \<Rightarrow> 'j \<Rightarrow> u64 \<Rightarrow> (('r, 'm, 'f, 'z) cstate_scheme, unit) cpp" where
  "onLogout A J root seq =
     bindE requireLogin (\<lambda>_.
     bindE (gets (\<lambda>w. s_token (c_session w))) (\<lambda>token.
     bindE (logout A token) (\<lambda>_.
     bindE (modify (\<lambda>w. w\<lparr>c_authed := False\<rparr>)) (\<lambda>_.
     bindE (modify (\<lambda>w. w\<lparr>c_session := no_session\<rparr>)) (\<lambda>_.
     sendOk J seq (j_objectValue J))))))"

section \<open>Directories\<close>

definition entry_json :: "'j jsoncpp \<Rightarrow> file_entry \<Rightarrow> 'j" where
  "entry_json J e = assign J (j_null J)
     [(''name'', j_str J (fe_name e)), (''path'', j_str J (fe_path e)), (''type'', j_str J (fe_type e)),
      (''size'', j_UInt64 J (fe_size e)), (''mtime'', j_Int64 J (fe_mtime e)),
      (''status'', j_str J (if fe_type e = ''file'' then ''ready'' else ''ok''))]"

definition pending_json :: "'j jsoncpp \<Rightarrow> pending_file \<Rightarrow> 'j" where
  "pending_json J f = assign J (j_null J)
     [(''name'', j_str J (baseName (pf_virtualPath f))), (''path'', j_str J (pf_virtualPath f)),
      (''type'', j_str J ''file''), (''size'', j_UInt64 J (pf_size f)), (''mtime'', j_Int J 0),
      (''status'', j_str J (if pf_status f = [] then ''ready'' else pf_status f)), (''md5'', j_str J (pf_md5 f))]"

text \<open>The indexed files that \<open>onList\<close> adds to the physical entries named \<open>seen\<close>.\<close>

definition unseen :: "string list \<Rightarrow> pending_file list \<Rightarrow> pending_file list" where
  "unseen seen fs = filter (\<lambda>f. \<not> (baseName (pf_virtualPath f) = [] \<or> baseName (pf_virtualPath f) \<in> set seen)) fs"

text \<open>The logical directory of a path: a slash in front of the normalised path.\<close>

definition virtual_dir :: "string \<Rightarrow> string" where
  "virtual_dir logical = (if logical = [] then ''/'' else ''/'' @ logical)"

definition onList :: "('r, 'm, 'f) env \<Rightarrow> 'j jsoncpp \<Rightarrow> 'j \<Rightarrow> u64 \<Rightarrow> (('r, 'm, 'f, 'z) cstate_scheme, unit) cpp" where
  "onList A J root seq =
     bindE requireLogin (\<lambda>_.
     bindE (liftS (j_at J root ''data'')) (\<lambda>d.
     bindE (liftS (get_string J d ''path'' ''/'')) (\<lambda>path.
     bindE (liftS (get_bool J d ''recursive'')) (\<lambda>recursive.
     bindE (liftS (normalizeLogical path)) (\<lambda>logical.
     bindE (catchE (bindE (resolveUserPath A path True) (\<lambda>phys. listDir A phys recursive))
              (\<lambda>e. case e of
                     CloudError c m \<Rightarrow> if c \<noteq> NotFound then throw e else return []
                   | StdException m \<Rightarrow> throw e)) (\<lambda>entries.
     bindE (gets (\<lambda>w. s_userId (c_session w))) (\<lambda>userId.
     bindE (listIndexed A userId (virtual_dir logical)) (\<lambda>indexed.
     sendOk J seq (assign J (j_null J)
       [(''path'', j_str J (virtual_dir logical)),
        (''entries'', foldl (j_append J) (j_arrayValue J)
           (map (entry_json J) entries @ map (pending_json J) (unseen (map fe_name entries) indexed)))])))))))))"

definition onMkdir :: "('r, 'm, 'f) env \<Rightarrow> 'j jsoncpp \<Rightarrow> 'j \<Rightarrow> u64 \<Rightarrow> (('r, 'm, 'f, 'z) cstate_scheme, unit) cpp" where
  "onMkdir A J root seq =
     bindE requireLogin (\<lambda>_.
     bindE (liftS (j_at J root ''data'')) (\<lambda>d.
     bindE (liftS (get_string J d ''path'' [])) (\<lambda>path.
     bindE (resolveUserPath A path False) (\<lambda>phys.
     bindE (makeDir A phys) (\<lambda>_.
     bindE (liftS (normalizeLogical path)) (\<lambda>norm.
     bindE (gets (\<lambda>w. s_userId (c_session w))) (\<lambda>userId.
     bindE (indexFile A userId (''/'' @ norm) [] 0 True ''ready'') (\<lambda>_.
     sendOk J seq (j_objectValue J)))))))))"

definition onRm :: "('r, 'm, 'f) env \<Rightarrow> 'j jsoncpp \<Rightarrow> 'j \<Rightarrow> u64 \<Rightarrow> (('r, 'm, 'f, 'z) cstate_scheme, unit) cpp" where
  "onRm A J root seq =
     bindE requireLogin (\<lambda>_.
     bindE (liftS (j_at J root ''data'')) (\<lambda>d.
     bindE (liftS (get_string J d ''path'' [])) (\<lambda>path.
     bindE (liftS (normalizeLogical path)) (\<lambda>logical.
     if logical = [] then throw (CloudError Forbidden ''cannot remove user root'')
     else
       bindE (resolveUserPath A path False) (\<lambda>phys.
       bindE (gets c_session) (\<lambda>s.
       bindE (removeUserPath A s phys (''/'' @ logical)) (\<lambda>_.
       sendOk J seq (j_objectValue J))))))))"

definition onStat :: "('r, 'm, 'f) env \<Rightarrow> 'j jsoncpp \<Rightarrow> 'j \<Rightarrow> u64 \<Rightarrow> (('r, 'm, 'f, 'z) cstate_scheme, unit) cpp" where
  "onStat A J root seq =
     bindE requireLogin (\<lambda>_.
     bindE (liftS (j_at J root ''data'')) (\<lambda>d.
     bindE (liftS (get_string J d ''path'' ''/'')) (\<lambda>path.
     bindE (liftS (normalizeLogical path)) (\<lambda>logical.
     bindE (gets (\<lambda>w. s_userId (c_session w))) (\<lambda>userId.
     bindE (lookupFile A userId (virtual_dir logical)) (\<lambda>info.
     case (case info of Some i \<Rightarrow> if \<not> if_isDir i then Some i else None | None \<Rightarrow> None) of
       Some i \<Rightarrow>
         sendOk J seq (assign J (j_null J)
           [(''name'', j_str J (baseName (virtual_dir logical))), (''type'', j_str J ''file''),
            (''size'', j_UInt64 J (if_size i)), (''mtime'', j_Int J 0),
            (''status'', j_str J (if if_status i = [] then ''ready'' else if_status i)),
            (''md5'', j_str J (if_md5 i)), (''readable'', j_bool J True)])
     | None \<Rightarrow>
         bindE (resolveUserPath A path True) (\<lambda>phys.
         bindE (statPath A phys) (\<lambda>e.
         sendOk J seq (assign J (j_null J)
           [(''name'', j_str J (fe_name e)), (''type'', j_str J (fe_type e)), (''size'', j_UInt64 J (fe_size e)),
            (''mtime'', j_Int64 J (fe_mtime e)),
            (''status'', j_str J (if fe_type e = ''file'' then ''ready'' else ''ok''))])))))))))"

definition onRename :: "('r, 'm, 'f) env \<Rightarrow> 'j jsoncpp \<Rightarrow> 'j \<Rightarrow> u64 \<Rightarrow> (('r, 'm, 'f, 'z) cstate_scheme, unit) cpp" where
  "onRename A J root seq =
     bindE requireLogin (\<lambda>_.
     bindE (liftS (j_at J root ''data'')) (\<lambda>d.
     bindE (liftS (get_string J d ''from'' [])) (\<lambda>from.
     bindE (liftS (get_string J d ''to'' [])) (\<lambda>to.
     bindE (liftS (normalizeLogical from)) (\<lambda>fromL.
     bindE (liftS (normalizeLogical to)) (\<lambda>toL.
     bindE (resolveAny A from) (\<lambda>fromPhys.
     bindE (resolveUserPath A to False) (\<lambda>toPhys.
     bindE (gets c_session) (\<lambda>s.
     bindE (renameUserPath A s fromPhys (''/'' @ fromL) toPhys (''/'' @ toL)) (\<lambda>_.
     sendOk J seq (j_objectValue J)))))))))))"

section \<open>Transfers\<close>

definition onInstantQuery :: "('r, 'm, 'f) env \<Rightarrow> 'j jsoncpp \<Rightarrow> 'j \<Rightarrow> u64 \<Rightarrow> (('r, 'm, 'f, 'z) cstate_scheme, unit) cpp" where
  "onInstantQuery A J root seq =
     bindE requireLogin (\<lambda>_.
     bindE (liftS (j_at J root ''data'')) (\<lambda>d.
     bindE (liftS (get_string J d ''md5'' [])) (\<lambda>md5.
     bindE (liftS (get_u64 J d ''size'')) (\<lambda>sz.
     bindE (gets c_session) (\<lambda>s.
     bindE (queryInstant A s md5 sz) (\<lambda>q.
     sendOk J seq (assign J (j_null J)
       [(''hit'', j_bool J (iq_hit q)), (''size'', j_UInt64 J (iq_size q)),
        (''challenge_offset'', j_UInt64 J (iq_challengeOffset q)), (''challenge_len'', j_UInt J (iq_challengeLen q))])))))))"

definition onInstantUpload :: "('r, 'm, 'f) env \<Rightarrow> 'j jsoncpp \<Rightarrow> 'j \<Rightarrow> u64 \<Rightarrow> (('r, 'm, 'f, 'z) cstate_scheme, unit) cpp" where
  "onInstantUpload A J root seq =
     bindE requireLogin (\<lambda>_.
     bindE (liftS (j_at J root ''data'')) (\<lambda>d.
     bindE (liftS (get_string J d ''path'' [])) (\<lambda>path.
     bindE (liftS (normalizeLogical path)) (\<lambda>logical.
     bindE (resolveUserPath A path False) (\<lambda>phys.
     bindE (liftS (get_string J d ''md5'' [])) (\<lambda>md5.
     bindE (liftS (get_u64 J d ''size'')) (\<lambda>sz.
     bindE (liftS (get_u64 J d ''challenge_offset'')) (\<lambda>off.
     bindE (liftS (get_string J d ''proof_md5'' [])) (\<lambda>proofMd5.
     bindE (liftS (get_bool J d ''overwrite'')) (\<lambda>overwrite.
     bindE (gets c_session) (\<lambda>s.
     bindE (instantUpload A s phys (''/'' @ logical) md5 sz off proofMd5 overwrite) (\<lambda>_.
     sendOk J seq (assign J (j_null J)
       [(''instant'', j_bool J True), (''readable'', j_bool J True), (''status'', j_str J ''ready''),
        (''msg'', j_str J ''instant upload via reference counting; content shared in object store'')])))))))))))))"

definition onUploadBegin :: "('r, 'm, 'f) env \<Rightarrow> 'j jsoncpp \<Rightarrow> 'j \<Rightarrow> u64 \<Rightarrow> (('r, 'm, 'f, 'z) cstate_scheme, unit) cpp" where
  "onUploadBegin A J root seq =
     bindE requireLogin (\<lambda>_.
     bindE (liftS (j_at J root ''data'')) (\<lambda>d.
     bindE (liftS (get_string J d ''path'' [])) (\<lambda>path.
     bindE (liftS (normalizeLogical path)) (\<lambda>logical.
     bindE (closeUpload A) (\<lambda>_.
     bindE (resolveUserPath A path False) (\<lambda>phys.
     bindE (liftS (get_string J d ''md5'' [])) (\<lambda>md5.
     bindE (liftS (get_u64 J d ''size'')) (\<lambda>sz.
     bindE (gets c_session) (\<lambda>s.
     bindE (beginUpload A s phys (''/'' @ logical) md5 sz) (\<lambda>u.
     bindE (modify (\<lambda>w. w\<lparr>upload := u\<rparr>)) (\<lambda>_.
     sendOk J seq (assign J (j_null J)
       [(''file_id'', j_str J (us_fileId u)), (''offset'', j_UInt64 J (us_received u)),
        (''chunk_size'', j_UInt J (chunkSize (cfg A)))]))))))))))))"

definition onUploadEnd :: "('r, 'm, 'f) env \<Rightarrow> 'j jsoncpp \<Rightarrow> 'j \<Rightarrow> u64 \<Rightarrow> (('r, 'm, 'f, 'z) cstate_scheme, unit) cpp" where
  "onUploadEnd A J root seq =
     bindE requireLogin (\<lambda>_.
     bindE (gets c_session) (\<lambda>s.
     bindE (finishUpload A s) (\<lambda>_.
     bindE (gets upload) (\<lambda>u.
     bindE (modify (\<lambda>w. w\<lparr>upload := no_upload\<rparr>)) (\<lambda>_.
     sendOk J seq (assign J (j_null J)
       [(''md5'', j_str J (us_md5 u)), (''size'', j_UInt64 J (us_totalSize u)), (''status'', j_str J ''ready'')]))))))"

definition onDownloadBegin :: "('r, 'm, 'f) env \<Rightarrow> 'j jsoncpp \<Rightarrow> 'j \<Rightarrow> u64 \<Rightarrow> (('r, 'm, 'f, 'z) cstate_scheme, unit) cpp" where
  "onDownloadBegin A J root seq =
     bindE requireLogin (\<lambda>_.
     bindE (liftS (j_at J root ''data'')) (\<lambda>d.
     bindE (liftS (get_string J d ''path'' [])) (\<lambda>path.
     bindE (liftS (normalizeLogical path)) (\<lambda>logical.
     bindE (closeDownload A) (\<lambda>_.
     bindE (resolveAny A path) (\<lambda>phys.
     bindE (gets c_session) (\<lambda>s.
     bindE (beginDownload A s (''/'' @ logical)) (\<lambda>dl.
     bindE (modify (\<lambda>w. w\<lparr>download := dl\<rparr>)) (\<lambda>_.
     sendOk J seq (assign J (j_null J)
       [(''file_id'', j_str J (ds_fileId dl)), (''size'', j_UInt64 J (ds_totalSize dl)),
        (''chunk_size'', j_UInt J (chunkSize (cfg A)))]))))))))))"

text \<open>The number of bytes a \<open>download_chunk\<close> asks \<open>readChunk\<close> for.\<close>

definition wanted :: "('r, 'm, 'f) env \<Rightarrow> u32 \<Rightarrow> u32" where
  "wanted A want = (if want = 0 \<or> unat want > kMaxFrameSize - 64 then chunkSize (cfg A) else want)"

definition onDownloadChunk :: "('r, 'm, 'f) env \<Rightarrow> 'j jsoncpp \<Rightarrow> 'j \<Rightarrow> u64 \<Rightarrow> (('r, 'm, 'f, 'z) cstate_scheme, unit) cpp" where
  "onDownloadChunk A J root seq =
     bindE requireLogin (\<lambda>_.
     bindE (liftS (j_at J root ''data'')) (\<lambda>d.
     bindE (gets (\<lambda>w. ds_fileId (download w))) (\<lambda>fileId.
     bindE (if fileId = [] then return True
            else bindE (liftS (get_string J d ''file_id'' [])) (\<lambda>given. return (given \<noteq> fileId))) (\<lambda>bad.
     if bad then throw (CloudError BadRequest ''no such download'')
     else
       bindE (liftS (get_u64 J d ''offset'')) (\<lambda>offset.
       bindE (liftS (get_as J (j_asUInt J) d ''length'' (j_UInt J (chunkSize (cfg A))))) (\<lambda>want.
       bindE (readChunk A offset (wanted A want)) (\<lambda>bytes.
       if bytes = [] then
         sendOk J seq (assign J (j_null J) [(''eof'', j_bool J True), (''offset'', j_UInt64 J offset)])
       else sendChunk fileId offset bytes)))))))"

section \<open>Frames\<close>

definition is_command :: "string \<Rightarrow> bool" where
  "is_command cmd \<longleftrightarrow> cmd \<in> set [''register'', ''login'', ''logout'', ''ls'', ''mkdir'', ''rm'', ''stat'', ''rename'', ''mv'',
     ''instant_query'', ''instant_upload'', ''upload_begin'', ''upload_end'', ''download_begin'', ''download_chunk'']"

definition dispatch :: "('r, 'm, 'f) env \<Rightarrow> 'j jsoncpp \<Rightarrow> string \<Rightarrow> 'j \<Rightarrow> u64 \<Rightarrow> (('r, 'm, 'f, 'z) cstate_scheme, unit) cpp" where
  "dispatch A J cmd root seq =
     (if cmd = ''register'' then onRegister A J root seq
      else if cmd = ''login'' then onLogin A J root seq
      else if cmd = ''logout'' then onLogout A J root seq
      else if cmd = ''ls'' then onList A J root seq
      else if cmd = ''mkdir'' then onMkdir A J root seq
      else if cmd = ''rm'' then onRm A J root seq
      else if cmd = ''stat'' then onStat A J root seq
      else if cmd = ''rename'' \<or> cmd = ''mv'' then onRename A J root seq
      else if cmd = ''instant_query'' then onInstantQuery A J root seq
      else if cmd = ''instant_upload'' then onInstantUpload A J root seq
      else if cmd = ''upload_begin'' then onUploadBegin A J root seq
      else if cmd = ''upload_end'' then onUploadEnd A J root seq
      else if cmd = ''download_begin'' then onDownloadBegin A J root seq
      else if cmd = ''download_chunk'' then onDownloadChunk A J root seq
      else sendError J seq BadRequest (''unknown cmd: '' @ cmd))"

text \<open>\<open>root["token"].asString()\<close>, when the connection is not authenticated yet and the token counts.\<close>

definition given_token :: "'j jsoncpp \<Rightarrow> 'j \<Rightarrow> string \<Rightarrow> bool \<Rightarrow> exn + string" where
  "given_token J root cmd isAuthed =
     (if isAuthed then Inr []
      else (case j_isMember J root ''token'' of
              Inl e \<Rightarrow> Inl e
            | Inr False \<Rightarrow> Inr []
            | Inr True \<Rightarrow>
                (case j_at J root ''token'' of
                   Inl e \<Rightarrow> Inl e
                 | Inr v \<Rightarrow>
                     (case j_asString J v of
                        Inl e \<Rightarrow> Inl e
                      | Inr t \<Rightarrow> Inr (if cmd \<noteq> ''login'' \<and> cmd \<noteq> ''register'' then t else [])))))"

definition handleJson :: "('r, 'm, 'f) env \<Rightarrow> 'j jsoncpp \<Rightarrow> string \<Rightarrow> (('r, 'm, 'f, 'z) cstate_scheme, unit) cpp" where
  "handleJson A J payload =
     (case parseJson J payload of (ok, root, err) \<Rightarrow>
        if \<not> ok then sendError J 0 BadRequest (''bad json: '' @ err)
        else
          bindE (liftS (get_string J root ''cmd'' [])) (\<lambda>cmd.
          bindE (liftS (get_u64 J root ''seq'')) (\<lambda>seq.
          bindE (gets c_authed) (\<lambda>isAuthed.
          bindE (liftS (given_token J root cmd isAuthed)) (\<lambda>token.
          bindE (if token \<noteq> [] then
                   bindE (checkToken A J token) (\<lambda>s.
                   bindE (modify (\<lambda>w. w\<lparr>c_session := s\<rparr>)) (\<lambda>_.
                   modify (\<lambda>w. w\<lparr>c_authed := True\<rparr>)))
                 else return ()) (\<lambda>_.
          catchE (dispatch A J cmd root seq)
            (\<lambda>e. case e of
                   CloudError c m \<Rightarrow> sendError J seq c m
                 | StdException m \<Rightarrow> throw e)))))))"

definition handleChunk :: "('r, 'm, 'f) env \<Rightarrow> chunk_payload \<Rightarrow> (('r, 'm, 'f, 'z) cstate_scheme, unit) cpp" where
  "handleChunk A chunk =
     bindE (gets c_authed) (\<lambda>ok.
     if \<not> ok then throw (CloudError Unauthorized ''login required'')
     else
       bindE (gets upload) (\<lambda>u.
       if us_fileId u = [] \<or> c_fileId chunk \<noteq> us_fileId u then
         throw (CloudError BadRequest ''unexpected upload chunk'')
       else writeChunk A (c_offset chunk) (c_data chunk) (of_nat (length (c_data chunk)))))"

definition handleFrame :: "('r, 'm, 'f) env \<Rightarrow> 'j jsoncpp \<Rightarrow> frame \<Rightarrow> (('r, 'm, 'f, 'z) cstate_scheme, unit) cpp" where
  "handleFrame A J fr =
     (if f_type fr = FT_Json then handleJson A J (f_payload fr)
      else if f_type fr = FT_Chunk then
        (case decodeChunk (f_payload fr) of
           None \<Rightarrow> throw (CloudError BadRequest ''bad chunk'')
         | Some chunk \<Rightarrow> handleChunk A chunk)
      else throw (CloudError BadRequest ''unknown frame type''))"

text \<open>The destructor: the sessions' descriptors are closed, the socket is freed. \<open>close\<close> ends in it, by
  way of \<open>Server::removeConnection\<close>.\<close>

definition destroyConnection :: "('r, 'm, 'f) env \<Rightarrow> (('r, 'm, 'f, 'z) cstate_scheme, unit) cpp" where
  "destroyConnection A =
     bindE (closeUpload A) (\<lambda>_.
     bindE (closeDownload A) (\<lambda>_.
     modify (\<lambda>w. w\<lparr>c_open := False\<rparr>)))"

definition closeConnection :: "('r, 'm, 'f) env \<Rightarrow> (('r, 'm, 'f, 'z) cstate_scheme, unit) cpp" where
  "closeConnection A = destroyConnection A"

definition BEV_EVENT_EOF :: u16 where "BEV_EVENT_EOF = 0x10"
definition BEV_EVENT_ERROR :: u16 where "BEV_EVENT_ERROR = 0x20"
definition BEV_EVENT_TIMEOUT :: u16 where "BEV_EVENT_TIMEOUT = 0x40"

definition onEvent :: "('r, 'm, 'f) env \<Rightarrow> u16 \<Rightarrow> (('r, 'm, 'f, 'z) cstate_scheme, unit) cpp" where
  "onEvent A ev = (if ev AND (BEV_EVENT_EOF OR BEV_EVENT_ERROR OR BEV_EVENT_TIMEOUT) \<noteq> 0
     then closeConnection A else return ())"

text \<open>The \<open>try\<close> block around \<open>handleFrame\<close>.\<close>

definition guardedFrame :: "('r, 'm, 'f) env \<Rightarrow> 'j jsoncpp \<Rightarrow> frame \<Rightarrow> (('r, 'm, 'f, 'z) cstate_scheme, unit) cpp" where
  "guardedFrame A J fr = catchE (handleFrame A J fr)
     (\<lambda>e. case e of CloudError c m \<Rightarrow> sendError J 0 c m | StdException m \<Rightarrow> sendError J 0 Internal m)"

text \<open>The loop of \<open>onRead\<close>. Each turn removes at least a header from the input, so \<open>length (c_in w) + 1\<close>
  turns are enough; \<open>onRead_enough\<close> shows that the bound is never reached.\<close>

fun onRead_loop :: "('r, 'm, 'f) env \<Rightarrow> 'j jsoncpp \<Rightarrow> nat \<Rightarrow> (('r, 'm, 'f, 'z) cstate_scheme, unit) cpp" where
  "onRead_loop A J 0 = blocked"
| "onRead_loop A J (Suc n) =
     bindE (gets c_in) (\<lambda>input.
     case nextFrame input of
       NeedMore \<Rightarrow> return ()
     | BadFrame \<Rightarrow> closeConnection A
     | GotFrame fr rest \<Rightarrow>
         bindE (modify (\<lambda>w. w\<lparr>c_in := rest\<rparr>)) (\<lambda>_.
         bindE (guardedFrame A J fr) (\<lambda>_.
         onRead_loop A J n)))"

definition onRead :: "('r, 'm, 'f) env \<Rightarrow> 'j jsoncpp \<Rightarrow> (('r, 'm, 'f, 'z) cstate_scheme, unit) cpp" where
  "onRead A J = (\<lambda>w. onRead_loop A J (Suc (length (c_in w))) w)"

end
