(* ===== verification/Connection_Facts.thy ===== *)
theory Connection_Facts
  imports Connection
begin

text \<open>
  How a connection answers. The computations the handlers are made of either leave the connection's
  buffers alone (\<open>quiet\<close>) or append exactly one frame to the output when they return and none when
  they throw (\<open>answers\<close>); both are closed under the constructs of the handlers, so the property of
  a whole handler is read off its text.
\<close>

section \<open>Buffers\<close>

definition same_buffers :: "('r, 'm, 'f, 'z) cstate_scheme \<Rightarrow> ('r, 'm, 'f, 'z) cstate_scheme \<Rightarrow> bool" where
  "same_buffers w w' \<longleftrightarrow> c_out w' = c_out w \<and> c_in w' = c_in w \<and> c_open w' = c_open w"

definition quiet :: "(('r, 'm, 'f, 'z) cstate_scheme, 'a) cpp \<Rightarrow> bool" where
  "quiet m \<longleftrightarrow> (\<forall>w. same_buffers w (snd (m w)))"

text \<open>One frame, as the other side will cut it out of the stream.\<close>

definition one_frame :: "string \<Rightarrow> bool" where
  "one_frame raw \<longleftrightarrow> (\<exists>t p. encode t p 0 = Inr raw)"

definition answers :: "(('r, 'm, 'f, 'z) cstate_scheme, 'a) cpp \<Rightarrow> bool" where
  "answers m \<longleftrightarrow> (\<forall>w. case m w of
       (Ret x, w') \<Rightarrow> \<exists>raw. one_frame raw \<and> c_out w' = c_out w @ raw \<and> c_in w' = c_in w \<and> c_open w' = c_open w
     | (_, w') \<Rightarrow> same_buffers w w')"

named_theorems quiet_intros "computations that leave the buffers alone"
named_theorems answers_intros "computations that append one frame"

lemma same_buffers_refl [simp]: "same_buffers w w"
  by (simp add: same_buffers_def)

lemma same_buffers_trans: "same_buffers u v \<Longrightarrow> same_buffers v w \<Longrightarrow> same_buffers u w"
  by (simp add: same_buffers_def)

lemma more_frame_quiet: "more_frame m \<Longrightarrow> quiet m"
  unfolding quiet_def same_buffers_def
proof (intro allI conjI)
  fix w :: "('a, 'b, 'c, 'd) cstate_scheme"
  assume "more_frame m"
  then have e: "world.more (snd (m w)) = world.more w" by (rule more_frameD)
  have "c_out v = c_out w \<and> c_in v = c_in w \<and> c_open v = c_open w"
    if "world.more v = world.more w" for v :: "('a, 'b, 'c, 'd) cstate_scheme"
    using that by (cases v; cases w) simp
  with e show "c_out (snd (m w)) = c_out w" "c_in (snd (m w)) = c_in w" "c_open (snd (m w)) = c_open w" by blast+
qed

lemma quiet_basic [quiet_intros]:
  "quiet (return x)" "quiet (throw e)" "quiet (gets g)" "quiet (liftS r)" "quiet (Pair y)"
  by (simp_all add: quiet_def) (cases r; simp)

lemma quiet_modify [quiet_intros]:
  "quiet (modify (\<lambda>w. w\<lparr>c_session := s w\<rparr>))" "quiet (modify (\<lambda>w. w\<lparr>c_authed := a w\<rparr>))"
  "quiet (modify (\<lambda>w. w\<lparr>upload := u w\<rparr>))" "quiet (modify (\<lambda>w. w\<lparr>download := d w\<rparr>))"
  by (simp_all add: quiet_def same_buffers_def)

lemma quiet_bind [quiet_intros]:
  "quiet m \<Longrightarrow> (\<And>x. quiet (f x)) \<Longrightarrow> quiet (bindE m f)"
  "quiet m \<Longrightarrow> (\<And>x. quiet (h x)) \<Longrightarrow> quiet (catchE m h)"
  unfolding quiet_def bindE_def catchE_def
  by (auto split: prod.splits outcome.splits) (metis same_buffers_trans snd_conv)+

lemma quiet_cases [quiet_intros]:
  "(b \<Longrightarrow> quiet m) \<Longrightarrow> (\<not> b \<Longrightarrow> quiet n) \<Longrightarrow> quiet (if b then m else n)"
  "quiet m \<Longrightarrow> (\<And>y. quiet (k y)) \<Longrightarrow> quiet (case z of None \<Rightarrow> m | Some y \<Rightarrow> k y)"
  "(\<And>c m'. quiet (g c m')) \<Longrightarrow> (\<And>m'. quiet (h m')) \<Longrightarrow> quiet (case e of CloudError c m' \<Rightarrow> g c m' | StdException m' \<Rightarrow> h m')"
  by (cases z; cases e; simp)+

lemma quiet_service [quiet_intros]:
  "quiet (writeChunk A off data len)" "quiet (finishUpload A s)" "quiet (closeUpload A)"
  "quiet (readChunk A off len)" "quiet (closeDownload A)"
  unfolding writeChunk_def finishUpload_def closeUpload_def readChunk_def closeDownload_def Let_def
  by (intro quiet_intros more_frame_quiet [OF more_frame_basic(5)] more_frame_quiet more_frame_intros)+

lemma quiet_guards [quiet_intros]:
  "quiet requireLogin" "quiet (resolveUserPath A path b)" "quiet (resolveAny A path)"
proof -
  show 1: "quiet requireLogin" unfolding requireLogin_def by (intro quiet_intros)
  show 2: "quiet (resolveUserPath A path b)" for b
    unfolding resolveUserPath_def by (intro quiet_intros 1) (simp add: quiet_def)
  show "quiet (resolveAny A path)" unfolding resolveAny_def by (intro quiet_intros 2)
qed

lemma more_frame_handlers [more_frame_intros]:
  "more_frame (listIndexed A u d)"
  unfolding listIndexed_def Let_def by (intro more_frame_intros)

lemmas service_quiet = more_frame_quiet [OF more_frame_auth(1)] more_frame_quiet [OF more_frame_auth(2)]
  more_frame_quiet [OF more_frame_auth(3)] more_frame_quiet [OF more_frame_register]
  more_frame_service [THEN more_frame_quiet] more_frame_index [THEN more_frame_quiet]
  more_frame_handlers [THEN more_frame_quiet] more_frame_files [THEN more_frame_quiet]

section \<open>Answers\<close>

lemma answers_throw [answers_intros]: "answers (throw e)"
  by (simp add: answers_def)

lemma answers_bind [answers_intros]:
  assumes "quiet m" and "\<And>x. answers (f x)"
  shows "answers (bindE m f)"
  unfolding answers_def
proof
  fix w
  have q: "same_buffers w (snd (m w))" using assms(1) by (simp add: quiet_def)
  obtain r v where m: "m w = (r, v)" by fastforce
  show "case bindE m f w of
       (Ret x, w') \<Rightarrow> \<exists>raw. one_frame raw \<and> c_out w' = c_out w @ raw \<and> c_in w' = c_in w \<and> c_open w' = c_open w
     | (_, w') \<Rightarrow> same_buffers w w'"
  proof (cases r)
    case (Ret x)
    have "case f x v of
       (Ret x, w') \<Rightarrow> \<exists>raw. one_frame raw \<and> c_out w' = c_out v @ raw \<and> c_in w' = c_in v \<and> c_open w' = c_open v
     | (_, w') \<Rightarrow> same_buffers v w'"
      using assms(2) by (simp add: answers_def)
    then show ?thesis
      using q m Ret by (auto simp: bindE_run same_buffers_def split: prod.splits outcome.splits)
  qed (use q m in \<open>simp_all add: bindE_run\<close>)
qed

lemma answers_catch [answers_intros]:
  assumes "answers m" and "\<And>e. answers (h e)"
  shows "answers (catchE m h)"
  unfolding answers_def
proof
  fix w
  have a: "case m w of
       (Ret x, w') \<Rightarrow> \<exists>raw. one_frame raw \<and> c_out w' = c_out w @ raw \<and> c_in w' = c_in w \<and> c_open w' = c_open w
     | (_, w') \<Rightarrow> same_buffers w w'" using assms(1) by (simp add: answers_def)
  obtain r v where m: "m w = (r, v)" by fastforce
  show "case catchE m h w of
       (Ret x, w') \<Rightarrow> \<exists>raw. one_frame raw \<and> c_out w' = c_out w @ raw \<and> c_in w' = c_in w \<and> c_open w' = c_open w
     | (_, w') \<Rightarrow> same_buffers w w'"
  proof (cases r)
    case (Raise e)
    have "case h e v of
       (Ret x, w') \<Rightarrow> \<exists>raw. one_frame raw \<and> c_out w' = c_out v @ raw \<and> c_in w' = c_in v \<and> c_open w' = c_open v
     | (_, w') \<Rightarrow> same_buffers v w'"
      using assms(2) by (simp add: answers_def)
    then show ?thesis
      using a m Raise by (auto simp: catchE_run same_buffers_def split: prod.splits outcome.splits)
  qed (use a m in \<open>simp_all add: catchE_run\<close>)
qed

lemma answers_cases [answers_intros]:
  "(b \<Longrightarrow> answers m) \<Longrightarrow> (\<not> b \<Longrightarrow> answers n) \<Longrightarrow> answers (if b then m else n)"
  "answers m \<Longrightarrow> (\<And>y. answers (k y)) \<Longrightarrow> answers (case z of None \<Rightarrow> m | Some y \<Rightarrow> k y)"
  "(\<And>c m'. answers (g c m')) \<Longrightarrow> (\<And>m'. answers (h m')) \<Longrightarrow>
   answers (case e of CloudError c m' \<Rightarrow> g c m' | StdException m' \<Rightarrow> h m')"
  "(\<And>x y v. answers (l x y v)) \<Longrightarrow> answers (case t of (x, y, v) \<Rightarrow> l x y v)"
  by (cases z; cases e; cases t; simp)+

lemma answers_send [answers_intros]:
  "answers (sendJson J v)" "answers (sendError J seq c msg)" "answers (sendOk J seq d)"
  "answers (sendChunk fid off data)"
proof -
  have 1: "answers (bindE (liftS (encode t p 0)) bufferevent_write)" for t p
    by (cases "encode t p 0") (auto simp: answers_def liftS_def bufferevent_write_def one_frame_def)
  show json: "answers (sendJson J v)" for v unfolding sendJson_def by (rule 1)
  show "answers (sendError J seq c msg)" "answers (sendOk J seq d)"
    unfolding sendError_def sendOk_def by (rule json)+
  show "answers (sendChunk fid off data)"
  proof (cases "length fid = 32")
    case True
    then show ?thesis unfolding sendChunk_def encodeChunk_def by (simp add: 1)
  next
    case False
    then show ?thesis by (simp add: sendChunk_def encodeChunk_def answers_def liftS_def)
  qed
qed

lemma answers_handlers [answers_intros]:
  "answers (onRegister A J root seq)" "answers (onLogin A J root seq)" "answers (onLogout A J root seq)"
  "answers (onList A J root seq)" "answers (onMkdir A J root seq)" "answers (onRm A J root seq)"
  "answers (onStat A J root seq)" "answers (onRename A J root seq)" "answers (onInstantQuery A J root seq)"
  "answers (onInstantUpload A J root seq)" "answers (onUploadBegin A J root seq)"
  "answers (onUploadEnd A J root seq)" "answers (onDownloadBegin A J root seq)"
  "answers (onDownloadChunk A J root seq)"
  unfolding onRegister_def onLogin_def onLogout_def onList_def onMkdir_def onRm_def onStat_def onRename_def
    onInstantQuery_def onInstantUpload_def onUploadBegin_def onUploadEnd_def onDownloadBegin_def onDownloadChunk_def
  by (intro answers_intros quiet_intros service_quiet)+

lemma answers_dispatch [answers_intros]: "answers (dispatch A J cmd root seq)"
  unfolding dispatch_def by (intro answers_intros)

lemma answers_handleJson: "answers (handleJson A J payload)"
  unfolding handleJson_def by (intro answers_intros quiet_intros service_quiet)

lemma quiet_handleChunk: "quiet (handleChunk A chunk)"
  unfolding handleChunk_def by (intro quiet_intros)

section \<open>One turn of the read loop\<close>

lemma answers_Ret:
  "answers m \<Longrightarrow> m w = (Ret x, w') \<Longrightarrow>
   \<exists>raw. one_frame raw \<and> c_out w' = c_out w @ raw \<and> c_in w' = c_in w \<and> c_open w' = c_open w"
  unfolding answers_def by (force dest: spec [of _ w])

lemma sendJson_raises: "sendJson J v w = (Raise e, w') \<Longrightarrow> e = CloudError PayloadTooLarge ''frame too large'' \<and> w' = w"
  by (cases "encode FT_Json (dumpJson J v) 0")
    (auto simp: sendJson_def liftS_def bufferevent_write_def encode_def split: if_splits)

lemma guardedFrame_json: "f_type fr = FT_Json \<Longrightarrow> answers (guardedFrame A J fr)"
  unfolding guardedFrame_def handleFrame_def by (simp add: answers_intros answers_handleJson)

text \<open>Any other frame is answered only when its handling failed.\<close>

lemma quiet_handleFrame: "f_type fr \<noteq> FT_Json \<Longrightarrow> quiet (handleFrame A J fr)"
  unfolding handleFrame_def by (simp only: if_False) (intro quiet_intros quiet_handleChunk)

lemma guardedFrame_other:
  assumes "f_type fr \<noteq> FT_Json" and "guardedFrame A J fr w = (Ret x, w')"
  shows "(c_out w' = c_out w \<or> (\<exists>raw. one_frame raw \<and> c_out w' = c_out w @ raw)) \<and> c_in w' = c_in w \<and> c_open w' = c_open w"
proof -
  obtain r v where h: "handleFrame A J fr w = (r, v)" by fastforce
  have q: "same_buffers w v" using quiet_handleFrame [OF assms(1), of A J] h by (auto simp: quiet_def dest: spec [of _ w])
  show ?thesis
  proof (cases r)
    case (Raise e)
    have "answers (case e of CloudError c m \<Rightarrow> sendError J 0 c m | StdException m \<Rightarrow> sendError J 0 Internal m)"
      by (intro answers_intros)
    then show ?thesis using answers_Ret assms(2) h Raise q
      by (fastforce simp: guardedFrame_def catchE_run same_buffers_def)
  qed (use assms(2) h q in \<open>auto simp: guardedFrame_def catchE_run same_buffers_def\<close>)
qed

lemma guardedFrame_run:
  assumes "guardedFrame A J fr w = (Ret x, w')"
  shows "\<exists>raws. c_out w' = c_out w @ concat raws \<and> (\<forall>r \<in> set raws. one_frame r) \<and> c_in w' = c_in w \<and> c_open w' = c_open w \<and>
    length raws \<le> 1 \<and> (f_type fr = FT_Json \<longrightarrow> length raws = 1)"
proof (cases "f_type fr = FT_Json")
  case True
  then obtain raw where "one_frame raw" "c_out w' = c_out w @ raw" "c_in w' = c_in w" "c_open w' = c_open w"
    using answers_Ret [OF guardedFrame_json assms] by blast
  then show ?thesis by (intro exI [of _ "[raw]"]) simp
next
  case False
  from guardedFrame_other [OF this assms]
  consider "c_out w' = c_out w" "c_in w' = c_in w" "c_open w' = c_open w"
    | raw where "one_frame raw" "c_out w' = c_out w @ raw" "c_in w' = c_in w" "c_open w' = c_open w" by blast
  then show ?thesis
  proof cases
    case 1
    then show ?thesis using False by (intro exI [of _ "[]"]) simp
  next
    case 2
    then show ?thesis using False by (intro exI [of _ "[raw]"]) simp
  qed
qed

lemma guardedFrame_raises:
  assumes "guardedFrame A J fr w = (Raise e, w')"
  shows "e = CloudError PayloadTooLarge ''frame too large''"
proof -
  obtain r v where h: "handleFrame A J fr w = (r, v)" by fastforce
  then obtain e' where "r = Raise e'" using assms by (cases r) (auto simp: guardedFrame_def catchE_run)
  with h assms show ?thesis
    by (cases e') (auto simp: guardedFrame_def catchE_run sendError_def dest: sendJson_raises)
qed

lemma closeConnection_run: "\<exists>w'. closeConnection A w = (Ret (), w') \<and> c_in w' = c_in w \<and> c_out w' = c_out w \<and> \<not> c_open w'"
  by (simp add: closeConnection_def destroyConnection_def closeUpload_def closeDownload_def close_fd_def bindE_def on_os_run)

section \<open>The read loop\<close>

text \<open>More turns than there are bytes change nothing: the bound of \<open>onRead\<close> is never reached.\<close>

lemma onRead_loop_enough:
  "length (c_in w) < n \<Longrightarrow> length (c_in w) < n' \<Longrightarrow> onRead_loop A J n w = onRead_loop A J n' w"
proof (induction n arbitrary: w n')
  case (Suc n)
  then obtain k where k: "n' = Suc k" by (cases n') auto
  show ?case
  proof (cases "nextFrame (c_in w)")
    case (GotFrame fr rest)
    have less: "length rest < length (c_in w)" using nextFrame_shorter GotFrame by blast
    obtain r v where g: "guardedFrame A J fr (w\<lparr>c_in := rest\<rparr>) = (r, v)" by fastforce
    show ?thesis
    proof (cases r)
      case (Ret x)
      then have "c_in v = rest" using guardedFrame_run g by fastforce
      then have "onRead_loop A J n v = onRead_loop A J k v"
        using Suc.prems less k by (intro Suc.IH) auto
      then show ?thesis using k GotFrame g Ret by (simp add: bindE_def)
    qed (use k GotFrame g in \<open>simp_all add: bindE_def\<close>)
  qed (use k in \<open>simp_all add: bindE_def\<close>)
qed simp

lemma onRead_unfold:
  "onRead A J w = (case nextFrame (c_in w) of
       NeedMore \<Rightarrow> (Ret (), w)
     | BadFrame \<Rightarrow> closeConnection A w
     | GotFrame fr rest \<Rightarrow> bindE (guardedFrame A J fr) (\<lambda>_. onRead A J) (w\<lparr>c_in := rest\<rparr>))"
proof (cases "nextFrame (c_in w)")
  case (GotFrame fr rest)
  have less: "length rest < length (c_in w)" using nextFrame_shorter GotFrame by blast
  obtain r v where g: "guardedFrame A J fr (w\<lparr>c_in := rest\<rparr>) = (r, v)" by fastforce
  show ?thesis
  proof (cases r)
    case (Ret x)
    then have "c_in v = rest" using guardedFrame_run g by fastforce
    then have "onRead_loop A J (length (c_in w)) v = onRead_loop A J (Suc (length (c_in v))) v"
      using less by (intro onRead_loop_enough) auto
    then show ?thesis using GotFrame g Ret by (simp add: onRead_def bindE_def del: onRead_loop.simps(2)) (simp add: bindE_def)
  qed (use GotFrame g in \<open>simp_all add: onRead_def bindE_def\<close>)
qed (simp_all add: onRead_def bindE_def)

end
