(* ===== verification/Reference_Json.thy ===== *)
theory Reference_Json
  imports Json_Util "HOL-Library.AList"
begin

text \<open>
  A stand-in for the JSON library, used by the witnesses: values as a datatype, written in a simple
  prefix code instead of JSON text. It satisfies the laws of \<open>json_service\<close>. It is not part of the
  program.
\<close>

datatype rjson = RNull | RInt int | RUInt u64 | RStr string | RBool bool | RArr "rjson list"
  | RObj "(string \<times> rjson) list"

section \<open>Writing and reading\<close>

definition unary :: "nat \<Rightarrow> string" where
  "unary n = replicate n CHR ''1'' @ ''0''"

definition enc_str :: "string \<Rightarrow> string" where
  "enc_str s = unary (length s) @ s"

fun r_write :: "rjson \<Rightarrow> string" where
  "r_write RNull = ''n''"
| "r_write (RInt i) = CHR ''i'' # enc_str (to_string_int i)"
| "r_write (RUInt n) = CHR ''u'' # enc_str (to_string_nat (unat n))"
| "r_write (RStr s) = CHR ''s'' # enc_str s"
| "r_write (RBool b) = (if b then ''t'' else ''f'')"
| "r_write (RArr xs) = CHR ''a'' # unary (length xs) @ concat (map r_write xs)"
| "r_write (RObj kvs) = CHR ''o'' # unary (length kvs) @ concat (map (\<lambda>(k, v). enc_str k @ r_write v) kvs)"

fun dec_unary :: "string \<Rightarrow> (nat \<times> string) option" where
  "dec_unary [] = None"
| "dec_unary (c # s) = (if c = CHR ''0'' then Some (0, s)
     else (case dec_unary s of None \<Rightarrow> None | Some (n, r) \<Rightarrow> Some (Suc n, r)))"

definition dec_str :: "string \<Rightarrow> (string \<times> string) option" where
  "dec_str s = (case dec_unary s of None \<Rightarrow> None | Some (n, r) \<Rightarrow> Some (take n r, drop n r))"

definition dec_int :: "string \<Rightarrow> int" where
  "dec_int s = (if s \<noteq> [] \<and> hd s = CHR ''-'' then - int (digits_value (tl s)) else int (digits_value s))"

fun r_read :: "nat \<Rightarrow> string \<Rightarrow> (rjson \<times> string) option"
  and r_items :: "nat \<Rightarrow> nat \<Rightarrow> string \<Rightarrow> (rjson list \<times> string) option"
  and r_fields :: "nat \<Rightarrow> nat \<Rightarrow> string \<Rightarrow> ((string \<times> rjson) list \<times> string) option"
where
  "r_read 0 s = None"
| "r_read (Suc n) s = (case s of [] \<Rightarrow> None | c # s \<Rightarrow>
     (if c = CHR ''n'' then Some (RNull, s)
      else if c = CHR ''t'' then Some (RBool True, s)
      else if c = CHR ''f'' then Some (RBool False, s)
      else if c = CHR ''s'' then map_option (\<lambda>(t, r). (RStr t, r)) (dec_str s)
      else if c = CHR ''i'' then map_option (\<lambda>(t, r). (RInt (dec_int t), r)) (dec_str s)
      else if c = CHR ''u'' then map_option (\<lambda>(t, r). (RUInt (of_nat (digits_value t)), r)) (dec_str s)
      else if c = CHR ''a'' then
        (case dec_unary s of None \<Rightarrow> None | Some (k, r) \<Rightarrow> map_option (\<lambda>(xs, r). (RArr xs, r)) (r_items n k r))
      else if c = CHR ''o'' then
        (case dec_unary s of None \<Rightarrow> None | Some (k, r) \<Rightarrow> map_option (\<lambda>(xs, r). (RObj xs, r)) (r_fields n k r))
      else None))"
| "r_items 0 k s = (if k = 0 then Some ([], s) else None)"
| "r_items (Suc n) k s = (if k = 0 then Some ([], s) else (case r_read n s of None \<Rightarrow> None
     | Some (x, r) \<Rightarrow> map_option (\<lambda>(xs, r). (x # xs, r)) (r_items n (k - 1) r)))"
| "r_fields 0 k s = (if k = 0 then Some ([], s) else None)"
| "r_fields (Suc n) k s = (if k = 0 then Some ([], s) else (case dec_str s of None \<Rightarrow> None
     | Some (key, r) \<Rightarrow> (case r_read n r of None \<Rightarrow> None
        | Some (x, r) \<Rightarrow> map_option (\<lambda>(xs, r). ((key, x) # xs, r)) (r_fields n (k - 1) r))))"

definition r_parse :: "string \<Rightarrow> bool \<times> rjson \<times> string" where
  "r_parse s = (case r_read (length s + 1) s of Some (v, []) \<Rightarrow> (True, v, []) | _ \<Rightarrow> (False, RNull, ''syntax error''))"

section \<open>The record\<close>

definition type_error :: "exn + 'a" where
  "type_error = Inl (StdException ''wrong type'')"

fun r_set :: "rjson \<Rightarrow> string \<Rightarrow> rjson \<Rightarrow> rjson" where
  "r_set RNull k x = RObj [(k, x)]"
| "r_set (RObj kvs) k x = RObj (AList.update k x kvs)"
| "r_set v k x = v"

fun r_lookup :: "rjson \<Rightarrow> string \<Rightarrow> exn + rjson option" where
  "r_lookup RNull k = Inr None"
| "r_lookup (RObj kvs) k = Inr (map_of kvs k)"
| "r_lookup v k = type_error"

definition with_default :: "'a \<Rightarrow> exn + 'a option \<Rightarrow> exn + 'a" where
  "with_default d r = (case r of Inl e \<Rightarrow> Inl e | Inr None \<Rightarrow> Inr d | Inr (Some x) \<Rightarrow> Inr x)"

fun r_number :: "rjson \<Rightarrow> exn + int" where
  "r_number (RInt i) = Inr i"
| "r_number (RUInt n) = Inr (uint n)"
| "r_number RNull = Inr 0"
| "r_number v = type_error"

definition in_range :: "int \<Rightarrow> int \<Rightarrow> exn + int \<Rightarrow> exn + int" where
  "in_range lo hi r = (case r of Inl e \<Rightarrow> Inl e | Inr i \<Rightarrow> if lo \<le> i \<and> i < hi then Inr i else Inl (StdException ''out of range''))"

definition ref_json :: "rjson jsoncpp" where
  "ref_json = \<lparr>j_parse = r_parse, j_write = r_write, j_null = RNull, j_objectValue = RObj [], j_arrayValue = RArr [],
     j_str = RStr, j_Int = RInt, j_UInt = (\<lambda>n. RUInt (ucast n)), j_Int64 = RInt, j_UInt64 = RUInt, j_bool = RBool,
     j_set = r_set, j_append = (\<lambda>v x. case v of RArr xs \<Rightarrow> RArr (xs @ [x]) | _ \<Rightarrow> RArr [x]),
     j_isMember = (\<lambda>v k. map_sum id (\<lambda>x. x \<noteq> None) (r_lookup v k)),
     j_at = (\<lambda>v k. with_default RNull (r_lookup v k)),
     j_get = (\<lambda>v k d. with_default d (r_lookup v k)),
     j_asString = (\<lambda>v. case v of RStr s \<Rightarrow> Inr s | RNull \<Rightarrow> Inr [] | _ \<Rightarrow> type_error),
     j_asInt = (\<lambda>v. in_range (- (2 ^ 31)) (2 ^ 31) (r_number v)),
     j_asUInt = (\<lambda>v. map_sum id of_int (in_range 0 (2 ^ 32) (r_number v))),
     j_asUInt64 = (\<lambda>v. map_sum id of_int (in_range 0 (2 ^ 64) (r_number v))),
     j_asBool = (\<lambda>v. case v of RBool b \<Rightarrow> Inr b | _ \<Rightarrow> type_error),
     j_elems = (\<lambda>v. case v of RArr xs \<Rightarrow> xs | RObj kvs \<Rightarrow> map snd kvs | _ \<Rightarrow> [])\<rparr>"

section \<open>The laws hold\<close>

lemma dec_unary_unary [simp]: "dec_unary (unary n @ r) = Some (n, r)"
  by (induction n) (simp_all add: unary_def)

lemma dec_str_enc [simp]: "dec_str (enc_str s @ r) = Some (s, r)"
  by (simp add: dec_str_def enc_str_def)

lemma dec_int_to_string [simp]: "dec_int (to_string_int i) = i"
proof -
  have 1: "digits_value (to_string_nat n) = n" "to_string_nat n \<noteq> []" "hd (to_string_nat n) \<noteq> CHR ''-''" for n
    using to_string_nat_digits [of n] to_string_nat_nonempty [of n] isdigit_simps by (auto dest: hd_in_set)
  show ?thesis by (simp add: dec_int_def to_string_int_def 1)
qed

lemma write_nonempty: "r_write v \<noteq> []"
  by (cases v) simp_all

lemma r_items_write:
  assumes "\<And>x n r. x \<in> set xs \<Longrightarrow> length (r_write x) \<le> n \<Longrightarrow> r_read n (r_write x @ r) = Some (x, r)"
    and "length (concat (map r_write xs)) < n"
  shows "r_items n (length xs) (concat (map r_write xs) @ r) = Some (xs, r)"
  using assms
proof (induction xs arbitrary: n)
  case Nil
  then show ?case by (cases n) simp_all
next
  case (Cons x xs)
  obtain n' where n: "n = Suc n'" using Cons.prems(2) by (cases n) auto
  have "1 \<le> length (r_write x)" using write_nonempty [of x] by (cases "r_write x") simp_all
  then have "length (r_write x) \<le> n'" "length (concat (map r_write xs)) < n'" using Cons.prems(2) n by simp_all
  with Cons n show ?case by (simp add: Cons.prems(1) del: r_items.simps r_read.simps) (simp add: Cons.prems(1) Cons.IH del: r_read.simps)
qed

lemma r_fields_write:
  assumes "\<And>k x n r. (k, x) \<in> set kvs \<Longrightarrow> length (r_write x) \<le> n \<Longrightarrow> r_read n (r_write x @ r) = Some (x, r)"
    and "length (concat (map (\<lambda>(k, v). enc_str k @ r_write v) kvs)) < n"
  shows "r_fields n (length kvs) (concat (map (\<lambda>(k, v). enc_str k @ r_write v) kvs) @ r) = Some (kvs, r)"
  using assms
proof (induction kvs arbitrary: n)
  case Nil
  then show ?case by (cases n) simp_all
next
  case (Cons kx kvs)
  obtain k x where kx: "kx = (k, x)" by fastforce
  obtain n' where n: "n = Suc n'" using Cons.prems(2) by (cases n) auto
  have "1 \<le> length (enc_str k)" by (simp add: enc_str_def unary_def)
  then have fuel: "length (r_write x) \<le> n'" "length (concat (map (\<lambda>(k, v). enc_str k @ r_write v) kvs)) < n'"
    using Cons.prems(2) n kx by simp_all
  have "r_read n' (r_write x @ s) = Some (x, s)" for s using Cons.prems(1) [of k x] kx fuel(1) by simp
  moreover have "r_fields n' (length kvs) (concat (map (\<lambda>(k, v). enc_str k @ r_write v) kvs) @ r) = Some (kvs, r)"
    using Cons.prems(1) fuel(2) by (intro Cons.IH) auto
  ultimately show ?case by (simp add: n kx del: r_read.simps)
qed

text \<open>Every value reads back, with as much fuel as it has characters.\<close>

lemma r_read_write: "length (r_write v) \<le> n \<Longrightarrow> r_read n (r_write v @ r) = Some (v, r)"
proof (induction v arbitrary: n r)
  case (RArr xs)
  then obtain n' where n: "n = Suc n'" by (cases n) auto
  have "length (concat (map r_write xs)) < n'" using RArr.prems by (simp add: n unary_def)
  from r_items_write [OF RArr.IH this] show ?case by (simp add: n del: r_items.simps)
next
  case (RObj kvs)
  then obtain n' where n: "n = Suc n'" by (cases n) auto
  have "length (concat (map (\<lambda>(k, v). enc_str k @ r_write v) kvs)) < n'" using RObj.prems by (simp add: n unary_def)
  then have "r_fields n' (length kvs) (concat (map (\<lambda>(k, v). enc_str k @ r_write v) kvs) @ r) = Some (kvs, r)"
    using RObj.IH by (intro r_fields_write) (auto simp: snds.simps)
  then show ?case by (simp add: n del: r_fields.simps)
next
  case RNull
  then show ?case by (cases n) simp_all
next
  case (RInt i)
  then show ?case by (cases n) simp_all
next
  case (RUInt w)
  then show ?case by (cases n) (simp_all add: to_string_nat_digits)
next
  case (RStr s)
  then show ?case by (cases n) simp_all
next
  case (RBool b)
  then show ?case by (cases n) (simp_all split: if_splits)
qed

lemma r_parse_write: "r_parse (r_write v) = (True, v, [])"
  using r_read_write [of v "length (r_write v) + 1" "[]"] by (simp add: r_parse_def)

lemma uint_u64_bound [simp]: "uint (n :: u64) < 18446744073709551616"
  using uint_lt2p [of n] by simp

definition r_obj :: "rjson \<Rightarrow> bool" where
  "r_obj v \<longleftrightarrow> v = RNull \<or> (\<exists>kvs. v = RObj kvs)"

interpretation ref_json: json_service ref_json r_obj "\<lambda>_. True"
proof (unfold_locales, goal_cases)
  case (11 fs)
  show ?case by (simp add: ref_json_def r_parse_write)
next
  case (12 v)
  show ?case by (cases v) (simp_all add: ref_json_def)
qed (auto simp: ref_json_def r_obj_def with_default_def in_range_def update_conv' split: option.splits if_splits)

end
