(* ===== verification/Connection_Properties.thy ===== *)
theory Connection_Properties
  imports Connection_Facts Reference_Json Transfer_Properties
begin

text \<open>
  The properties of a connection: every command is answered by exactly one frame, nothing but a login
  gets through before the login, the read loop handles every complete frame and ends, and no exception
  of the services reaches the event loop.
\<close>

section \<open>A connection of the reference server\<close>

definition ref_conn :: "(ref_redis, ref_db, ref_fs) cstate" where
  "ref_conn = \<lparr>w_os = ref_fs0, w_redis = ref_redis0, ctx_set = True, w_mysql = \<lparr>rd_index = [], rd_users = []\<rparr>,
     idle_conns = [0, 1], pool_stopping = False, upload = no_upload, download = no_download,
     c_session = no_session, c_authed = False, c_peerIp = ''ip'', c_in = [], c_out = [], c_open = True\<rparr>"

definition ref_request :: "string \<Rightarrow> string" where
  "ref_request cmd = r_write (RObj [(''cmd'', RStr cmd), (''seq'', RUInt 7)])"

definition json_frame :: "string \<Rightarrow> frame" where
  "json_frame p = \<lparr>f_type = FT_Json, f_flags = 0, f_payload = p\<rparr>"

lemma ref_stat_run: "fst (guardedFrame ref_env ref_json (json_frame (ref_request ''stat'')) ref_conn) = Ret ()"
  by code_simp

section \<open>Replies\<close>

lemma one_frame_next: "one_frame raw \<Longrightarrow> \<exists>t p. nextFrame raw = GotFrame \<lparr>f_type = t, f_flags = 0, f_payload = p\<rparr> []"
  using nextFrame_encode [where rest = "[]"] by (auto simp: one_frame_def)

text \<open>C12: every command is answered by exactly one frame: handling a JSON frame appends to the
  output, on success and on every failure that a handler reports, one frame that the client cuts out
  of the stream as it is, and nothing else.\<close>

theorem json_frame_gets_one_reply:
  fixes w :: "('r, 'm, 'f, 'z) cstate_scheme"
  assumes "f_type fr = FT_Json" and "guardedFrame A J fr w = (Ret (), w')"
  shows "\<exists>t p raw. c_out w' = c_out w @ raw \<and> nextFrame raw = GotFrame \<lparr>f_type = t, f_flags = 0, f_payload = p\<rparr> []"
  using answers_Ret [OF guardedFrame_json [OF assms(1)] assms(2)] one_frame_next by blast

theorem json_frame_gets_one_reply_witness:
  "\<exists>t p raw. c_out (snd (guardedFrame ref_env ref_json (json_frame (ref_request ''stat'')) ref_conn)) = c_out ref_conn @ raw \<and>
     nextFrame raw = GotFrame \<lparr>f_type = t, f_flags = 0, f_payload = p\<rparr> []"
  by (rule json_frame_gets_one_reply [where A = ref_env and J = ref_json and fr = "json_frame (ref_request ''stat'')"])
    (simp add: json_frame_def, rule prod_eqI, simp_all add: ref_stat_run)

section \<open>The read loop\<close>

definition is_json :: "frame \<Rightarrow> bool" where
  "is_json fr \<longleftrightarrow> f_type fr = FT_Json"

lemma onRead_frames:
  fixes w :: "('r, 'm, 'f, 'z) cstate_scheme"
  assumes "onRead A J w = (Ret (), w')" and "drain (c_in w) = (fs, left, bad)"
  shows "c_in w' = left \<and> (c_open w' \<longleftrightarrow> c_open w \<and> \<not> bad) \<and>
    (\<exists>raws. c_out w' = c_out w @ concat raws \<and> (\<forall>r \<in> set raws. one_frame r) \<and>
       length (filter is_json fs) \<le> length raws \<and> length raws \<le> length fs)"
  using assms
proof (induction "c_in w" arbitrary: w fs rule: drain.induct)
  case 1
  show ?case
  proof (cases "nextFrame (c_in w)")
    case NeedMore
    then show ?thesis using 1(2,3) drain.simps [of "c_in w"] by (subst (asm) onRead_unfold) auto
  next
    case BadFrame
    then have "closeConnection A w = (Ret (), w')" "fs = []" "left = c_in w" "bad"
      using 1(2,3) drain.simps [of "c_in w"] by (simp_all add: onRead_unfold)
    then show ?thesis using closeConnection_run [of A w] by auto
  next
    case (GotFrame fr rest)
    obtain gs where gs: "drain rest = (gs, left, bad)" "fs = fr # gs"
      using 1(3) drain.simps [of "c_in w"] GotFrame by (auto split: prod.splits)
    have "bindE (guardedFrame A J fr) (\<lambda>_. onRead A J) (w\<lparr>c_in := rest\<rparr>) = (Ret (), w')"
      using 1(2) GotFrame by (simp add: onRead_unfold)
    then obtain x v where v: "guardedFrame A J fr (w\<lparr>c_in := rest\<rparr>) = (Ret x, v)" "onRead A J v = (Ret (), w')"
      by (rule bindE_RetD)
    obtain raws where raws: "c_out v = c_out w @ concat raws" "\<forall>r \<in> set raws. one_frame r" "c_in v = rest"
        "c_open v = c_open w" "length raws \<le> 1" "f_type fr = FT_Json \<longrightarrow> length raws = 1"
      using guardedFrame_run [OF v(1)] by auto
    have "c_in w' = left \<and> (c_open w' \<longleftrightarrow> c_open v \<and> \<not> bad) \<and>
      (\<exists>raws. c_out w' = c_out v @ concat raws \<and> (\<forall>r \<in> set raws. one_frame r) \<and>
         length (filter is_json gs) \<le> length raws \<and> length raws \<le> length gs)"
      by (rule 1(1)) (use GotFrame v(2) gs(1) raws(3) in simp_all)
    then obtain raws' where "c_in w' = left" "c_open w' \<longleftrightarrow> c_open v \<and> \<not> bad" "c_out w' = c_out v @ concat raws'"
        "\<forall>r \<in> set raws'. one_frame r" "length (filter is_json gs) \<le> length raws'" "length raws' \<le> length gs"
      by blast
    then show ?thesis using raws gs(2)
      by (auto simp: is_json_def intro!: exI [of _ "raws @ raws'"])
  qed
qed

text \<open>C14: the read loop handles every complete frame of the input, in order, and keeps what is left
  for the next bytes: afterwards the input buffer holds exactly what cutting the stream into frames
  leaves over, the connection is closed iff a bad header was met, and the output has grown by whole
  frames, at least one for every command and at most one for every frame.\<close>

theorem onRead_handles_all_frames:
  fixes w :: "('r, 'm, 'f, 'z) cstate_scheme"
  assumes "onRead A J w = (Ret (), w')" and "drain (c_in w) = (fs, left, bad)"
  shows "c_in w' = left \<and> (c_open w' \<longleftrightarrow> c_open w \<and> \<not> bad) \<and>
    (\<exists>raws. c_out w' = c_out w @ concat raws \<and> (\<forall>r \<in> set raws. one_frame r) \<and>
       length (filter is_json fs) \<le> length raws \<and> length raws \<le> length fs)"
  by (rule onRead_frames [OF assms])

text \<open>the bound the model puts on the read loop is never reached: with any number of turns above
  the number of bytes in the input buffer the loop gives the same result, so it ends.\<close>

theorem onRead_loop_ends:
  fixes w :: "('r, 'm, 'f, 'z) cstate_scheme"
  assumes "length (c_in w) < n"
  shows "onRead_loop A J n w = onRead A J w"
  unfolding onRead_def by (rule onRead_loop_enough) (use assms in simp_all)

text \<open>C30: no exception of a handler or a service reaches the event loop: handling a frame can only
  throw when the error reply itself exceeds the frame limit.\<close>

theorem exceptions_are_answered:
  fixes w :: "('r, 'm, 'f, 'z) cstate_scheme"
  assumes "guardedFrame A J fr w = (Raise e, w')"
  shows "e = CloudError PayloadTooLarge ''frame too large''"
  by (rule guardedFrame_raises [OF assms])

section \<open>Before the login\<close>

text \<open>C15: a connection that is not logged in and names no session is refused every command but
  \<open>register\<close> and \<open>login\<close>: the reply has code 401 and carries the sequence number of the command, and
  nothing but the output buffer changes.\<close>

theorem unauthenticated_commands_rejected:
  fixes w :: "('r, 'm, 'f, 'z) cstate_scheme"
  assumes "parseJson J payload = (True, root, err)" and "get_string J root ''cmd'' [] = Inr cmd"
    and "get_u64 J root ''seq'' = Inr seq" and "given_token J root cmd False = Inr []"
    and "is_command cmd" and "cmd \<notin> {''login'', ''register''}" and "\<not> c_authed w"
  shows "handleJson A J payload w = sendJson J (makeReply J seq 401 ''login required'' (j_objectValue J)) w \<and>
    (\<exists>raw. snd (handleJson A J payload w) = w\<lparr>c_out := c_out w @ raw\<rparr>)"
proof -
  have login: "bindE requireLogin f w = (Raise (CloudError Unauthorized ''login required''), w)"
    for f :: "unit \<Rightarrow> (('r, 'm, 'f, 'z) cstate_scheme, unit) cpp"
    using assms(7) by (simp add: requireLogin_def bindE_def)
  have "dispatch A J cmd root seq w = (Raise (CloudError Unauthorized ''login required''), w)"
    using assms(5,6) unfolding is_command_def dispatch_def
    by (auto simp: onLogout_def onList_def onMkdir_def onRm_def onStat_def onRename_def onInstantQuery_def
        onInstantUpload_def onUploadBegin_def onUploadEnd_def onDownloadBegin_def onDownloadChunk_def login)
  then have 1: "handleJson A J payload w = sendJson J (makeReply J seq 401 ''login required'' (j_objectValue J)) w"
    using assms(1-4,7) by (simp add: handleJson_def bindE_def catchE_run sendError_def)
  have "\<exists>raw. snd (sendJson J v w) = w\<lparr>c_out := c_out w @ raw\<rparr>" for v
    by (cases "encode FT_Json (dumpJson J v) 0")
      (auto simp: sendJson_def liftS_def bufferevent_write_def intro: exI [of _ "[]"])
  then show ?thesis using 1 by simp
qed

text \<open>A chunk is written only on a logged-in connection and into the upload it names; otherwise the
  frame is answered by an error and nothing else changes.\<close>

theorem stray_chunk_refused:
  fixes w :: "('r, 'm, 'f, 'z) cstate_scheme"
  assumes "\<not> c_authed w \<or> us_fileId (upload w) = [] \<or> c_fileId chunk \<noteq> us_fileId (upload w)"
  shows "handleChunk A chunk w =
    (Raise (if c_authed w then CloudError BadRequest ''unexpected upload chunk''
            else CloudError Unauthorized ''login required''), w)"
  using assms by (auto simp: handleChunk_def bindE_def)

section \<open>Download replies\<close>


section \<open>Witnesses\<close>

text \<open>Input of a command and the first bytes of the next.\<close>

definition ref_input :: string where
  "ref_input = (case encode FT_Json (ref_request ''ls'') 0 of Inr raw \<Rightarrow> raw @ ''CSTR'' | Inl e \<Rightarrow> [])"

definition ref_reading :: "(ref_redis, ref_db, ref_fs) cstate" where
  "ref_reading = ref_conn\<lparr>c_in := ref_input\<rparr>"

lemma ref_reading_runs: "fst (onRead ref_env ref_json ref_reading) = Ret ()"
  by code_simp

lemma ref_drain: "drain (c_in ref_reading) = ([json_frame (ref_request ''ls'')], ''CSTR'', False)"
  by code_simp

theorem onRead_handles_all_frames_witness:
  "c_in (snd (onRead ref_env ref_json ref_reading)) = ''CSTR''"
proof -
  have "onRead ref_env ref_json ref_reading = (Ret (), snd (onRead ref_env ref_json ref_reading))"
    using ref_reading_runs by (metis prod.collapse)
  from onRead_handles_all_frames [OF this ref_drain] show ?thesis by blast
qed

theorem onRead_loop_ends_witness: "onRead_loop ref_env ref_json 1 ref_conn = onRead ref_env ref_json ref_conn"
  by (rule onRead_loop_ends) (simp add: ref_conn_def)

text \<open>A JSON library whose replies are never small enough.\<close>

definition huge_json :: "rjson jsoncpp" where
  "huge_json = ref_json\<lparr>j_write := (\<lambda>_. replicate (kMaxFrameSize + 1) NUL)\<rparr>"

lemma huge_encode: "encode FT_Json (dumpJson huge_json v) 0 = Inl (CloudError PayloadTooLarge ''frame too large'')"
  by (simp add: encode_def dumpJson_def huge_json_def)

lemma huge_raises:
  "guardedFrame ref_env huge_json (json_frame []) ref_conn = (Raise (CloudError PayloadTooLarge ''frame too large''), ref_conn)"
proof -
  have "handleJson ref_env huge_json [] ref_conn = sendError huge_json 0 BadRequest (''bad json: '' @ ''syntax error'') ref_conn"
    by (simp add: handleJson_def parseJson_def huge_json_def ref_json_def r_parse_def)
  then show ?thesis
    by (simp add: guardedFrame_def handleFrame_def json_frame_def sendError_def sendJson_def huge_encode catchE_def liftS_def)
qed

theorem exceptions_are_answered_witness:
  "\<exists>e. guardedFrame ref_env huge_json (json_frame []) ref_conn = (Raise e, ref_conn) \<and>
     e = CloudError PayloadTooLarge ''frame too large''"
  using exceptions_are_answered [OF huge_raises] huge_raises by blast

lemma ref_request_parse: "parseJson ref_json (ref_request ''rm'') = (True, RObj [(''cmd'', RStr ''rm''), (''seq'', RUInt 7)], [])"
  by code_simp

theorem unauthenticated_commands_rejected_witness:
  "handleJson ref_env ref_json (ref_request ''rm'') ref_conn =
     sendJson ref_json (makeReply ref_json 7 401 ''login required'' (RObj [])) ref_conn"
  using unauthenticated_commands_rejected [OF ref_request_parse, of "''rm''" 7 ref_conn ref_env]
  by (simp add: get_string_def get_u64_def get_as_def given_token_def ref_json_def with_default_def in_range_def
      is_command_def ref_conn_def)

theorem stray_chunk_refused_witness:
  "handleChunk ref_env \<lparr>c_fileId = ''x'', c_offset = 0, c_data = []\<rparr> ref_conn =
     (Raise (CloudError Unauthorized ''login required''), ref_conn)"
  using stray_chunk_refused [of ref_conn "\<lparr>c_fileId = ''x'', c_offset = 0, c_data = []\<rparr>" ref_env]
  by (simp add: ref_conn_def)

definition ref_download :: "(ref_redis, ref_db, ref_fs) cstate" where
  "ref_download = ref_conn
     \<lparr>w_os := ref_fs0\<lparr>rf_files := [''/p'' \<mapsto> ''abc''], rf_fds := [3 \<mapsto> (''/p'', 0)], rf_next := 4\<rparr>,
      download := \<lparr>ds_fileId = replicate 32 CHR ''a'', ds_srcPath = ''/p'', ds_totalSize = 3, ds_fd = 3\<rparr>\<rparr>"


end
