(* ===== verification/Auth_Facts.thy ===== *)
theory Auth_Facts
  imports Auth_Service Reference_Env Reference_Json
begin

text \<open>
  The laws \<open>src/auth.cpp\<close> relies on of the table \<open>users\<close> and the symbolic runs of its operations
  under them, with the pool, Redis, the digests and the JSON library. User names are compared under
  the collation of the table: \<open>uk\<close> is the collation key of a name.
\<close>

section \<open>The accounts\<close>

locale user_service =
  fixes M :: "'m mysql_client" and users :: "'m \<Rightarrow> string \<Rightarrow> user_row option"
    and uk :: "string \<Rightarrow> string" and ufits :: "string \<Rightarrow> string \<Rightarrow> bool"
  assumes uping_ok: "fst (my_ping M h m)"
    and uping_users: "users (snd (my_ping M h m)) = users m"
    and uprepare_ok: "text \<in> {sql_login_log, sql_insert_user, sql_select_user} \<Longrightarrow> fst (my_prepare M h text m) = None"
    and uprepare_users: "users (snd (my_prepare M h text m)) = users m"
    and log_users: "users (snd (my_execute M h sql_login_log [SqlInt u, SqlString ip, SqlInt b] m)) = users m"
    and select_ok: "\<exists>k. fst (my_execute M h sql_select_user [SqlString n] m) =
      Inr \<lparr>sql_rows = (case users m (uk n) of None \<Rightarrow> [] | Some r \<Rightarrow> [row_user r]), sql_insert_id = k\<rparr>"
    and select_users: "users (snd (my_execute M h sql_select_user [SqlString n] m)) = users m"
    and insert_new: "users m (uk n) = None \<Longrightarrow> ufits n root \<Longrightarrow>
      \<exists>i. fst (my_execute M h sql_insert_user [SqlString n, SqlString hash, SqlString salt, SqlString root] m) =
          Inr \<lparr>sql_rows = [], sql_insert_id = i\<rparr> \<and>
        users (snd (my_execute M h sql_insert_user [SqlString n, SqlString hash, SqlString salt, SqlString root] m)) =
          (users m)(uk n \<mapsto> \<lparr>ur_id = int_of_u64 i, ur_hash = hash, ur_salt = salt, ur_root = root\<rparr>)"
    and insert_duplicate: "users m (uk n) \<noteq> None \<Longrightarrow>
      \<exists>err. fst (my_execute M h sql_insert_user [SqlString n, SqlString hash, SqlString salt, SqlString root] m) =
          Inl err \<and> contains ''Duplicate'' err \<and>
        users (snd (my_execute M h sql_insert_user [SqlString n, SqlString hash, SqlString salt, SqlString root] m)) =
          users m"

interpretation ref_users: user_service ref_mysql "\<lambda>m. map_of (rd_users m)" "\<lambda>n. n" "\<lambda>n r. True"
  by unfold_locales (auto simp: ref_mysql_def ref_execute_def Let_def)

lemma contains_append: "contains x s \<Longrightarrow> contains x (pre @ s)"
  by (induction pre) auto

section \<open>The user's directory\<close>

text \<open>\<open>ensureDir\<close> depends on the file system only.\<close>

lemma ensureDir_go_os:
  "\<exists>b f. \<forall>w :: ('r, 'm, 'f, 'z) world_scheme. w_os w = f0 \<longrightarrow> ensureDir_go A parts cur w = (Ret b, w\<lparr>w_os := f\<rparr>)"
proof (induction parts arbitrary: cur f0)
  case Nil
  show ?case by (intro exI [of _ True] exI [of _ f0]) auto
next
  case (Cons part parts)
  show ?case
  proof (cases "part = [] \<or> part = ''.''")
    case True
    then show ?thesis using Cons.IH by simp
  next
    case False
    define cur' where "cur' = (if cur = ''/'' then cur @ part else if cur = [] then part else cur @ ''/'' @ part)"
    define r where "r = os_mkdir (os A) (c_str cur') f0"
    have step: "ensureDir_go A (part # parts) cur w =
        (if fst r \<noteq> None \<and> fst r \<noteq> Some EEXIST then return False
         else ensureDir_go A parts cur') (w\<lparr>w_os := snd r\<rparr>)" if "w_os w = f0" for w :: "('r, 'm, 'f, 'z) world_scheme"
      using False that unfolding r_def cur'_def
      by (simp only: ensureDir_go.simps Let_def if_False bindE_run(1) [OF on_os_run])
    show ?thesis
    proof (cases "fst r \<noteq> None \<and> fst r \<noteq> Some EEXIST")
      case True
      then show ?thesis using step by (intro exI [of _ False] exI [of _ "snd r"]) auto
    next
      case False
      obtain b f where "\<forall>w :: ('r, 'm, 'f, 'z) world_scheme. w_os w = snd r \<longrightarrow> ensureDir_go A parts cur' w = (Ret b, w\<lparr>w_os := f\<rparr>)"
        using Cons.IH by blast
      then have "\<forall>w :: ('r, 'm, 'f, 'z) world_scheme. w_os w = f0 \<longrightarrow> ensureDir_go A (part # parts) cur w = (Ret b, w\<lparr>w_os := f\<rparr>)"
        using step by (simp only: if_not_P [OF False]) simp
      then show ?thesis by blast
    qed
  qed
qed

lemma ensureDir_os:
  fixes w v :: "('r, 'm, 'f, 'z) world_scheme"
  assumes "ensureDir A p w = (r, w\<lparr>w_os := f\<rparr>)" and "w_os v = w_os w"
  shows "ensureDir A p v = (r, v\<lparr>w_os := f\<rparr>)"
proof (cases "p = []")
  case True
  then have "r = Ret False" and "w\<lparr>w_os := f\<rparr> = w" using assms(1) by (simp_all add: ensureDir_def)
  then have "f = w_os v" using assms(2) by (cases w) simp
  then show ?thesis using True \<open>r = Ret False\<close> by (cases v) (simp add: ensureDir_def)
next
  case False
  let ?cur = "if hd p = CHR ''/'' then ''/'' else []"
  obtain b f' where all: "\<forall>u :: ('r, 'm, 'f, 'z) world_scheme. w_os u = w_os w \<longrightarrow>
      ensureDir_go A (split p CHR ''/'') ?cur u = (Ret b, u\<lparr>w_os := f'\<rparr>)"
    using ensureDir_go_os [of "w_os w" A "split p CHR ''/''" ?cur] by (elim exE) (rule that)
  note g = all [rule_format]
  have eq: "f' = f" if "w\<lparr>w_os := f'\<rparr> = w\<lparr>w_os := f\<rparr>" using arg_cong [OF that, of w_os] by simp
  have "r = Ret b \<and> w\<lparr>w_os := f'\<rparr> = w\<lparr>w_os := f\<rparr>" using assms(1) g [of w] False by (simp add: ensureDir_def)
  then show ?thesis using g [OF assms(2)] False eq by (simp add: ensureDir_def)
qed

lemma ensureUserRoot_os:
  fixes w v :: "('r, 'm, 'f, 'z) world_scheme"
  assumes "ensureUserRoot A u w = (Ret root, w\<lparr>w_os := f\<rparr>)" and "w_os v = w_os w"
  shows "ensureUserRoot A u v = (Ret root, v\<lparr>w_os := f\<rparr>)"
proof -
  let ?p = "joinPath (usersRoot (cfg A)) u"
  obtain b f' where e: "ensureDir A ?p w = (Ret b, w\<lparr>w_os := f'\<rparr>)" using ensureDir_frame [of A ?p w] by auto
  then have b: "b" "root = ?p" "w\<lparr>w_os := f'\<rparr> = w\<lparr>w_os := f\<rparr>"
    using assms(1) by (auto simp: ensureUserRoot_def Let_def bindE_run split: if_splits)
  have "f' = f" using arg_cong [OF b(3), of w_os] by simp
  then have "ensureDir A ?p v = (Ret True, v\<lparr>w_os := f\<rparr>)" using ensureDir_os [OF e assms(2)] b(1) by simp
  then show ?thesis using b(2) by (simp add: ensureUserRoot_def Let_def bindE_run)
qed

lemma ensureUserRoot_Ret:
  assumes "ensureUserRoot A u w = (Ret root, w')"
  shows "root = joinPath (usersRoot (cfg A)) u \<and> (\<exists>f. w' = w\<lparr>w_os := f\<rparr>)"
proof -
  obtain b f where "ensureDir A (joinPath (usersRoot (cfg A)) u) w = (Ret b, w\<lparr>w_os := f\<rparr>)"
    using ensureDir_frame [of A "joinPath (usersRoot (cfg A)) u" w] by auto
  with assms show ?thesis by (auto simp: ensureUserRoot_def Let_def bindE_run split: if_splits)
qed

section \<open>Running on the pool\<close>

locale user_env = user_service "sql A" users uk ufits
  for A :: "('r, 'm, 'f) env" and users :: "'m \<Rightarrow> string \<Rightarrow> user_row option"
    and uk :: "string \<Rightarrow> string" and ufits :: "string \<Rightarrow> string \<Rightarrow> bool"
begin

lemma with_conn_run:
  "\<not> pool_stopping w \<Longrightarrow> idle_conns w = h # hs \<Longrightarrow>
   with_conn A body w = finallyE (body h) (release h) (w\<lparr>idle_conns := hs, w_mysql := snd (my_ping (sql A) h (w_mysql w))\<rparr>)"
  by (simp add: with_conn_def acquire_def bindE_def on_mysql_run uping_ok)

lemma logLogin_run:
  assumes "\<not> pool_stopping w" and "idle_conns w = h # hs"
  shows "\<exists>m. logLogin A u ip ok w = (Ret (), w\<lparr>w_mysql := m, idle_conns := hs @ [h]\<rparr>) \<and> users m = users (w_mysql w)"
proof -
  let ?ps = "[SqlInt u, SqlString ip, SqlInt (if ok then 1 else 0)]"
  let ?p = "snd (my_prepare (sql A) h sql_login_log (snd (my_ping (sql A) h (w_mysql w))))"
  have "logLogin A u ip ok w = (Ret (), w\<lparr>w_mysql := snd (my_execute (sql A) h sql_login_log ?ps ?p), idle_conns := hs @ [h]\<rparr>)"
    using assms
    by (cases "fst (my_execute (sql A) h sql_login_log ?ps ?p)")
      (simp_all add: logLogin_def with_conn_run catchE_def finallyE_def stmt_new_def stmt_execute_def bindE_def on_mysql_run
        uprepare_ok release_def)
  moreover have "users (snd (my_execute (sql A) h sql_login_log ?ps ?p)) = users (w_mysql w)"
    by (simp add: log_users uprepare_users uping_users)
  ultimately show ?thesis by blast
qed

end

text \<open>The whole environment of the accounts.\<close>

locale auth_env = user_env A users uk ufits + redis_env A strs sets + digest_env A sum + json_service J obj plain
  for A :: "('r, 'm, 'f) env" and users :: "'m \<Rightarrow> string \<Rightarrow> user_row option"
    and uk :: "string \<Rightarrow> string" and ufits :: "string \<Rightarrow> string \<Rightarrow> bool"
    and strs :: "'r \<Rightarrow> string \<Rightarrow> string option" and sets :: "'r \<Rightarrow> string \<Rightarrow> string set"
    and sum :: "digest_alg \<Rightarrow> string \<Rightarrow> u8 list" and J :: "'j jsoncpp"
    and obj :: "'j \<Rightarrow> bool" and plain :: "string \<Rightarrow> bool"
begin

abbreviation "hash_of salt pw \<equiv> toHex (sum SHA256 (salt @ pw))"

lemma hashPassword_run: "hashPassword A salt pw = Inr (hash_of salt pw)"
  by (simp add: hashPassword_def sha256Hex_def digestHex_def run)

lemma verifyPassword_run: "verifyPassword A salt pw h = Inr (hash_of salt pw = h)"
  by (simp add: verifyPassword_def hashPassword_run)

text \<open>What \<open>login\<close> does once its statement has been executed.\<close>

definition login_tail :: "string \<Rightarrow> string \<Rightarrow> string \<Rightarrow> sql_value list list \<Rightarrow>
    (('r, 'm, 'f, 'z) world_scheme, user_session) cpp" where
  "login_tail username password ip rows = (case rows of
         [] \<Rightarrow>
           bindE (logLogin A 0 ip False) (\<lambda>_.
           throw (CloudError Unauthorized ''invalid username or password''))
       | row # _ \<Rightarrow>
           let uid = col_int row 0; hash = col_string row 1; salt = col_string row 2 in
           bindE (liftS (verifyPassword A salt password hash)) (\<lambda>good.
           if \<not> good then
             bindE (logLogin A uid ip False) (\<lambda>_.
             throw (CloudError Unauthorized ''invalid username or password''))
           else
             bindE (ensureUserRoot A username) (\<lambda>root.
             bindE (randomHex A 32) (\<lambda>token.
             let s = \<lparr>s_userId = uid, s_username = username, s_rootDir = root, s_token = token\<rparr> in
             bindE (setSession A token (dumpJson J (session_json J s)) (sessionTtlSec (cfg A))) (\<lambda>_.
             bindE (logLogin A uid ip True) (\<lambda>_.
             return s)))))) "

lemma login_start:
  assumes "\<not> pool_stopping w" and "idle_conns w = h # hs"
  shows "\<exists>m. users m = users (w_mysql w) \<and> login A J u pw ip w =
     finallyE (login_tail u pw ip (case users (w_mysql w) (uk u) of None \<Rightarrow> [] | Some r \<Rightarrow> [row_user r]))
       (release h) (w\<lparr>idle_conns := hs, w_mysql := m\<rparr>)"
proof -
  let ?p = "snd (my_prepare (sql A) h sql_select_user (snd (my_ping (sql A) h (w_mysql w))))"
  let ?m = "snd (my_execute (sql A) h sql_select_user [SqlString u] ?p)"
  have p: "users ?p = users (w_mysql w)" by (simp add: uprepare_users uping_users)
  obtain k where k: "fst (my_execute (sql A) h sql_select_user [SqlString u] ?p) =
      Inr \<lparr>sql_rows = (case users (w_mysql w) (uk u) of None \<Rightarrow> [] | Some r \<Rightarrow> [row_user r]), sql_insert_id = k\<rparr>"
    using select_ok [of h u ?p] p by auto
  have "login A J u pw ip w =
     finallyE (login_tail u pw ip (case users (w_mysql w) (uk u) of None \<Rightarrow> [] | Some r \<Rightarrow> [row_user r]))
       (release h) (w\<lparr>idle_conns := hs, w_mysql := ?m\<rparr>)"
    unfolding login_def with_conn_run [OF assms] login_tail_def
    by (simp add: finallyE_def bindE_def stmt_new_def stmt_execute_def on_mysql_run uprepare_ok k)
  moreover have "users ?m = users (w_mysql w)" by (simp add: select_users p)
  ultimately show ?thesis by blast
qed

lemma login_refused:
  fixes w :: "('r, 'm, 'f, 'z) world_scheme"
  assumes "\<not> pool_stopping w" and "idle_conns w = h # h' # hs"
    and "\<forall>r. users (w_mysql w) (uk u) = Some r \<longrightarrow> hash_of (ur_salt r) pw \<noteq> ur_hash r"
  shows "\<exists>m. users m = users (w_mysql w) \<and> login A J u pw ip w =
     (Raise (CloudError Unauthorized ''invalid username or password''), w\<lparr>idle_conns := hs @ [h', h], w_mysql := m\<rparr>)"
proof -
  obtain m where m: "users m = users (w_mysql w)" "login A J u pw ip w =
     finallyE (login_tail u pw ip (case users (w_mysql w) (uk u) of None \<Rightarrow> [] | Some r \<Rightarrow> [row_user r]))
       (release h) (w\<lparr>idle_conns := h' # hs, w_mysql := m\<rparr>)"
    using login_start [OF assms(1,2)] by blast
  define v where "v = w\<lparr>idle_conns := h' # hs, w_mysql := m\<rparr>"
  have v: "\<not> pool_stopping v" "idle_conns v = h' # hs" using assms(1) by (simp_all add: v_def)
  let ?e = "CloudError Unauthorized ''invalid username or password''"
  have refuse: ?thesis if tail: "login_tail u pw ip (case users (w_mysql w) (uk u) of None \<Rightarrow> [] | Some r \<Rightarrow> [row_user r]) v =
      bindE (logLogin A i ip False) (\<lambda>_. throw ?e) v" for i
  proof -
    obtain m' where m': "logLogin A i ip False v = (Ret (), v\<lparr>w_mysql := m', idle_conns := hs @ [h']\<rparr>)" "users m' = users m"
      using logLogin_run [OF v, of i ip False] by (auto simp: v_def)
    have "login A J u pw ip w = (Raise ?e, release h (v\<lparr>w_mysql := m', idle_conns := hs @ [h']\<rparr>))"
      unfolding m(2) v_def [symmetric] finallyE_def tail
        bindE_run(1) [where m = "logLogin A i ip False" and s = v, OF m'(1)] by simp
    then show ?thesis using m(1) m'(2) by (auto simp: v_def release_def)
  qed
  show ?thesis
  proof (cases "users (w_mysql w) (uk u)")
    case None
    then have "login_tail u pw ip (case users (w_mysql w) (uk u) of None \<Rightarrow> [] | Some r \<Rightarrow> [row_user r]) v =
        bindE (logLogin A 0 ip False) (\<lambda>_. throw ?e) v" by (simp add: login_tail_def)
    then show ?thesis by (rule refuse)
  next
    case (Some r)
    then have "login_tail u pw ip (case users (w_mysql w) (uk u) of None \<Rightarrow> [] | Some r \<Rightarrow> [row_user r]) v =
        bindE (logLogin A (ur_id r) ip False) (\<lambda>_. throw ?e) v"
      using assms(3) by (simp add: login_tail_def row_user_def col_int_def col_string_def verifyPassword_run liftS_def)
    then show ?thesis by (rule refuse)
  qed
qed

lemma login_accepted:
  fixes w :: "('r, 'm, 'f, 'z) world_scheme"
  assumes "\<not> pool_stopping w" and "idle_conns w = h # h' # hs" and "redis_up w"
    and "users (w_mysql w) (uk u) = Some r" and "hash_of (ur_salt r) pw = ur_hash r"
    and "ensureUserRoot A u w = (Ret root, w\<lparr>w_os := f\<rparr>)" and "os_random (os A) 32 f = (buf, f')"
    and "s = \<lparr>s_userId = ur_id r, s_username = u, s_rootDir = root, s_token = toHex buf\<rparr>"
  shows "\<exists>m. users m = users (w_mysql w) \<and> login A J u pw ip w =
     (Ret s, w\<lparr>w_os := f', w_redis := rcmd (rds A) [''SETEX'', c_str (sessionKey (toHex buf)),
        to_string_int (sessionTtlSec (cfg A)), dumpJson J (session_json J s)] (w_redis w),
        w_mysql := m, idle_conns := hs @ [h', h]\<rparr>)"
proof -
  obtain m where m: "users m = users (w_mysql w)" "login A J u pw ip w =
     finallyE (login_tail u pw ip [row_user r]) (release h) (w\<lparr>idle_conns := h' # hs, w_mysql := m\<rparr>)"
    using login_start [OF assms(1,2), of u pw ip] assms(4) by auto
  define v where "v = w\<lparr>idle_conns := h' # hs, w_mysql := m\<rparr>"
  define t where "t = v\<lparr>w_os := f', w_redis := rcmd (rds A) [''SETEX'', c_str (sessionKey (toHex buf)),
        to_string_int (sessionTtlSec (cfg A)), dumpJson J (session_json J s)] (w_redis w)\<rparr>"
  have root: "ensureUserRoot A u v = (Ret root, v\<lparr>w_os := f\<rparr>)"
    by (rule ensureUserRoot_os [OF assms(6)]) (simp add: v_def)
  have "redis_up (v\<lparr>w_os := f'\<rparr>)" using assms(3) by (simp add: v_def)
  then have set: "setSession A (toHex buf) x (sessionTtlSec (cfg A)) (v\<lparr>w_os := f'\<rparr>) =
      (Ret (), v\<lparr>w_os := f', w_redis := rcmd (rds A) [''SETEX'', c_str (sessionKey (toHex buf)),
        to_string_int (sessionTtlSec (cfg A)), x] (w_redis w)\<rparr>)" for x
    by (simp only: setSession_def cmd_runs) (simp add: v_def)
  have t: "\<not> pool_stopping t" "idle_conns t = h' # hs" using assms(1) by (simp_all add: t_def v_def)
  obtain m' where m': "users m' = users m" "logLogin A (ur_id r) ip True t = (Ret (), t\<lparr>w_mysql := m', idle_conns := hs @ [h']\<rparr>)"
    using logLogin_run [OF t, of "ur_id r" ip True] by (auto simp: t_def v_def)
  have "login_tail u pw ip [row_user r] v =
      bindE (ensureUserRoot A u) (\<lambda>root. bindE (randomHex A 32) (\<lambda>token.
        let s = \<lparr>s_userId = ur_id r, s_username = u, s_rootDir = root, s_token = token\<rparr> in
        bindE (setSession A token (dumpJson J (session_json J s)) (sessionTtlSec (cfg A))) (\<lambda>_.
        bindE (logLogin A (ur_id r) ip True) (\<lambda>_. return s)))) v"
    using assms(5) by (simp add: login_tail_def row_user_def col_int_def col_string_def verifyPassword_run liftS_def Let_def)
  also have "\<dots> = bindE (logLogin A (ur_id r) ip True) (\<lambda>_. return s) t"
    using assms(7,8) set
    unfolding bindE_run(1) [where m = "ensureUserRoot A u" and s = v, OF root] randomHex_def bindE_assoc
      bindE_run(1) [OF on_os_run] Let_def
    by (simp add: bindE_run set t_def)
  also have "\<dots> = (Ret s, t\<lparr>w_mysql := m', idle_conns := hs @ [h']\<rparr>)"
    unfolding bindE_run(1) [where m = "logLogin A (ur_id r) ip True" and s = t, OF m'(2)] by simp
  finally have "login A J u pw ip w = (Ret s, release h (t\<lparr>w_mysql := m', idle_conns := hs @ [h']\<rparr>))"
    using m(2) by (simp add: finallyE_def v_def)
  then show ?thesis using m(1) m'(1) by (auto simp: t_def v_def release_def)
qed

lemma registerUser_run:
  fixes w :: "('r, 'm, 'f, 'z) world_scheme"
  assumes "registerUser A u pw w = (Ret s, w')" and "\<not> pool_stopping w" and "idle_conns w = h # hs"
    and "ufits u (joinPath (usersRoot (cfg A)) u)"
  shows "\<exists>salt m f f0. users m = (users (w_mysql w))(uk u \<mapsto> \<lparr>ur_id = s_userId s, ur_hash = hash_of salt pw,
        ur_salt = salt, ur_root = s_rootDir s\<rparr>) \<and> users (w_mysql w) (uk u) = None \<and> validUsername u \<and>
      s_username s = u \<and> ensureUserRoot A u (w\<lparr>w_os := f0\<rparr>) = (Ret (s_rootDir s), w\<lparr>w_os := f\<rparr>) \<and>
      w' = w\<lparr>w_os := f, w_mysql := m, idle_conns := hs @ [h]\<rparr>"
proof -
  let ?root = "joinPath (usersRoot (cfg A)) u"
  define salt where "salt = toHex (fst (os_random (os A) 16 (w_os w)))"
  define f0 where "f0 = snd (os_random (os A) 16 (w_os w))"
  have valid: "validUsername u \<and> \<not> length pw < 6" using assms(1) by (auto simp: registerUser_def split: if_splits)
  let ?h = "\<lambda>e. if contains ''Duplicate'' (what e) then throw (CloudError Conflict ''username exists'')
      else throw (CloudError Internal (''register failed: '' @ what e))"
  have "registerUser A u pw w = bindE (ensureUserRoot A u) (\<lambda>rootDir. with_conn A (\<lambda>c. bindE (catchE
      (bindE (stmt_new A c sql_insert_user) (\<lambda>_.
       bindE (stmt_execute A c sql_insert_user [SqlString u, SqlString (hash_of salt pw), SqlString salt, SqlString rootDir]) (\<lambda>res.
       return (sql_insert_id res)))) ?h) (\<lambda>i.
      return \<lparr>s_userId = int_of_u64 i, s_username = u, s_rootDir = rootDir, s_token = []\<rparr>))) (w\<lparr>w_os := f0\<rparr>)"
    using valid
    by (simp add: registerUser_def randomHex_def bindE_assoc bindE_run(1) [OF on_os_run] hashPassword_run liftS_def salt_def f0_def)
  with assms(1) obtain root v where root: "ensureUserRoot A u (w\<lparr>w_os := f0\<rparr>) = (Ret root, v)"
    and e: "with_conn A (\<lambda>c. bindE (catchE
      (bindE (stmt_new A c sql_insert_user) (\<lambda>_.
       bindE (stmt_execute A c sql_insert_user [SqlString u, SqlString (hash_of salt pw), SqlString salt, SqlString root]) (\<lambda>res.
       return (sql_insert_id res)))) ?h) (\<lambda>i.
      return \<lparr>s_userId = int_of_u64 i, s_username = u, s_rootDir = root, s_token = []\<rparr>)) v = (Ret s, w')"
    by (auto elim: bindE_RetD)
  obtain f where v: "root = ?root" "v = w\<lparr>w_os := f\<rparr>" using ensureUserRoot_Ret [OF root] by auto
  let ?p = "snd (my_prepare (sql A) h sql_insert_user (snd (my_ping (sql A) h (w_mysql w))))"
  let ?x = "my_execute (sql A) h sql_insert_user [SqlString u, SqlString (hash_of salt pw), SqlString salt, SqlString root] ?p"
  have p: "users ?p = users (w_mysql w)" by (simp add: uprepare_users uping_users)
  have pool: "\<not> pool_stopping v" "idle_conns v = h # hs" using assms(2,3) v by simp_all
  note e' = e [unfolded with_conn_run [OF pool] finallyE_def]
  have none: "users (w_mysql w) (uk u) = None"
  proof (rule ccontr)
    assume "users (w_mysql w) (uk u) \<noteq> None"
    then obtain err where "fst ?x = Inl err" using insert_duplicate [of ?p u] p by fastforce
    then show False using e'
      by (simp add: bindE_def catchE_def stmt_new_def stmt_execute_def on_mysql_run uprepare_ok v(2)
          split: if_splits)
  qed
  obtain i where i: "fst ?x = Inr \<lparr>sql_rows = [], sql_insert_id = i\<rparr>"
    "users (snd ?x) = (users ?p)(uk u \<mapsto> \<lparr>ur_id = int_of_u64 i, ur_hash = hash_of salt pw, ur_salt = salt, ur_root = root\<rparr>)"
    using insert_new [of ?p u root h "hash_of salt pw" salt] none p assms(4) v(1) by auto
  have "s = \<lparr>s_userId = int_of_u64 i, s_username = u, s_rootDir = root, s_token = []\<rparr>"
    "w' = w\<lparr>w_os := f, w_mysql := snd ?x, idle_conns := hs @ [h]\<rparr>"
    using e' i(1)
    by (simp_all add: bindE_def catchE_def stmt_new_def stmt_execute_def on_mysql_run uprepare_ok
        v(2) release_def)
  then show ?thesis using i(2) p none valid root v by auto
qed

end

end
