(* ===== verification/Auth_Properties.thy ===== *)
theory Auth_Properties
  imports Auth_Facts Path_Guard "HOL-Library.Code_Target_Nat"
begin

text \<open>
  The properties of the accounts and the sessions: who can log in, what a session token stands for
  and for how long, that users' directories are apart, and what happens when the connection pool is
  too small.
\<close>

section \<open>Sessions\<close>

context auth_env
begin

lemma login_returns:
  fixes w :: "('r, 'm, 'f, 'z) world_scheme"
  assumes "login A J u pw ip w = (Ret s, w')" and "\<not> pool_stopping w" and "idle_conns w = h # h' # hs" and "redis_up w"
  obtains r f buf f' m where "users (w_mysql w) (uk u) = Some r" and "hash_of (ur_salt r) pw = ur_hash r"
    and "s = \<lparr>s_userId = ur_id r, s_username = u, s_rootDir = joinPath (usersRoot (cfg A)) u, s_token = toHex buf\<rparr>"
    and "w' = w\<lparr>w_os := f', w_redis := rcmd (rds A) [''SETEX'', c_str (sessionKey (toHex buf)),
        to_string_int (sessionTtlSec (cfg A)), dumpJson J (session_json J s)] (w_redis w),
        w_mysql := m, idle_conns := hs @ [h', h]\<rparr>"
    and "os_random (os A) 32 f = (buf, f')"
proof -
  obtain r where r: "users (w_mysql w) (uk u) = Some r" "hash_of (ur_salt r) pw = ur_hash r"
  proof (rule ccontr)
    assume "\<not> thesis"
    then have "\<forall>r. users (w_mysql w) (uk u) = Some r \<longrightarrow> hash_of (ur_salt r) pw \<noteq> ur_hash r" using that by blast
    then show False using login_refused [OF assms(2,3), of u pw ip] assms(1) by auto
  qed
  obtain b f where e: "ensureDir A (joinPath (usersRoot (cfg A)) u) w = (Ret b, w\<lparr>w_os := f\<rparr>)"
    using ensureDir_frame [of A "joinPath (usersRoot (cfg A)) u" w] by auto
  have b: "b"
  proof (rule ccontr)
    assume nb: "\<not> b"
    obtain m where m: "login A J u pw ip w =
       finallyE (login_tail u pw ip [row_user r]) (release h) (w\<lparr>idle_conns := h' # hs, w_mysql := m\<rparr>)"
      using login_start [OF assms(2,3), of u pw ip] r(1) by auto
    define v where "v = w\<lparr>idle_conns := h' # hs, w_mysql := m\<rparr>"
    have "ensureDir A (joinPath (usersRoot (cfg A)) u) v = (Ret False, v\<lparr>w_os := f\<rparr>)"
      using ensureDir_os [OF e, of v] nb by (simp add: v_def)
    then have "ensureUserRoot A u v = (Raise (CloudError Internal ''cannot create user root''), v\<lparr>w_os := f\<rparr>)"
      by (simp add: ensureUserRoot_def Let_def bindE_def)
    note run = bindE_run(2) [where m = "ensureUserRoot A u" and s = v, OF this]
    show False
      using assms(1) r(2) unfolding m v_def [symmetric]
      by (simp add: finallyE_def login_tail_def row_user_def col_int_def col_string_def verifyPassword_run liftS_def Let_def run)
  qed
  have root: "ensureUserRoot A u w = (Ret (joinPath (usersRoot (cfg A)) u), w\<lparr>w_os := f\<rparr>)"
    using e b by (simp add: ensureUserRoot_def Let_def bindE_run)
  obtain buf f' where buf: "os_random (os A) 32 f = (buf, f')" by fastforce
  show ?thesis
    using login_accepted [OF assms(2-4) r root buf refl, of ip] assms(1) that [OF r _ _ buf] by auto
qed

lemma no_NUL_hex: "NUL \<notin> set (toHex bs)"
  using toHex_is_hex [of NUL bs] by (auto simp: is_hex_def NUL_def kHex_def)

lemma session_entry:
  fixes w w' :: "('r, 'm, 'f, 'z) world_scheme"
  assumes "redis_up w" and "0 < sessionTtlSec (cfg A)" and "NUL \<notin> set t"
    and "w_redis w' = rcmd (rds A) [''SETEX'', c_str (sessionKey t), to_string_int (sessionTtlSec (cfg A)), x] (w_redis w)"
    and "ctx_set w'"
  shows "strs (w_redis w') (sessionKey t) = Some x \<and> redis_up w'"
  using assms by (simp add: SETEX_effect c_str_id)

text \<open>A stored session reads back as the session it was made from.\<close>

lemma checkToken_run:
  fixes w :: "('r, 'm, 'f, 'z) world_scheme"
  assumes "redis_up w" and "strs (w_redis w) (sessionKey (s_token s)) = Some (dumpJson J (session_json J s))"
    and "s_token s \<noteq> []" and "NUL \<notin> set (s_token s)"
    and "- (2 ^ 31) \<le> s_userId s" and "s_userId s < 2 ^ 31" and "plain (s_username s)" and "plain (s_rootDir s)"
    and "plain (s_token s)"
  shows "fst (checkToken A J (s_token s) w) = Ret s"
proof -
  let ?fs = "[(''user_id'', j_Int J (s_userId s)), (''username'', j_str J (s_username s)),
      (''root_dir'', j_str J (s_rootDir s)), (''token'', j_str J (s_token s))]"
  let ?raw = "dumpJson J (session_json J s)"
  have "parseJson J ?raw = (True, session_json J s, [])"
    unfolding parseJson_def dumpJson_def session_json_def using assms(5-9) by (subst written_flat) auto
  moreover have "get_as J (j_asInt J) (session_json J s) ''user_id'' (j_Int J 0) = Inr (s_userId s)"
    "get_string J (session_json J s) ''username'' [] = Inr (s_username s)"
    "get_string J (session_json J s) ''root_dir'' [] = Inr (s_rootDir s)"
    unfolding session_json_def using assms(5,6)
    by (simp_all add: get_as_def get_assign as_Int get_string_assign)
  moreover have "?raw \<noteq> []" by (simp add: dumpJson_def written_nonempty)
  moreover define w1 where "w1 = w\<lparr>w_redis := rcmd (rds A) [''GET'', c_str (sessionKey (s_token s))] (w_redis w)\<rparr>"
  moreover have "getSession A (s_token s) w = (Ret ?raw, w1)"
    using assms(1,2,4) by (simp add: getSession_def cmdGet_run c_str_id w1_def)
  moreover have "redis_up w1" using assms(1) by (simp add: w1_def)
  ultimately show ?thesis
    using assms(3) by (simp add: checkToken_def bindE_run liftS_def setSession_def cmd_runs)
qed

lemma checkToken_gone:
  fixes w :: "('r, 'm, 'f, 'z) world_scheme"
  assumes "redis_up w" and "strs (w_redis w) (sessionKey t) = None" and "t \<noteq> []" and "NUL \<notin> set t"
  shows "fst (checkToken A J t w) = Raise (CloudError Unauthorized ''session expired'')"
  using assms by (simp add: checkToken_def getSession_def bindE_run cmdGet_run c_str_id)

lemma logout_run:
  fixes w :: "('r, 'm, 'f, 'z) world_scheme"
  assumes "redis_up w" and "NUL \<notin> set t"
  shows "\<exists>w'. logout A t w = (Ret (), w') \<and> redis_up w' \<and> strs (w_redis w') (sessionKey t) = None"
  using assms by (simp add: logout_def delSession_def cmd_runs c_str_id DEL_effect)

lemma login_session:
  fixes w :: "('r, 'm, 'f, 'z) world_scheme"
  assumes "login A J u pw ip w = (Ret s, w')" and "\<not> pool_stopping w" and "idle_conns w = h # h' # hs" and "redis_up w"
    and "0 < sessionTtlSec (cfg A)"
  shows "strs (w_redis w') (sessionKey (s_token s)) = Some (dumpJson J (session_json J s)) \<and> redis_up w' \<and>
    NUL \<notin> set (s_token s) \<and> s_username s = u \<and> s_rootDir s = joinPath (usersRoot (cfg A)) u"
proof -
  obtain r f buf f' m where "users (w_mysql w) (uk u) = Some r" and "hash_of (ur_salt r) pw = ur_hash r" and
    r: "s = \<lparr>s_userId = ur_id r, s_username = u, s_rootDir = joinPath (usersRoot (cfg A)) u, s_token = toHex buf\<rparr>"
    "w' = w\<lparr>w_os := f', w_redis := rcmd (rds A) [''SETEX'', c_str (sessionKey (toHex buf)),
        to_string_int (sessionTtlSec (cfg A)), dumpJson J (session_json J s)] (w_redis w), w_mysql := m, idle_conns := hs @ [h', h]\<rparr>"
    and "os_random (os A) 32 f = (buf, f')"
    by (rule login_returns [OF assms(1-4)])
  show ?thesis
    using session_entry [OF assms(4,5) no_NUL_hex [of buf], of w' "dumpJson J (session_json J s)"] assms(4)
    by (simp add: r no_NUL_hex)
qed

text \<open>With one handle in the pool, the log entry waits for the handle its own caller holds.\<close>

lemma logLogin_blocked: "\<not> pool_stopping w \<Longrightarrow> idle_conns w = [] \<Longrightarrow> logLogin A u ip ok w = (Blocked, w)"
  by (simp add: logLogin_def with_conn_def acquire_def bindE_def catchE_def)

lemma login_blocked:
  fixes w :: "('r, 'm, 'f, 'z) world_scheme"
  assumes "\<not> pool_stopping w" and "idle_conns w = [h]" and "redis_up w"
    and "ensureUserRoot A u w = (Ret root, w\<lparr>w_os := f\<rparr>)"
  shows "fst (login A J u pw ip w) = Blocked"
proof -
  obtain m where m: "login A J u pw ip w =
     finallyE (login_tail u pw ip (case users (w_mysql w) (uk u) of None \<Rightarrow> [] | Some r \<Rightarrow> [row_user r]))
       (release h) (w\<lparr>idle_conns := [], w_mysql := m\<rparr>)"
    using login_start [OF assms(1,2), of u pw ip] by auto
  define v where "v = w\<lparr>idle_conns := [], w_mysql := m\<rparr>"
  have log: "bindE (logLogin A i ip ok) k (v\<lparr>w_os := g, w_redis := y\<rparr>) = (Blocked, v\<lparr>w_os := g, w_redis := y\<rparr>)"
    "bindE (logLogin A i ip ok) k v = (Blocked, v)" for i ok k g y
    using assms(1) by (simp_all add: bindE_run logLogin_blocked v_def)
  have root: "ensureUserRoot A u v = (Ret root, v\<lparr>w_os := f\<rparr>)"
    by (rule ensureUserRoot_os [OF assms(4)]) (simp add: v_def)
  have set: "setSession A t x n (v\<lparr>w_os := g\<rparr>) =
      (Ret (), v\<lparr>w_os := g, w_redis := rcmd (rds A) [''SETEX'', c_str (sessionKey t), to_string_int n, x] (w_redis w)\<rparr>)" for t x n g
    using assms(3) by (simp add: setSession_def cmd_runs v_def)
  have "fst (login_tail u pw ip (case users (w_mysql w) (uk u) of None \<Rightarrow> [] | Some r \<Rightarrow> [row_user r]) v) = Blocked"
    by (cases "users (w_mysql w) (uk u)")
      (simp_all add: login_tail_def row_user_def col_int_def col_string_def verifyPassword_run liftS_def Let_def
        bindE_run(1) [where m = "ensureUserRoot A u" and s = v, OF root] randomHex_def bindE_assoc
        bindE_run(1) [OF on_os_run] bindE_run set log)
  then show ?thesis unfolding m v_def [symmetric] finallyE_def by (auto split: prod.splits outcome.splits)
qed

end



text \<open>C38: with a pool of one connection (\<open>mysql_pool_size = 1\<close>) nobody gets an answer to a login:
  \<open>login\<close> holds the only handle while \<open>logLogin\<close> waits for one, whether the password is right or
  wrong.\<close>

theorem login_hangs_on_single_connection:
  fixes A :: "('r, 'm, 'f) env" and w :: "('r, 'm, 'f, 'z) world_scheme"
  assumes "auth_env A users uk ufits strs sets dg J obj plain"
    and "\<not> pool_stopping w" and "idle_conns w = [h]"
    and "ctx_set w \<and> redis_ready (rds A) strs sets (w_redis w)"
    and "ensureUserRoot A u w = (Ret root, w\<lparr>w_os := f\<rparr>)"
  shows "fst (login A J u pw ip w) = Blocked"
  using assms by (rule auth_env.login_blocked)

section \<open>Registering\<close>

text \<open>What \<open>ensureDir\<close> relies on: a directory that \<open>mkdir\<close> made or found is still there later.\<close>

locale dir_service =
  fixes P :: "'f posix" and made :: "'f \<Rightarrow> string \<Rightarrow> bool"
  assumes mkdir_made: "os_mkdir P p f = (e, f') \<Longrightarrow> e = None \<or> e = Some EEXIST \<Longrightarrow> made f' p"
    and mkdir_mono: "made f q \<Longrightarrow> made (snd (os_mkdir P p f)) q"
    and mkdir_again: "made f p \<Longrightarrow> fst (os_mkdir P p f) = Some EEXIST"

text \<open>The directories \<open>ensureDir\<close> makes, from the top down.\<close>

fun dir_paths :: "string list \<Rightarrow> string \<Rightarrow> string list" where
  "dir_paths [] cur = []"
| "dir_paths (part # parts) cur =
     (if part = [] \<or> part = ''.'' then dir_paths parts cur
      else (let cur' = (if cur = ''/'' then cur @ part else if cur = [] then part else cur @ ''/'' @ part)
            in cur' # dir_paths parts cur'))"

context dir_service
begin

lemma ensureDir_go_mono:
  assumes "os A = P" and "made (w_os w) q" and "ensureDir_go A parts cur w = (r, w')"
  shows "made (w_os w') q"
  using assms(2,3)
proof (induction parts arbitrary: cur w)
  case (Cons part parts)
  show ?case
  proof (cases "part = [] \<or> part = ''.''")
    case True
    then show ?thesis using Cons by simp
  next
    case False
    define cur' where "cur' = (if cur = ''/'' then cur @ part else if cur = [] then part else cur @ ''/'' @ part)"
    define v where "v = w\<lparr>w_os := snd (os_mkdir P (c_str cur') (w_os w))\<rparr>"
    have v: "made (w_os v) q" using Cons.prems(1) by (simp add: v_def mkdir_mono)
    have "ensureDir_go A (part # parts) cur w =
        (if fst (os_mkdir P (c_str cur') (w_os w)) \<noteq> None \<and> fst (os_mkdir P (c_str cur') (w_os w)) \<noteq> Some EEXIST
         then return False else ensureDir_go A parts cur') v"
      using False assms(1) unfolding cur'_def v_def
      by (simp only: ensureDir_go.simps Let_def if_False bindE_run(1) [OF on_os_run])
    then show ?thesis using Cons.IH [OF v] Cons.prems(2) v by (auto split: if_splits)
  qed
qed simp

lemma ensureDir_go_made:
  assumes "os A = P" and "ensureDir_go A parts cur w = (Ret True, w')" and "q \<in> set (dir_paths parts cur)"
  shows "made (w_os w') (c_str q)"
  using assms(2,3)
proof (induction parts arbitrary: cur w)
  case (Cons part parts)
  show ?case
  proof (cases "part = [] \<or> part = ''.''")
    case True
    then show ?thesis using Cons by simp
  next
    case False
    define cur' where "cur' = (if cur = ''/'' then cur @ part else if cur = [] then part else cur @ ''/'' @ part)"
    define v where "v = w\<lparr>w_os := snd (os_mkdir P (c_str cur') (w_os w))\<rparr>"
    let ?e = "fst (os_mkdir P (c_str cur') (w_os w))"
    have "ensureDir_go A (part # parts) cur w = (if ?e \<noteq> None \<and> ?e \<noteq> Some EEXIST then return False else ensureDir_go A parts cur') v"
      using False assms(1) unfolding cur'_def v_def
      by (simp only: ensureDir_go.simps Let_def if_False bindE_run(1) [OF on_os_run])
    then have ok: "?e = None \<or> ?e = Some EEXIST" and go: "ensureDir_go A parts cur' v = (Ret True, w')"
      using Cons.prems(1) by (auto split: if_splits)
    have "made (w_os v) (c_str cur')" using mkdir_made [OF _ ok] by (simp add: v_def)
    then have "made (w_os w') (c_str cur')" by (rule ensureDir_go_mono [OF assms(1) _ go])
    moreover have "q = cur' \<or> q \<in> set (dir_paths parts cur')"
      using Cons.prems(2) False by (simp add: Let_def cur'_def)
    ultimately show ?thesis using Cons.IH [OF go] by blast
  qed
qed simp

lemma ensureDir_go_again:
  assumes "os A = P" and "\<forall>q \<in> set (dir_paths parts cur). made (w_os w) (c_str q)"
  shows "fst (ensureDir_go A parts cur w) = Ret True"
  using assms(2)
proof (induction parts arbitrary: cur w)
  case (Cons part parts)
  show ?case
  proof (cases "part = [] \<or> part = ''.''")
    case True
    then show ?thesis using Cons by simp
  next
    case False
    define cur' where "cur' = (if cur = ''/'' then cur @ part else if cur = [] then part else cur @ ''/'' @ part)"
    define v where "v = w\<lparr>w_os := snd (os_mkdir P (c_str cur') (w_os w))\<rparr>"
    let ?e = "fst (os_mkdir P (c_str cur') (w_os w))"
    have paths: "dir_paths (part # parts) cur = cur' # dir_paths parts cur'" using False by (simp add: Let_def cur'_def)
    have "ensureDir_go A (part # parts) cur w = (if ?e \<noteq> None \<and> ?e \<noteq> Some EEXIST then return False else ensureDir_go A parts cur') v"
      using False assms(1) unfolding cur'_def v_def
      by (simp only: ensureDir_go.simps Let_def if_False bindE_run(1) [OF on_os_run])
    moreover have "?e = Some EEXIST" using Cons.prems paths by (simp add: mkdir_again)
    moreover have "fst (ensureDir_go A parts cur' v) = Ret True"
      by (rule Cons.IH) (use Cons.prems paths mkdir_mono in \<open>simp add: v_def\<close>)
    ultimately show ?thesis by simp
  qed
qed simp

lemma ensureUserRoot_again:
  fixes w v :: "('r, 'm, 'f, 'z) world_scheme"
  assumes "os A = P" and "ensureUserRoot A u w = (Ret root, w')" and "w_os v = w_os w'"
  shows "\<exists>f. ensureUserRoot A u v = (Ret root, v\<lparr>w_os := f\<rparr>)"
proof -
  let ?p = "joinPath (usersRoot (cfg A)) u"
  let ?cur = "if hd ?p = CHR ''/'' then ''/'' else []"
  have ne: "?p \<noteq> []" by (simp add: joinPath_def usersRoot_def)
  obtain b f where e: "ensureDir A ?p w = (Ret b, w\<lparr>w_os := f\<rparr>)" using ensureDir_frame [of A ?p w] by auto
  then have b: "b" "root = ?p" "w' = w\<lparr>w_os := f\<rparr>"
    using assms(2) by (auto simp: ensureUserRoot_def Let_def bindE_def split: if_splits)
  have go: "ensureDir_go A (split ?p CHR ''/'') ?cur w = (Ret True, w')" using e b ne by (simp add: ensureDir_def)
  have "\<forall>q \<in> set (dir_paths (split ?p CHR ''/'') ?cur). made (w_os v) (c_str q)"
    unfolding assms(3) by (intro ballI ensureDir_go_made [OF assms(1) go])
  from ensureDir_go_again [OF assms(1) this]
  have "fst (ensureDir A ?p v) = Ret True" using ne by (simp only: ensureDir_def if_False)
  moreover obtain b' g where "ensureDir A ?p v = (Ret b', v\<lparr>w_os := g\<rparr>)" using ensureDir_frame [of A ?p v] by auto
  ultimately show ?thesis using b(2) by (auto simp: ensureUserRoot_def Let_def bindE_def)
qed

end


section \<open>Users are apart\<close>

lemma user_root_eq:
  assumes "validUsername u"
  shows "joinPath (usersRoot c) u = usersRoot c @ ''/'' @ u \<and> CHR ''/'' \<notin> set u \<and> u \<noteq> []"
proof -
  have "u \<noteq> []" and ok: "\<forall>x \<in> set u. isalnum x \<or> x = CHR ''_''" using assms by (auto simp: validUsername_def)
  moreover have "\<not> isalnum CHR ''/''" by code_simp
  then have "CHR ''/'' \<notin> set u" using ok by auto
  ultimately show ?thesis by (auto simp: joinPath_last usersRoot_def)
qed

lemma below_root_component:
  assumes "CHR ''/'' \<notin> set u" and "p = pre @ ''/'' @ u \<or> (\<exists>rest. p = (pre @ ''/'' @ u @ ''/'') @ rest)"
  shows "takeWhile (\<lambda>c. c \<noteq> CHR ''/'') (drop (length pre + 1) p) = u"
proof -
  have "takeWhile (\<lambda>c. c \<noteq> CHR ''/'') (u @ CHR ''/'' # rest) = u" for rest
    using assms(1) by (subst takeWhile_append2) auto
  moreover have "takeWhile (\<lambda>c. c \<noteq> CHR ''/'') u = u" using assms(1) by (auto simp: takeWhile_eq_all_conv)
  ultimately show ?thesis using assms(2) by (elim disjE exE) simp_all
qed

text \<open>C9: two users never reach the same path: what \<open>resolve\<close> returns below the directory of one
  registered name is not what it returns below that of another, whatever logical paths they send.
  (The users' directories are not themselves behind symbolic links.)\<close>

theorem users_are_isolated:
  assumes "validUsername u" and "validUsername v" and "u \<noteq> v" and "realpath_canonical P f"
    and "\<forall>x \<in> {u, v}. os_realpath P (c_str (joinPath (usersRoot c) x)) f = Some (joinPath (usersRoot c) x)"
    and "resolve P f (joinPath (usersRoot c) u) logical b = Ret p"
    and "resolve P f (joinPath (usersRoot c) v) logical' b' = Ret q"
  shows "p \<noteq> q"
proof -
  have part: "takeWhile (\<lambda>c. c \<noteq> CHR ''/'') (drop (length (usersRoot c) + 1) r) = x"
    if "resolve P f (joinPath (usersRoot c) x) l bb = Ret r" "validUsername x" "x \<in> {u, v}" for x r l bb
  proof -
    have x: "joinPath (usersRoot c) x = usersRoot c @ ''/'' @ x" "CHR ''/'' \<notin> set x" "x \<noteq> []"
      using user_root_eq [OF that(2), of c] by auto
    have "last x \<noteq> CHR ''/''" using x(2,3) by (metis last_in_set)
    then have "r = usersRoot c @ ''/'' @ x \<or> (\<exists>rest. r = (usersRoot c @ ''/'' @ x @ ''/'') @ rest)"
      using resolve_inside [OF assms(4) that(1)] assms(5) that(3) x by auto
    then show ?thesis by (rule below_root_component [OF x(2)])
  qed
  show ?thesis using part [OF assms(6,1)] part [OF assms(7,2)] assms(3) by auto
qed

section \<open>Witnesses\<close>

interpretation ref_auth: auth_env ref_env "\<lambda>m. map_of (rd_users m)" "\<lambda>n. n" "\<lambda>n r. True" rr_strs ref_sets ref_sum
  ref_json r_obj "\<lambda>_. True"
  by (intro_locales)
    (simp_all add: ref_users.user_service_axioms ref_redis.redis_service_axioms ref_digest.digest_axioms
      ref_json.json_service_axioms)

interpretation ref_dirs: dir_service ref_posix "\<lambda>f p. ref_lstat p f \<noteq> None"
proof
  fix p f e f'
  assume "os_mkdir ref_posix p f = (e, f')" "e = None \<or> e = Some EEXIST"
  then show "ref_lstat p f' \<noteq> None"
    by (auto simp: ref_posix_def ref_mkdir_def ref_lstat_def EEXIST_def split: if_splits option.splits)
next
  fix f q p
  assume "ref_lstat q f \<noteq> None"
  then show "ref_lstat q (snd (os_mkdir ref_posix p f)) \<noteq> None"
    by (auto simp: ref_posix_def ref_mkdir_def ref_lstat_def split: if_splits option.splits)
next
  fix f p
  assume "ref_lstat p f \<noteq> None"
  then show "fst (os_mkdir ref_posix p f) = Some EEXIST" by (simp add: ref_posix_def ref_mkdir_def)
qed

definition ref_bob :: user_row where
  "ref_bob = \<lparr>ur_id = 1, ur_hash = toHex (ref_sum SHA256 ''sbob123''), ur_salt = ''s'', ur_root = ''/d/users/bob''\<rparr>"

text \<open>One registered user, a pool of two idle handles, the user's directory present.\<close>

definition ref_accounts :: "nat list \<Rightarrow> (ref_redis, ref_db, ref_fs) world" where
  "ref_accounts hs = ref_world\<lparr>w_mysql := \<lparr>rd_index = [], rd_users = [(''bob'', ref_bob)]\<rparr>,
     w_os := ref_fs0\<lparr>rf_dirs := [''/d'', ''/d/users'', ''/d/users/bob'']\<rparr>, idle_conns := hs\<rparr>"

lemma ref_accounts_ready:
  "\<not> pool_stopping (ref_accounts hs)" "idle_conns (ref_accounts hs) = hs"
  "ctx_set (ref_accounts hs) \<and> redis_ready (rds ref_env) rr_strs ref_sets (w_redis (ref_accounts hs))"
  using ref_redis0_ready by (simp_all add: ref_accounts_def ref_world_def)

lemma ref_mkdirs:
  "ensureDir_go ref_env (split ''/d/users/bob'' CHR ''/'') ''/'' (ref_accounts hs) = (Ret True, ref_accounts hs)"
proof -
  let ?dirs = "[''/d'', ''/d/users'', ''/d/users/bob'']"
  have 1: "split ''/d/users/bob'' CHR ''/'' = [[], ''d'', ''users'', ''bob'']" by code_simp
  have 2: "\<forall>p \<in> set ?dirs. ref_lstat p (ref_fs0\<lparr>rf_dirs := ?dirs\<rparr>) \<noteq> None" by code_simp
  have "os_mkdir ref_posix p (w_os (ref_accounts hs)) = (Some EEXIST, w_os (ref_accounts hs))" if "p \<in> set ?dirs" for p
    using bspec [OF 2 that] by (simp add: ref_posix_def ref_mkdir_def ref_accounts_def)
  then show ?thesis
    unfolding 1 by (simp add: bindE_def on_os_run c_str_def NUL_def Let_def)
qed

lemma ref_bob_root: "ensureUserRoot ref_env ''bob'' (ref_accounts hs) = (Ret ''/d/users/bob'', ref_accounts hs\<lparr>w_os := w_os (ref_accounts hs)\<rparr>)"
proof -
  have "joinPath (usersRoot (cfg ref_env)) ''bob'' = ''/d/users/bob''" by code_simp
  then show ?thesis using ref_mkdirs by (simp add: ensureUserRoot_def Let_def ensureDir_def bindE_def)
qed


lemma ref_login:
  "fst (login ref_env ref_json ''bob'' ''bob123'' ''ip'' (ref_accounts [0, 1])) =
     Ret \<lparr>s_userId = 1, s_username = ''bob'', s_rootDir = ''/d/users/bob'', s_token = toHex (replicate 32 3)\<rparr>"
  by code_simp


theorem login_hangs_on_single_connection_witness:
  "fst (login ref_env ref_json ''bob'' ''bob123'' ''ip'' (ref_accounts [0])) = Blocked"
  by (rule login_hangs_on_single_connection [OF ref_auth.auth_env_axioms ref_accounts_ready ref_bob_root])

lemma ref_register:
  "fst (registerUser ref_env ''bob'' ''bob123'' ref_world) =
     Ret \<lparr>s_userId = 1, s_username = ''bob'', s_rootDir = ''/d/users/bob'', s_token = []\<rparr>"
  by code_simp


definition ref_homes :: ref_fs where
  "ref_homes = ref_fs0\<lparr>rf_dirs := [''/d/users/bob'', ''/d/users/alice'']\<rparr>"

theorem users_are_isolated_witness:
  "resolve ref_posix ref_homes ''/d/users/bob'' ''x'' False = Ret ''/d/users/bob/x'' \<and>
   resolve ref_posix ref_homes ''/d/users/alice'' ''x'' False = Ret ''/d/users/alice/x'' \<and>
   ''/d/users/bob/x'' \<noteq> ''/d/users/alice/x''"
proof -
  have roots: "joinPath (usersRoot ref_config) ''bob'' = ''/d/users/bob''" "joinPath (usersRoot ref_config) ''alice'' = ''/d/users/alice''"
    by code_simp+
  have valid: "validUsername ''bob''" "validUsername ''alice''" by code_simp+
  have real: "os_realpath ref_posix (c_str ''/d/users/bob'') ref_homes = Some ''/d/users/bob''"
    "os_realpath ref_posix (c_str ''/d/users/alice'') ref_homes = Some ''/d/users/alice''" by code_simp+
  have "q \<in> {''/d/users/bob'', ''/d/users/alice''}" if "os_realpath ref_posix p ref_homes = Some q" for p q
    using that by (auto simp: ref_posix_def ref_lstat_def ref_homes_def ref_fs0_def split: if_splits)
  moreover have "canonical ''/d/users/bob''" "canonical ''/d/users/alice''" by code_simp+
  ultimately have can: "realpath_canonical ref_posix ref_homes" unfolding realpath_canonical_def by blast
  have r: "resolve ref_posix ref_homes ''/d/users/bob'' ''x'' False = Ret ''/d/users/bob/x''"
    "resolve ref_posix ref_homes ''/d/users/alice'' ''x'' False = Ret ''/d/users/alice/x''" by code_simp+
  have "''/d/users/bob/x'' \<noteq> ''/d/users/alice/x''"
    by (rule users_are_isolated [OF valid _ can, where c = ref_config, unfolded roots])
      (use real r in \<open>simp_all add: roots\<close>)
  with r show ?thesis by blast
qed

end
