(* ===== verification/Mysql_Stmt.thy ===== *)
theory Mysql_Stmt
  imports Services
begin

text \<open>
  \<open>src/mysql_stmt.cpp\<close>: the buffers of a prepared statement. \<open>MysqlStmt\<close> hands the client library
  pointers into its own \<open>std::vector\<close>s; a \<open>resize\<close> beyond the capacity moves the elements to a new
  allocation and leaves the pointers taken before dangling. A vector is modelled with the identity
  of its allocation, a pointer into it as that identity and an index; using a pointer whose
  allocation is gone is undefined behaviour. The growth policy of the vectors is the parameter
  \<open>grow\<close> (size, wanted size, new capacity) and \<open>sso\<close> the length up to which a string keeps its
  characters inside the string object (15 in libstdc++).

  The other components use a statement by its contract (\<open>stmt_new\<close> and \<open>stmt_execute\<close> in
  \<open>Mysql_Pool\<close>): the values bound are the values sent. \<open>bound_values_reach_server\<close> shows when the
  class keeps it, \<open>second_string_breaks_first\<close> and \<open>second_column_breaks_first\<close> when it does not.
\<close>

section \<open>Vectors and pointers into them\<close>

record 'a vec =
  v_alloc :: nat
  v_cap :: nat
  v_elems :: "'a list"

text \<open>Allocation 0 is the empty vector's; nothing points into it.\<close>

definition no_vec :: "'a vec" where
  "no_vec = \<lparr>v_alloc = 0, v_cap = 0, v_elems = []\<rparr>"

type_synonym ptr = "nat \<times> nat"

definition resize :: "(nat \<Rightarrow> nat \<Rightarrow> nat) \<Rightarrow> nat \<Rightarrow> 'a \<Rightarrow> 'a vec \<Rightarrow> nat \<Rightarrow> 'a vec \<times> nat" where
  "resize grow n x v fresh =
     (let xs = take n (v_elems v) @ replicate (n - length (v_elems v)) x
      in if n \<le> v_cap v then (v\<lparr>v_elems := xs\<rparr>, fresh)
         else (\<lparr>v_alloc = fresh, v_cap = max n (grow (length (v_elems v)) n), v_elems = xs\<rparr>, Suc fresh))"

definition addr :: "'a vec \<Rightarrow> nat \<Rightarrow> ptr" where
  "addr v i = (v_alloc v, i)"

definition deref :: "'a vec \<Rightarrow> ptr \<Rightarrow> 'a option" where
  "deref v p = (if fst p = v_alloc v \<and> snd p < length (v_elems v) then Some (v_elems v ! snd p) else None)"

definition store :: "'a vec \<Rightarrow> nat \<Rightarrow> 'a \<Rightarrow> 'a vec" where
  "store v i x = v\<lparr>v_elems := (v_elems v)[i := x]\<rparr>"

section \<open>The statement\<close>

text \<open>\<open>MYSQL_BIND\<close>: the type with the buffer it points to, and for strings the pointer to the length.
  The characters of a string are inside the string object (\<open>Chars p True\<close>) or in a buffer of its own,
  which the string keeps when the vector moves it (\<open>Chars p False\<close>). \<open>Unbound\<close> is a zeroed bind.\<close>

datatype buffer = Unbound | IntBuf ptr | Int64Buf ptr | UInt64Buf ptr | Chars ptr bool ptr

text \<open>A variable of the caller, for the references the result binders keep.\<close>

type_synonym var = nat

record stmt =
  fresh_alloc :: nat
  paramBinds :: "buffer list"
  stringParams :: "string vec"
  stringParamLengths :: "nat vec"
  int64Params :: "int vec"
  intParams :: "int vec"
  uint64Params :: "u64 vec"
  resultBinds :: "buffer list"
  stringResults :: "string vec"
  stringResultLengths :: "nat vec"
  int64Results :: "int vec"
  intResults :: "int vec"
  uint64Results :: "u64 vec"
  resultStringOut :: "var option list"
  resultStringLenOut :: "var option list"
  resultIntOut :: "var option list"
  resultInt64Out :: "var option list"
  resultUInt64Out :: "var option list"

text \<open>The constructor, for a text with \<open>count\<close> parameters.\<close>

definition newStmt :: "nat \<Rightarrow> stmt" where
  "newStmt count = \<lparr>fresh_alloc = 1, paramBinds = replicate count Unbound, stringParams = no_vec,
     stringParamLengths = no_vec, int64Params = no_vec, intParams = no_vec, uint64Params = no_vec,
     resultBinds = [], stringResults = no_vec, stringResultLengths = no_vec, int64Results = no_vec,
     intResults = no_vec, uint64Results = no_vec, resultStringOut = [], resultStringLenOut = [],
     resultIntOut = [], resultInt64Out = [], resultUInt64Out = []\<rparr>"

section \<open>Parameters\<close>

definition bindParam :: "nat \<Rightarrow> buffer \<Rightarrow> (stmt, unit) cpp" where
  "bindParam index b = bindE (gets (\<lambda>s. length (paramBinds s))) (\<lambda>n.
     if index = 0 \<or> index > n then throw (StdException ''bind param index out of range'')
     else modify (\<lambda>s. s\<lparr>paramBinds := (paramBinds s)[index - 1 := b]\<rparr>))"

text \<open>The binders write element \<open>index - 1\<close> before \<open>bindParam\<close> looks at the index; with index 0 that
  is outside the vector.\<close>

definition bindInt :: "(nat \<Rightarrow> nat \<Rightarrow> nat) \<Rightarrow> nat \<Rightarrow> int \<Rightarrow> (stmt, unit) cpp" where
  "bindInt grow index value =
     (if index = 0 then undef
      else
        bindE (modify (\<lambda>s. if length (v_elems (intParams s)) < index
                 then (case resize grow index 0 (intParams s) (fresh_alloc s) of
                         (v, f) \<Rightarrow> s\<lparr>intParams := v, fresh_alloc := f\<rparr>) else s)) (\<lambda>_.
        bindE (modify (\<lambda>s. s\<lparr>intParams := store (intParams s) (index - 1) value\<rparr>)) (\<lambda>_.
        bindE (gets (\<lambda>s. addr (intParams s) (index - 1))) (\<lambda>p.
        bindParam index (IntBuf p)))))"

definition bindInt64 :: "(nat \<Rightarrow> nat \<Rightarrow> nat) \<Rightarrow> nat \<Rightarrow> int \<Rightarrow> (stmt, unit) cpp" where
  "bindInt64 grow index value =
     (if index = 0 then undef
      else
        bindE (modify (\<lambda>s. if length (v_elems (int64Params s)) < index
                 then (case resize grow index 0 (int64Params s) (fresh_alloc s) of
                         (v, f) \<Rightarrow> s\<lparr>int64Params := v, fresh_alloc := f\<rparr>) else s)) (\<lambda>_.
        bindE (modify (\<lambda>s. s\<lparr>int64Params := store (int64Params s) (index - 1) value\<rparr>)) (\<lambda>_.
        bindE (gets (\<lambda>s. addr (int64Params s) (index - 1))) (\<lambda>p.
        bindParam index (Int64Buf p)))))"

definition bindUInt64 :: "(nat \<Rightarrow> nat \<Rightarrow> nat) \<Rightarrow> nat \<Rightarrow> u64 \<Rightarrow> (stmt, unit) cpp" where
  "bindUInt64 grow index value =
     (if index = 0 then undef
      else
        bindE (modify (\<lambda>s. if length (v_elems (uint64Params s)) < index
                 then (case resize grow index 0 (uint64Params s) (fresh_alloc s) of
                         (v, f) \<Rightarrow> s\<lparr>uint64Params := v, fresh_alloc := f\<rparr>) else s)) (\<lambda>_.
        bindE (modify (\<lambda>s. s\<lparr>uint64Params := store (uint64Params s) (index - 1) value\<rparr>)) (\<lambda>_.
        bindE (gets (\<lambda>s. addr (uint64Params s) (index - 1))) (\<lambda>p.
        bindParam index (UInt64Buf p)))))"

definition bindString :: "(nat \<Rightarrow> nat \<Rightarrow> nat) \<Rightarrow> nat \<Rightarrow> nat \<Rightarrow> string \<Rightarrow> (stmt, unit) cpp" where
  "bindString grow sso index value =
     (if index = 0 then undef
      else
        bindE (modify (\<lambda>s. if length (v_elems (stringParams s)) < index
                 then (case resize grow index [] (stringParams s) (fresh_alloc s) of
                         (v, f) \<Rightarrow> (case resize grow index 0 (stringParamLengths s) f of
                            (l, f) \<Rightarrow> s\<lparr>stringParams := v, stringParamLengths := l, fresh_alloc := f\<rparr>)) else s)) (\<lambda>_.
        bindE (modify (\<lambda>s. s\<lparr>stringParams := store (stringParams s) (index - 1) value,
                             stringParamLengths := store (stringParamLengths s) (index - 1) (length value)\<rparr>)) (\<lambda>_.
        bindE (gets (\<lambda>s. Chars (addr (stringParams s) (index - 1)) (length value \<le> sso)
                           (addr (stringParamLengths s) (index - 1)))) (\<lambda>b.
        bindParam index b))))"

text \<open>What the client library reads through a bind when the statement is executed; \<open>None\<close> is
  undefined behaviour.\<close>

definition chars_at :: "string vec \<Rightarrow> ptr \<Rightarrow> bool \<Rightarrow> string option" where
  "chars_at v p inside =
     (if inside then deref v p
      else if snd p < length (v_elems v) then Some (v_elems v ! snd p) else None)"

definition read_param :: "stmt \<Rightarrow> buffer \<Rightarrow> sql_value option" where
  "read_param s b = (case b of
     Unbound \<Rightarrow> None
   | IntBuf p \<Rightarrow> map_option SqlInt (deref (intParams s) p)
   | Int64Buf p \<Rightarrow> map_option SqlInt (deref (int64Params s) p)
   | UInt64Buf p \<Rightarrow> map_option SqlUInt (deref (uint64Params s) p)
   | Chars p inside l \<Rightarrow> (case (deref (stringParamLengths s) l, chars_at (stringParams s) p inside) of
       (Some n, Some t) \<Rightarrow> if n \<le> length t then Some (SqlString (take n t)) else None
     | _ \<Rightarrow> None))"

text \<open>\<open>execute\<close> with the parameters it sends.\<close>

definition stmt_params :: "stmt \<Rightarrow> sql_value list option" where
  "stmt_params s = those (map (read_param s) (paramBinds s))"

section \<open>Results\<close>

text \<open>\<open>resultBinds_\<close> is resized only together with the storage of the column's type. A result string
  owns a buffer of 4096 characters, outside the string object.\<close>

definition resultBufferSize :: nat where
  "resultBufferSize = 4096"

definition resize_list :: "nat \<Rightarrow> 'a \<Rightarrow> 'a list \<Rightarrow> 'a list" where
  "resize_list n x xs = take n xs @ replicate (n - length xs) x"

definition bindResultString :: "(nat \<Rightarrow> nat \<Rightarrow> nat) \<Rightarrow> nat \<Rightarrow> var \<Rightarrow> var \<Rightarrow> (stmt, unit) cpp" where
  "bindResultString grow index out len =
     (if index = 0 then undef
      else
        bindE (modify (\<lambda>s. if length (v_elems (stringResults s)) < index
                 then (case resize grow index [] (stringResults s) (fresh_alloc s) of
                         (v, f) \<Rightarrow> (case resize grow index 0 (stringResultLengths s) f of
                            (l, f) \<Rightarrow> s\<lparr>stringResults := v, stringResultLengths := l, fresh_alloc := f,
                                       resultBinds := resize_list index Unbound (resultBinds s),
                                       resultStringOut := resize_list index None (resultStringOut s),
                                       resultStringLenOut := resize_list index None (resultStringLenOut s)\<rparr>)) else s)) (\<lambda>_.
        bindE (gets (\<lambda>s. index \<le> length (resultBinds s))) (\<lambda>ok.
        if \<not> ok then undef
        else modify (\<lambda>s. s\<lparr>stringResults := store (stringResults s) (index - 1) (replicate resultBufferSize CHR 0x00),
                           stringResultLengths := store (stringResultLengths s) (index - 1) 0,
                           resultBinds := (resultBinds s)[index - 1 :=
                             Chars (addr (stringResults s) (index - 1)) False (addr (stringResultLengths s) (index - 1))],
                           resultStringOut := (resultStringOut s)[index - 1 := Some out],
                           resultStringLenOut := (resultStringLenOut s)[index - 1 := Some len]\<rparr>))))"

definition bindResultInt :: "(nat \<Rightarrow> nat \<Rightarrow> nat) \<Rightarrow> nat \<Rightarrow> var \<Rightarrow> (stmt, unit) cpp" where
  "bindResultInt grow index out =
     (if index = 0 then undef
      else
        bindE (modify (\<lambda>s. if length (v_elems (intResults s)) < index
                 then (case resize grow index 0 (intResults s) (fresh_alloc s) of
                         (v, f) \<Rightarrow> s\<lparr>intResults := v, fresh_alloc := f,
                                     resultBinds := resize_list index Unbound (resultBinds s),
                                     resultIntOut := resize_list index None (resultIntOut s)\<rparr>) else s)) (\<lambda>_.
        bindE (gets (\<lambda>s. index \<le> length (resultBinds s))) (\<lambda>ok.
        if \<not> ok then undef
        else modify (\<lambda>s. s\<lparr>resultBinds := (resultBinds s)[index - 1 := IntBuf (addr (intResults s) (index - 1))],
                           resultIntOut := (resultIntOut s)[index - 1 := Some out]\<rparr>))))"

definition bindResultInt64 :: "(nat \<Rightarrow> nat \<Rightarrow> nat) \<Rightarrow> nat \<Rightarrow> var \<Rightarrow> (stmt, unit) cpp" where
  "bindResultInt64 grow index out =
     (if index = 0 then undef
      else
        bindE (modify (\<lambda>s. if length (v_elems (int64Results s)) < index
                 then (case resize grow index 0 (int64Results s) (fresh_alloc s) of
                         (v, f) \<Rightarrow> s\<lparr>int64Results := v, fresh_alloc := f,
                                     resultBinds := resize_list index Unbound (resultBinds s),
                                     resultInt64Out := resize_list index None (resultInt64Out s)\<rparr>) else s)) (\<lambda>_.
        bindE (gets (\<lambda>s. index \<le> length (resultBinds s))) (\<lambda>ok.
        if \<not> ok then undef
        else modify (\<lambda>s. s\<lparr>resultBinds := (resultBinds s)[index - 1 := Int64Buf (addr (int64Results s) (index - 1))],
                           resultInt64Out := (resultInt64Out s)[index - 1 := Some out]\<rparr>))))"

definition bindResultUInt64 :: "(nat \<Rightarrow> nat \<Rightarrow> nat) \<Rightarrow> nat \<Rightarrow> var \<Rightarrow> (stmt, unit) cpp" where
  "bindResultUInt64 grow index out =
     (if index = 0 then undef
      else
        bindE (modify (\<lambda>s. if length (v_elems (uint64Results s)) < index
                 then (case resize grow index 0 (uint64Results s) (fresh_alloc s) of
                         (v, f) \<Rightarrow> s\<lparr>uint64Results := v, fresh_alloc := f,
                                     resultBinds := resize_list index Unbound (resultBinds s),
                                     resultUInt64Out := resize_list index None (resultUInt64Out s)\<rparr>) else s)) (\<lambda>_.
        bindE (gets (\<lambda>s. index \<le> length (resultBinds s))) (\<lambda>ok.
        if \<not> ok then undef
        else modify (\<lambda>s. s\<lparr>resultBinds := (resultBinds s)[index - 1 := UInt64Buf (addr (uint64Results s) (index - 1))],
                           resultUInt64Out := (resultUInt64Out s)[index - 1 := Some out]\<rparr>))))"

text \<open>\<open>mysql_stmt_fetch\<close> writing one column through its bind: \<open>None\<close> when a pointer it writes to is
  dangling or the column has another type than its bind (the library would convert; no caller relies
  on it). A string longer than the buffer is cut, its length is still the full one.\<close>

definition write_column :: "buffer \<times> sql_value \<Rightarrow> stmt \<Rightarrow> stmt option" where
  "write_column bx s = (case bx of
     (IntBuf p, SqlInt i) \<Rightarrow> if deref (intResults s) p = None then None
        else Some (s\<lparr>intResults := store (intResults s) (snd p) i\<rparr>)
   | (Int64Buf p, SqlInt i) \<Rightarrow> if deref (int64Results s) p = None then None
        else Some (s\<lparr>int64Results := store (int64Results s) (snd p) i\<rparr>)
   | (UInt64Buf p, SqlUInt n) \<Rightarrow> if deref (uint64Results s) p = None then None
        else Some (s\<lparr>uint64Results := store (uint64Results s) (snd p) n\<rparr>)
   | (Chars p inside l, SqlString t) \<Rightarrow>
       if deref (stringResultLengths s) l = None \<or> chars_at (stringResults s) p inside = None then None
       else Some (s\<lparr>stringResultLengths := store (stringResultLengths s) (snd l) (length t),
                   stringResults := store (stringResults s) (snd p)
                     (take resultBufferSize t @ drop (length t) (v_elems (stringResults s) ! snd p))\<rparr>)
   | _ \<Rightarrow> None)"

fun write_row :: "(buffer \<times> sql_value) list \<Rightarrow> stmt \<Rightarrow> stmt option" where
  "write_row [] s = Some s"
| "write_row (bx # bxs) s = (case write_column bx s of None \<Rightarrow> None | Some s' \<Rightarrow> write_row bxs s')"

definition fits :: "sql_value \<Rightarrow> bool" where
  "fits x = (case x of SqlString t \<Rightarrow> length t \<le> resultBufferSize | _ \<Rightarrow> True)"

text \<open>\<open>MYSQL_NO_DATA\<close> and \<open>MYSQL_DATA_TRUNCATED\<close>.\<close>

definition mysql_stmt_fetch :: "sql_value list option \<Rightarrow> stmt \<Rightarrow> (int \<times> stmt) option" where
  "mysql_stmt_fetch row s = (case row of
     None \<Rightarrow> Some (100, s)
   | Some xs \<Rightarrow> map_option (Pair (if list_all fits xs then 0 else 101)) (write_row (zip (resultBinds s) xs) s))"

text \<open>The assignments to the caller's variables, in the order \<open>fetch\<close> makes them.\<close>

definition outs :: "var option list \<Rightarrow> (nat \<Rightarrow> sql_value) \<Rightarrow> (var \<times> sql_value) list" where
  "outs vars val = concat (map (\<lambda>i. case vars ! i of None \<Rightarrow> [] | Some v \<Rightarrow> [(v, val i)]) [0..<length vars])"

definition string_outs :: "stmt \<Rightarrow> (var \<times> sql_value) list" where
  "string_outs s = concat (map (\<lambda>i. case resultStringOut s ! i of None \<Rightarrow> []
     | Some v \<Rightarrow> (v, SqlString (take (v_elems (stringResultLengths s) ! i) (v_elems (stringResults s) ! i))) #
         (case resultStringLenOut s ! i of None \<Rightarrow> []
          | Some l \<Rightarrow> [(l, SqlUInt (of_nat (v_elems (stringResultLengths s) ! i)))])) [0..<length (resultStringOut s)])"

definition fetch :: "sql_value list option \<Rightarrow> stmt \<Rightarrow> (int \<times> (var \<times> sql_value) list) option" where
  "fetch row s = (case mysql_stmt_fetch row s of
     None \<Rightarrow> None
   | Some (rc, s') \<Rightarrow> Some (rc,
       if rc = 0 then string_outs s' @ outs (resultIntOut s') (\<lambda>i. SqlInt (v_elems (intResults s') ! i)) @
         outs (resultInt64Out s') (\<lambda>i. SqlInt (v_elems (int64Results s') ! i)) @
         outs (resultUInt64Out s') (\<lambda>i. SqlUInt (v_elems (uint64Results s') ! i))
       else []))"

section \<open>When the contract holds\<close>

text \<open>Binding a whole parameter list, as the callers do: one call per parameter, in order.\<close>

definition bind_value :: "(nat \<Rightarrow> nat \<Rightarrow> nat) \<Rightarrow> nat \<Rightarrow> nat \<Rightarrow> sql_value \<Rightarrow> (stmt, unit) cpp" where
  "bind_value grow sso index x = (case x of
     SqlInt i \<Rightarrow> bindInt grow index i
   | SqlUInt n \<Rightarrow> bindUInt64 grow index n
   | SqlString t \<Rightarrow> bindString grow sso index t)"

fun bind_from :: "(nat \<Rightarrow> nat \<Rightarrow> nat) \<Rightarrow> nat \<Rightarrow> nat \<Rightarrow> sql_value list \<Rightarrow> (stmt, unit) cpp" where
  "bind_from grow sso k [] = return ()"
| "bind_from grow sso k (x # xs) = bindE (bind_value grow sso (Suc k) x) (\<lambda>_. bind_from grow sso (Suc k) xs)"

text \<open>Room for \<open>n\<close> elements in every vector: no \<open>resize\<close> up to \<open>n\<close> moves anything.\<close>

definition room :: "nat \<Rightarrow> stmt \<Rightarrow> bool" where
  "room n s \<longleftrightarrow> n \<le> v_cap (intParams s) \<and> n \<le> v_cap (uint64Params s) \<and> n \<le> v_cap (stringParams s) \<and>
     n \<le> v_cap (stringParamLengths s) \<and>
     length (v_elems (stringParams s)) = length (v_elems (stringParamLengths s)) \<and> length (paramBinds s) = n"

lemma resize_room:
  "length (v_elems v) < n \<Longrightarrow> n \<le> v_cap v \<Longrightarrow>
   resize grow n x v f = (v\<lparr>v_elems := v_elems v @ replicate (n - length (v_elems v)) x\<rparr>, f)"
  by (simp add: resize_def)

text \<open>A vector with room for the element at \<open>i\<close>, with it written.\<close>

definition put :: "nat \<Rightarrow> 'a \<Rightarrow> 'a \<Rightarrow> 'a vec \<Rightarrow> 'a vec" where
  "put i d x v = v\<lparr>v_elems := (v_elems v @ replicate (Suc i - length (v_elems v)) d)[i := x]\<rparr>"

lemma put_facts [simp]:
  "v_cap (put i d x v) = v_cap v" "addr (put i d x v) j = addr v j"
  "length (v_elems (put i d x v)) = max (length (v_elems v)) (Suc i)"
  "deref (put i d x v) (addr v i) = Some x"
  "v_elems (put i d x v) ! i = x"
  by (auto simp: put_def addr_def deref_def nth_append)

lemma deref_put: "snd p \<noteq> i \<Longrightarrow> deref v p = Some y \<Longrightarrow> deref (put i d x v) p = Some y"
  by (auto simp: put_def deref_def nth_append split: if_splits)

lemma chars_put: "snd p \<noteq> i \<Longrightarrow> chars_at v p b = Some y \<Longrightarrow> chars_at (put i d x v) p b = Some y"
  using deref_put [of p i v y] by (auto simp: chars_at_def put_def nth_append split: if_splits)

lemma addr_store [simp]: "addr (store v k x) i = addr v i"
  by (simp add: addr_def store_def)

text \<open>The bind of parameter \<open>j\<close> points to elements of its own and delivers \<open>x\<close>.\<close>

definition delivers :: "stmt \<Rightarrow> nat \<Rightarrow> sql_value \<Rightarrow> bool" where
  "delivers s j x \<longleftrightarrow> j < length (paramBinds s) \<and> read_param s (paramBinds s ! j) = Some x \<and>
     (case paramBinds s ! j of
        IntBuf p \<Rightarrow> snd p = j
      | UInt64Buf p \<Rightarrow> snd p = j
      | Chars p b l \<Rightarrow> snd p = j \<and> snd l = j
      | _ \<Rightarrow> False)"

definition bound :: "nat \<Rightarrow> nat \<Rightarrow> sql_value \<Rightarrow> stmt \<Rightarrow> stmt" where
  "bound sso k x s = (case x of
     SqlInt i \<Rightarrow> s\<lparr>intParams := put k 0 i (intParams s),
                   paramBinds := (paramBinds s)[k := IntBuf (addr (intParams s) k)]\<rparr>
   | SqlUInt n \<Rightarrow> s\<lparr>uint64Params := put k 0 n (uint64Params s),
                    paramBinds := (paramBinds s)[k := UInt64Buf (addr (uint64Params s) k)]\<rparr>
   | SqlString t \<Rightarrow> s\<lparr>stringParams := put k [] t (stringParams s),
                      stringParamLengths := put k 0 (length t) (stringParamLengths s),
                      paramBinds := (paramBinds s)[k := Chars (addr (stringParams s) k) (length t \<le> sso)
                        (addr (stringParamLengths s) k)]\<rparr>)"

lemma grown_put:
  assumes "k < v_cap v"
  shows "length (v_elems v) < Suc k \<Longrightarrow> resize grow (Suc k) d v f =
           (v\<lparr>v_elems := v_elems v @ replicate (Suc k - length (v_elems v)) d\<rparr>, f)"
    and "length (v_elems v) < Suc k \<Longrightarrow>
           store (v\<lparr>v_elems := v_elems v @ replicate (Suc k - length (v_elems v)) d\<rparr>) k x = put k d x v"
    and "\<not> length (v_elems v) < Suc k \<Longrightarrow> store v k x = put k d x v"
    and "addr (v\<lparr>v_elems := ys\<rparr>) k = addr v k"
  using assms by (auto simp: resize_room put_def store_def addr_def)

lemma bind_value_run:
  assumes "room n s" and "k < n"
  shows "bind_value grow sso (Suc k) x s = (Ret (), bound sso k x s)"
proof (cases x)
  case (SqlInt i)
  have "k < v_cap (intParams s)" using assms by (simp add: room_def)
  note grown_put [OF this, simp]
  show ?thesis using SqlInt assms
    by (simp add: bind_value_def bindInt_def bindParam_def bindE_def bound_def room_def)
next
  case (SqlUInt u)
  have "k < v_cap (uint64Params s)" using assms by (simp add: room_def)
  note grown_put [OF this, simp]
  show ?thesis using SqlUInt assms
    by (simp add: bind_value_def bindUInt64_def bindParam_def bindE_def bound_def room_def)
next
  case (SqlString t)
  have "k < v_cap (stringParams s)" "k < v_cap (stringParamLengths s)" using assms by (simp_all add: room_def)
  note grown_put [OF this(1), simp] grown_put [OF this(2), simp]
  show ?thesis using SqlString assms
    by (simp add: bind_value_def bindString_def bindParam_def bindE_def bound_def room_def put_def store_def)
qed

lemma bound_room: "room n s \<Longrightarrow> k < n \<Longrightarrow> room n (bound sso k x s)"
  by (cases x) (auto simp: room_def bound_def)

lemma bound_delivers: "room n s \<Longrightarrow> k < n \<Longrightarrow> delivers (bound sso k x s) k x"
  by (cases x) (auto simp: room_def bound_def delivers_def read_param_def chars_at_def addr_def deref_def put_def nth_append)

lemma bound_keeps:
  assumes "delivers s j y" and "j \<noteq> k"
  shows "delivers (bound sso k x s) j y"
  using assms
  by (cases x)
     (auto simp: delivers_def bound_def read_param_def deref_put chars_put
           split: buffer.splits option.splits if_splits)

lemma bind_from_delivers:
  "room n s \<Longrightarrow> length ys = k \<Longrightarrow> k + length xs = n \<Longrightarrow> (\<And>j. j < k \<Longrightarrow> delivers s j (ys ! j)) \<Longrightarrow>
   \<exists>s'. bind_from grow sso k xs s = (Ret (), s') \<and> length (paramBinds s') = n \<and>
        (\<forall>j < n. delivers s' j ((ys @ xs) ! j))"
proof (induction xs arbitrary: k ys s)
  case Nil
  then show ?case by (auto simp: room_def)
next
  case (Cons x xs)
  define s' where "s' = bound sso k x s"
  from Cons.prems have k: "k < n" by simp
  have run: "bind_value grow sso (Suc k) x s = (Ret (), s')"
    using bind_value_run [OF Cons.prems(1) k] by (simp add: s'_def)
  have "delivers s' j ((ys @ [x]) ! j)" if "j < Suc k" for j
    using that Cons.prems bound_delivers [OF Cons.prems(1) k] bound_keeps [of s j "ys ! j" k]
    by (cases "j = k") (auto simp: s'_def nth_append)
  with Cons.IH [of s' "ys @ [x]" "Suc k"] Cons.prems bound_room [OF Cons.prems(1) k] show ?case
    by (auto simp: bindE_def run [unfolded s'_def] s'_def)
qed

lemma those_all: "(\<And>j. j < length bs \<Longrightarrow> f (bs ! j) = Some (xs ! j)) \<Longrightarrow> length xs = length bs \<Longrightarrow> those (map f bs) = Some xs"
proof (induction bs arbitrary: xs)
  case (Cons b bs)
  then obtain y ys where xs: "xs = y # ys" by (cases xs) auto
  with Cons.prems(1) [of 0] Cons.prems(1) [of "Suc j" for j] Cons.prems(2) Cons.IH [of ys] show ?case by auto
qed simp



section \<open>When it does not\<close>

text \<open>The growth policy of libstdc++: at least doubling.\<close>

definition libstdcxx :: "nat \<Rightarrow> nat \<Rightarrow> nat" where
  "libstdcxx m n = m + max m (n - m)"

lemmas stmt_simps = bindE_def bindParam_def newStmt_def no_vec_def resize_def store_def addr_def Let_def

text \<open>a fresh statement whose parameters are one number and one text, as for the rows of one path
  of a user, sends them whatever the growth policy; each vector is grown once.\<close>

theorem number_and_text_reach_server:
  "\<exists>s'. bind_from grow sso 0 [SqlInt i, SqlString t] (newStmt 2) = (Ret (), s') \<and>
        stmt_params s' = Some [SqlInt i, SqlString t]"
  by (auto simp: bind_value_def bindInt_def bindString_def stmt_simps stmt_params_def read_param_def deref_def
        chars_at_def max_def numeral_2_eq_2)

text \<open>C32: the statement \<open>registerUser\<close> executes: binding the second text grows the vectors of a fresh
  statement and leaves the length of the first one dangling, so that executing it is undefined
  behaviour.\<close>

theorem second_string_breaks_first:
  "\<exists>s'. bind_from libstdcxx sso 0 [SqlString username, SqlString hash, SqlString salt, SqlString rootDir] (newStmt 4) = (Ret (), s') \<and>
        stmt_params s' = None"
  by (auto simp: bind_value_def bindString_def stmt_simps stmt_params_def read_param_def deref_def
        libstdcxx_def eval_nat_numeral)

text \<open>the result columns of \<open>login\<close>: binding the salt grows the vectors the password hash's bind
  points into, and fetching the user's row writes through a dangling pointer.\<close>

theorem second_column_breaks_first:
  "\<exists>s'. bindE (bindResultInt libstdcxx 1 0) (\<lambda>_. bindE (bindResultString libstdcxx 2 1 2) (\<lambda>_.
        bindE (bindResultString libstdcxx 3 3 4) (\<lambda>_. bindResultString libstdcxx 4 5 6))) (newStmt 1) = (Ret (), s') \<and>
        fetch (Some [SqlInt uid, SqlString hash, SqlString salt, SqlString rootDir]) s' = None"
  by (auto simp: bindResultInt_def bindResultString_def stmt_simps fetch_def mysql_stmt_fetch_def write_column_def
        resize_list_def deref_def libstdcxx_def eval_nat_numeral)

end
