(* ===== verification/Config_File.thy ===== *)
theory Config_File
  imports Services
begin

text \<open>
  \<open>src/config.cpp\<close>: reading the configuration file. The lines are read into a map, later assignments
  replace earlier ones, and the settings are taken from it in the order of the code, each with the
  default of \<open>include/config.h\<close>. Numbers are read as \<open>long long\<close> and cast to the field's type.
\<close>

section \<open>The model\<close>

definition unquote :: "string \<Rightarrow> string" where
  "unquote s =
     (if 2 \<le> length s \<and> ((hd s = CHR 0x22 \<and> last s = CHR 0x22) \<or> (hd s = CHR 0x27 \<and> last s = CHR 0x27))
      then substr s 1 (length s - 2) else s)"

text \<open>\<open>std::stoll\<close>, which throws when there is no number or it is not a \<open>long long\<close>.\<close>

definition stoll :: "string \<Rightarrow> exn + int" where
  "stoll s =
     (let t = dropWhile isspace s;
          neg = (t \<noteq> [] \<and> hd t = CHR ''-'');
          u = (if t \<noteq> [] \<and> (hd t = CHR ''-'' \<or> hd t = CHR ''+'') then tl t else t);
          ds = takeWhile isdigit u;
          i = (if neg then - int (digits_value ds) else int (digits_value ds))
      in if ds = [] \<or> i < - (2 ^ 63) \<or> 2 ^ 63 \<le> i then Inl (StdException ''stoll'') else Inr i)"

text \<open>\<open>std::getline\<close> until the end of the file: a last line without characters is not one.\<close>

definition getlines :: "string \<Rightarrow> string list" where
  "getlines s = (let ls = split s CHR 0x0A in if last ls = [] then butlast ls else ls)"

definition read_line :: "(string \<rightharpoonup> string) \<Rightarrow> string \<Rightarrow> (string \<rightharpoonup> string)" where
  "read_line kv l =
     (let line = trim l in
      if line = [] \<or> hd line = CHR ''#'' \<or> hd line = CHR '';'' then kv
      else case find_first CHR ''='' line of
             None \<Rightarrow> kv
           | Some pos \<Rightarrow> kv(trim (substr line 0 pos) \<mapsto> unquote (trim (drop (pos + 1) line))))"

definition read_file :: "string \<Rightarrow> (string \<rightharpoonup> string)" where
  "read_file content = foldl read_line Map.empty (getlines content)"

definition get_setting :: "(string \<rightharpoonup> string) \<Rightarrow> string \<Rightarrow> string \<Rightarrow> string" where
  "get_setting kv k d = (case kv k of None \<Rightarrow> d | Some v \<Rightarrow> v)"

definition geti :: "(string \<rightharpoonup> string) \<Rightarrow> string \<Rightarrow> int \<Rightarrow> exn + int" where
  "geti kv k d = (case kv k of None \<Rightarrow> Inr d | Some v \<Rightarrow> stoll v)"

definition cast_int :: "int \<Rightarrow> int" where
  "cast_int i = sint (word_of_int i :: 32 word)"

definition default_config :: config where
  "default_config = \<lparr>listenIp = ''0.0.0.0'', listenPort = 9000, storageRoot = ''/var/cloudstore/data'',
     logFile = ''/var/log/cloudstore/server.log'', mysqlHost = ''127.0.0.1'', mysqlPort = 3306,
     mysqlUser = ''cloud'', mysqlPassword = ''cloud123'', mysqlDb = ''cloudstore'', mysqlPoolSize = 8,
     redisHost = ''127.0.0.1'', redisPort = 6379, redisPassword = [], redisDb = 0, chunkSize = 65536,
     maxConnections = 1024, sessionTtlSec = 3600, connIdleTimeoutSec = 300, maxUploadBytes = 8589934592,
     challengeBytes = 4096, copyWorkers = 2, copySleepUs = 0\<rparr>"

text \<open>One assignment to a field of the configuration under construction; the field's current value,
  its default, is what \<open>get\<close> and \<open>geti\<close> fall back to.\<close>

definition set_text :: "(string \<rightharpoonup> string) \<Rightarrow> string \<Rightarrow> ((string \<Rightarrow> string) \<Rightarrow> config \<Rightarrow> config) \<Rightarrow> (config, unit) cpp" where
  "set_text kv k upd = modify (upd (get_setting kv k))"

definition set_number ::
  "(string \<rightharpoonup> string) \<Rightarrow> string \<Rightarrow> (config \<Rightarrow> int) \<Rightarrow> (int \<Rightarrow> 'a) \<Rightarrow> (('a \<Rightarrow> 'a) \<Rightarrow> config \<Rightarrow> config) \<Rightarrow> (config, unit) cpp" where
  "set_number kv k current cast upd =
     bindE (gets current) (\<lambda>d. bindE (liftS (geti kv k d)) (\<lambda>i. modify (upd (\<lambda>_. cast i))))"

definition settings :: "(string \<rightharpoonup> string) \<Rightarrow> (config, unit) cpp" where
  "settings kv =
     bindE (set_text kv ''listen_ip'' listenIp_update) (\<lambda>_.
     bindE (set_number kv ''listen_port'' (\<lambda>c. uint (listenPort c)) word_of_int listenPort_update) (\<lambda>_.
     bindE (set_text kv ''storage_root'' storageRoot_update) (\<lambda>_.
     bindE (set_text kv ''log_file'' logFile_update) (\<lambda>_.
     bindE (set_text kv ''mysql_host'' mysqlHost_update) (\<lambda>_.
     bindE (set_number kv ''mysql_port'' (\<lambda>c. uint (mysqlPort c)) word_of_int mysqlPort_update) (\<lambda>_.
     bindE (set_text kv ''mysql_user'' mysqlUser_update) (\<lambda>_.
     bindE (set_text kv ''mysql_password'' mysqlPassword_update) (\<lambda>_.
     bindE (set_text kv ''mysql_db'' mysqlDb_update) (\<lambda>_.
     bindE (set_number kv ''mysql_pool_size'' mysqlPoolSize cast_int mysqlPoolSize_update) (\<lambda>_.
     bindE (set_text kv ''redis_host'' redisHost_update) (\<lambda>_.
     bindE (set_number kv ''redis_port'' (\<lambda>c. uint (redisPort c)) word_of_int redisPort_update) (\<lambda>_.
     bindE (set_text kv ''redis_password'' redisPassword_update) (\<lambda>_.
     bindE (set_number kv ''redis_db'' redisDb cast_int redisDb_update) (\<lambda>_.
     bindE (set_number kv ''chunk_size'' (\<lambda>c. uint (chunkSize c)) word_of_int chunkSize_update) (\<lambda>_.
     bindE (set_number kv ''max_connections'' maxConnections cast_int maxConnections_update) (\<lambda>_.
     bindE (set_number kv ''session_ttl_sec'' sessionTtlSec cast_int sessionTtlSec_update) (\<lambda>_.
     bindE (set_number kv ''conn_idle_timeout_sec'' connIdleTimeoutSec cast_int connIdleTimeoutSec_update) (\<lambda>_.
     bindE (set_number kv ''max_upload_bytes'' (\<lambda>c. sint (maxUploadBytes c)) word_of_int maxUploadBytes_update) (\<lambda>_.
     bindE (set_number kv ''challenge_bytes'' (\<lambda>c. uint (challengeBytes c)) word_of_int challengeBytes_update) (\<lambda>_.
     bindE (set_number kv ''copy_workers'' copyWorkers cast_int copyWorkers_update) (\<lambda>_.
     set_number kv ''copy_sleep_us'' copySleepUs cast_int copySleepUs_update)))))))))))))))))))))"

text \<open>\<open>Config::load\<close>, given what the file holds, or \<open>None\<close> when it cannot be opened.\<close>

definition load :: "string \<Rightarrow> string option \<Rightarrow> config outcome" where
  "load path content = (case content of
     None \<Rightarrow> Raise (StdException (''cannot open config: '' @ path))
   | Some s \<Rightarrow> fst (bindE (settings (read_file s)) (\<lambda>_. gets (\<lambda>c. c)) default_config))"

section \<open>Lines\<close>

lemma trim_id: "s = [] \<or> \<not> isspace (hd s) \<and> \<not> isspace (last s) \<Longrightarrow> trim s = s"
proof -
  assume ends: "s = [] \<or> \<not> isspace (hd s) \<and> \<not> isspace (last s)"
  obtain pre t post where t: "t = trim s" and s: "s = pre @ t @ post"
    and pre: "\<forall>c \<in> set pre. isspace c" and post: "\<forall>c \<in> set post. isspace c" using trim_parts by blast
  from ends pre have "pre = []" by (cases pre) (auto simp: s)
  moreover from ends post have "post = []" by (cases post rule: rev_cases) (auto simp: s)
  ultimately show "trim s = s" using s t by simp
qed

lemma trimmed_ends: "trim s = s \<Longrightarrow> s = [] \<or> \<not> isspace (hd s) \<and> \<not> isspace (last s)"
  by (metis trim_ends)

lemma split_Cons_delim: "d \<notin> set l \<Longrightarrow> split (l @ d # rest) d = l # split rest d"
  by (simp add: split_def split_go_plain)

lemma split_lines:
  "(\<And>l. l \<in> set ls \<Longrightarrow> CHR 0x0A \<notin> set l) \<Longrightarrow> split (concat (map (\<lambda>l. l @ [CHR 0x0A]) ls)) CHR 0x0A = ls @ [[]]"
proof (induction ls)
  case (Cons l ls)
  then show ?case by (simp add: split_Cons_delim)
qed (simp add: split_def)

text \<open>A key and a value as they may stand in the file.\<close>

definition good_key :: "string \<Rightarrow> bool" where
  "good_key k \<longleftrightarrow> k \<noteq> [] \<and> trim k = k \<and> hd k \<noteq> CHR ''#'' \<and> hd k \<noteq> CHR '';'' \<and>
     CHR ''='' \<notin> set k \<and> CHR 0x0A \<notin> set k"

definition good_value :: "string \<Rightarrow> bool" where
  "good_value v \<longleftrightarrow> trim v = v \<and> unquote v = v \<and> CHR 0x0A \<notin> set v"

definition assignment :: "string \<times> string \<Rightarrow> string" where
  "assignment kv = fst kv @ ''='' @ snd kv"

definition file_of :: "(string \<times> string) list \<Rightarrow> string" where
  "file_of kvs = concat (map (\<lambda>l. l @ [CHR 0x0A]) (map assignment kvs))"

lemma read_line_assignment:
  assumes "good_key k" and "good_value v"
  shows "read_line m (assignment (k, v)) = m(k \<mapsto> v)"
proof -
  let ?l = "k @ ''='' @ v"
  from assms have k: "k \<noteq> []" "\<not> isspace (hd k)" and v: "v = [] \<or> \<not> isspace (last v)"
    using trimmed_ends [of k] trimmed_ends [of v] by (auto simp: good_key_def good_value_def)
  have "\<not> isspace CHR ''=''" by (simp add: isspace_def char_code_def)
  with k v have t: "trim ?l = ?l" by (intro trim_id) (auto simp: last_append)
  have "takeWhile (\<lambda>x. x \<noteq> CHR ''='') ?l = k"
    using assms(1) by (subst takeWhile_append2) (auto simp: good_key_def)
  then have "find_first CHR ''='' ?l = Some (length k)" by (simp add: find_first_def)
  with t k assms show ?thesis
    by (simp add: read_line_def assignment_def Let_def substr_def good_key_def good_value_def)
qed

lemma read_file_of:
  assumes "list_all (\<lambda>kv. good_key (fst kv) \<and> good_value (snd kv)) kvs"
  shows "read_file (file_of kvs) = map_of (rev kvs)"
proof -
  have "CHR 0x0A \<notin> set l" if "l \<in> set (map assignment kvs)" for l
    using that assms by (auto simp: assignment_def good_key_def good_value_def list_all_iff)
  then have "getlines (file_of kvs) = map assignment kvs"
    using split_lines [of "map assignment kvs"] by (simp add: getlines_def file_of_def Let_def)
  moreover have "foldl read_line Map.empty (map assignment kvs) = map_of (rev kvs)"
    using assms
  proof (induction kvs rule: rev_induct)
    case (snoc x kvs)
    then show ?case by (cases x) (simp add: read_line_assignment)
  qed simp
  ultimately show ?thesis by (simp add: read_file_def)
qed

section \<open>Numbers\<close>

lemma isdigit_facts: "isdigit c \<Longrightarrow> \<not> isspace c \<and> c \<noteq> CHR ''-'' \<and> c \<noteq> CHR ''+''"
  by (auto simp: isdigit_def isspace_def char_code_def)

lemma stoll_to_string: "- (2 ^ 63) \<le> i \<Longrightarrow> i < 2 ^ 63 \<Longrightarrow> stoll (to_string_int i) = Inr i"
proof -
  assume r: "- (2 ^ 63) \<le> i" "i < 2 ^ 63"
  have d: "takeWhile isdigit (to_string_nat n) = to_string_nat n" "digits_value (to_string_nat n) = n"
    "to_string_nat n \<noteq> []" "isdigit (hd (to_string_nat n))" for n
    using to_string_nat_digits [of n] to_string_nat_nonempty [of n] by (auto simp: takeWhile_eq_all_conv)
  have n: "dropWhile isspace (to_string_nat n) = to_string_nat n" "hd (to_string_nat n) \<noteq> CHR ''-''"
    "hd (to_string_nat n) \<noteq> CHR ''+''" for n
    using isdigit_facts [OF d(4) [of n]] d(3) [of n] by (auto simp: dropWhile_eq_self_iff)
  show ?thesis
  proof (cases "i < 0")
    case True
    have "\<not> isspace CHR ''-''" by (simp add: isspace_def char_code_def)
    with True r show ?thesis by (simp add: stoll_def to_string_int_def d)
  next
    case False
    with r show ?thesis by (simp add: stoll_def to_string_int_def d n)
  qed
qed

lemma good_value_number: "good_value (to_string_int i)"
proof -
  let ?s = "to_string_int i"
  have dig: "\<forall>c \<in> set (to_string_nat n). isdigit c" "to_string_nat n \<noteq> []" for n
    using to_string_nat_digits [of n] to_string_nat_nonempty [of n] by auto
  have all: "c \<in> set ?s \<Longrightarrow> isdigit c \<or> c = CHR ''-''" for c
    using dig by (auto simp: to_string_int_def split: if_splits)
  have ne: "?s \<noteq> []" using dig by (simp add: to_string_int_def)
  have sp: "\<not> isspace c \<and> c \<noteq> CHR 0x0A \<and> c \<noteq> CHR 0x22 \<and> c \<noteq> CHR 0x27" if "c \<in> set ?s" for c
    using all [OF that] by (auto simp: isdigit_def isspace_def char_code_def)
  with ne have "trim ?s = ?s" by (intro trim_id) auto
  moreover from sp [of "hd ?s"] ne have "unquote ?s = ?s" by (auto simp: unquote_def)
  moreover from sp have "CHR 0x0A \<notin> set ?s" by blast
  ultimately show ?thesis by (simp add: good_value_def)
qed

section \<open>Writing and reading a configuration\<close>

text \<open>The file that assigns every setting of a configuration.\<close>

definition settings_of :: "config \<Rightarrow> (string \<times> string) list" where
  "settings_of c =
    [(''listen_ip'', listenIp c), (''listen_port'', to_string_int (uint (listenPort c))),
     (''storage_root'', storageRoot c), (''log_file'', logFile c), (''mysql_host'', mysqlHost c),
     (''mysql_port'', to_string_int (uint (mysqlPort c))), (''mysql_user'', mysqlUser c),
     (''mysql_password'', mysqlPassword c), (''mysql_db'', mysqlDb c),
     (''mysql_pool_size'', to_string_int (mysqlPoolSize c)), (''redis_host'', redisHost c),
     (''redis_port'', to_string_int (uint (redisPort c))), (''redis_password'', redisPassword c),
     (''redis_db'', to_string_int (redisDb c)), (''chunk_size'', to_string_int (uint (chunkSize c))),
     (''max_connections'', to_string_int (maxConnections c)),
     (''session_ttl_sec'', to_string_int (sessionTtlSec c)),
     (''conn_idle_timeout_sec'', to_string_int (connIdleTimeoutSec c)),
     (''max_upload_bytes'', to_string_int (uint (maxUploadBytes c))),
     (''challenge_bytes'', to_string_int (uint (challengeBytes c))),
     (''copy_workers'', to_string_int (copyWorkers c)), (''copy_sleep_us'', to_string_int (copySleepUs c))]"

text \<open>The strings of the configuration can stand in a file; its numbers have the range of their types,
  and \<open>max_upload_bytes\<close>, which is read as a signed number, the non-negative part of it.\<close>

definition is_int :: "int \<Rightarrow> bool" where
  "is_int i \<longleftrightarrow> - (2 ^ 31) \<le> i \<and> i < 2 ^ 31"

definition writable :: "config \<Rightarrow> bool" where
  "writable c \<longleftrightarrow>
     list_all good_value [listenIp c, storageRoot c, logFile c, mysqlHost c, mysqlUser c, mysqlPassword c,
       mysqlDb c, redisHost c, redisPassword c] \<and>
     list_all is_int [mysqlPoolSize c, redisDb c, maxConnections c, sessionTtlSec c, connIdleTimeoutSec c,
       copyWorkers c, copySleepUs c] \<and>
     uint (maxUploadBytes c) < 2 ^ 63"

lemma cast_is_int [simp]: "is_int i \<Longrightarrow> cast_int i = i"
  unfolding is_int_def cast_int_def sint_sbintrunc' by (rule signed_take_bit_int_eq_self) auto

lemma stoll_int [simp]: "is_int i \<Longrightarrow> stoll (to_string_int i) = Inr i"
  by (rule stoll_to_string) (auto simp: is_int_def)

lemma stoll_uint [simp]:
  "stoll (to_string_int (uint (p :: 16 word))) = Inr (uint p)"
  "stoll (to_string_int (uint (q :: 32 word))) = Inr (uint q)"
  by (rule stoll_to_string, use uint_lt2p [of p] uint_lt2p [of q] in \<open>auto intro: order.trans [OF _ uint_ge_0]\<close>)+

text \<open>Reading one setting that the file assigns.\<close>

lemma set_text_Some: "kv k = Some v \<Longrightarrow> bindE (set_text kv k upd) f c = f () (upd (get_setting kv k) c)"
  by (simp add: set_text_def bindE_def)

lemma set_number_Some:
  "kv k = Some v \<Longrightarrow> stoll v = Inr i \<Longrightarrow> set_number kv k cur cast upd c = (Ret (), upd (\<lambda>_. cast i) c)"
  by (simp add: set_number_def geti_def bindE_def)

lemma good_keys: "\<forall>k \<in> fst ` set (settings_of c). good_key k"
  by (simp add: settings_of_def good_key_def trim_id isspace_def char_code_def)

lemma settings_distinct: "distinct (map fst (settings_of c))"
  by (simp add: settings_of_def)

lemma read_settings:
  assumes "writable c"
  shows "read_file (file_of (settings_of c)) = map_of (settings_of c)"
proof -
  have "list_all (good_value \<circ> snd) (settings_of c)"
    using assms by (simp add: settings_of_def writable_def good_value_number)
  then have "read_file (file_of (settings_of c)) = map_of (rev (settings_of c))"
    using good_keys [of c] by (intro read_file_of) (simp add: list_all_iff)
  moreover have "map_of (rev (settings_of c)) = map_of (settings_of c)"
    using settings_distinct [of c] by (simp add: map_of_inject_set rev_map [symmetric])
  ultimately show ?thesis by simp
qed

lemma uint_max_upload: "uint (w :: u64) < 2 ^ 63 \<Longrightarrow> stoll (to_string_int (uint w)) = Inr (uint w)"
  by (rule stoll_to_string) (auto intro: order.trans [OF _ uint_ge_0])

text \<open>C29: a configuration written as one assignment per setting is the one \<open>Config::load\<close> reads back:
  every setting reaches its own field, at the field's width.\<close>

theorem config_roundtrip:
  assumes "writable c"
  shows "load path (Some (file_of (settings_of c))) = Ret c"
proof -
  from assms have i: "is_int (mysqlPoolSize c)" "is_int (redisDb c)" "is_int (maxConnections c)" "is_int (sessionTtlSec c)"
    "is_int (connIdleTimeoutSec c)" "is_int (copyWorkers c)" "is_int (copySleepUs c)" "uint (maxUploadBytes c) < 2 ^ 63"
    by (simp_all add: writable_def)
  note num = set_number_Some [OF _ stoll_int [OF i(1)]] set_number_Some [OF _ stoll_int [OF i(2)]]
    set_number_Some [OF _ stoll_int [OF i(3)]] set_number_Some [OF _ stoll_int [OF i(4)]]
    set_number_Some [OF _ stoll_int [OF i(5)]] set_number_Some [OF _ stoll_int [OF i(6)]]
    set_number_Some [OF _ stoll_int [OF i(7)]] set_number_Some [OF _ uint_max_upload [OF i(8)]]
    set_number_Some [OF _ stoll_uint(1)] set_number_Some [OF _ stoll_uint(2)]
  define kv where "kv = map_of (settings_of c)"
  have kv: "\<And>k v. (k, v) \<in> set (settings_of c) \<Longrightarrow> kv k = Some v"
    using settings_distinct [of c] by (simp add: kv_def)
  note at = kv [simplified settings_of_def, simplified]
  show ?thesis
    by (simp add: load_def read_settings [OF assms] kv_def [symmetric] settings_def set_text_Some num at bindE_def i
          get_setting_def set_text_def default_config_def)
qed

theorem config_roundtrip_witness:
  "writable default_config \<and> load ''x'' (Some (file_of (settings_of default_config))) = Ret default_config"
proof -
  have "writable default_config"
    by (simp add: writable_def default_config_def good_value_def unquote_def trim_id isspace_def char_code_def is_int_def)
  with config_roundtrip [of default_config] show ?thesis by simp
qed

section \<open>Bad numbers\<close>

definition number_keys :: "string list" where
  "number_keys = [''listen_port'', ''mysql_port'', ''mysql_pool_size'', ''redis_port'', ''redis_db'', ''chunk_size'',
     ''max_connections'', ''session_ttl_sec'', ''conn_idle_timeout_sec'', ''max_upload_bytes'', ''challenge_bytes'',
     ''copy_workers'', ''copy_sleep_us'']"

definition readable :: "(string \<rightharpoonup> string) \<Rightarrow> string \<Rightarrow> bool" where
  "readable kv k = (case kv k of None \<Rightarrow> True | Some v \<Rightarrow> (case stoll v of Inl _ \<Rightarrow> False | Inr _ \<Rightarrow> True))"

definition returns_iff :: "bool \<Rightarrow> (config, unit) cpp \<Rightarrow> bool" where
  "returns_iff P m \<longleftrightarrow> (\<forall>c. \<exists>c'. m c = (if P then Ret () else Raise (StdException ''stoll''), c'))"

lemma stoll_Inl: "stoll v = Inl e \<Longrightarrow> e = StdException ''stoll''"
  by (auto simp: stoll_def Let_def split: if_splits)

lemma returns_iff_intros:
  "returns_iff True (set_text kv k updt)"
  "returns_iff (readable kv k) (set_number kv k cur cast upd)"
  by (auto simp: returns_iff_def set_text_def set_number_def geti_def readable_def bindE_def
      dest!: stoll_Inl split: option.splits sum.splits)

lemma returns_iff_bind:
  assumes "returns_iff P m" and "returns_iff Q n"
  shows "returns_iff (P \<and> Q) (bindE m (\<lambda>_. n))"
  unfolding returns_iff_def
proof
  fix c
  from assms(1) obtain d where "m c = (if P then Ret () else Raise (StdException ''stoll''), d)"
    by (auto simp: returns_iff_def)
  moreover from assms(2) obtain e where "n d = (if Q then Ret () else Raise (StdException ''stoll''), e)"
    by (auto simp: returns_iff_def)
  ultimately show "\<exists>c'. bindE m (\<lambda>_. n) c = (if P \<and> Q then Ret () else Raise (StdException ''stoll''), c')"
    by (auto simp: bindE_def)
qed

lemma settings_returns_iff: "returns_iff (list_all (readable kv) number_keys) (settings kv)"
proof -
  have "\<exists>P. returns_iff P (settings kv) \<and> P = list_all (readable kv) number_keys"
    unfolding settings_def
    by (intro exI conjI, (rule returns_iff_bind returns_iff_intros)+) (simp add: number_keys_def)
  then show ?thesis by blast
qed

text \<open>\<open>Config::load\<close> of a readable file throws exactly when a number the file assigns is not one,
  and returns a configuration otherwise.\<close>

theorem bad_number_refused:
  "if list_all (readable (read_file s)) number_keys then \<exists>c. load path (Some s) = Ret c
   else load path (Some s) = Raise (StdException ''stoll'')"
  using settings_returns_iff [of "read_file s"] unfolding returns_iff_def
  by (auto simp: load_def bindE_def split: prod.splits if_splits dest!: spec [of _ default_config])

text \<open>A port that does not fit its 16 bits is not refused: \<open>listen_port=65536\<close> is read as port 0.\<close>

lemma port_wraps:
  "load path (Some (''listen_port=65536'' @ [CHR 0x0A])) = Ret (default_config\<lparr>listenPort := 0\<rparr>)"
proof -
  have "read_file (file_of [(''listen_port'', ''65536'')]) = [''listen_port'' \<mapsto> ''65536'']"
    by (subst read_file_of) (simp_all add: good_key_def good_value_def unquote_def trim_id isspace_def char_code_def)
  then have kv: "read_file (''listen_port=65536'' @ [CHR 0x0A]) = [''listen_port'' \<mapsto> ''65536'']"
    by (simp add: file_of_def assignment_def)
  have "stoll ''65536'' = Inr 65536"
    by (simp add: stoll_def isspace_def char_code_def isdigit_def digits_value_def)
  with kv show ?thesis
    by (simp add: load_def settings_def set_text_def set_number_def geti_def get_setting_def bindE_def
          default_config_def cast_int_def)
qed

section \<open>Ranges\<close>

text \<open>The fields of type \<open>int\<close> hold a value of that type; the other numbers are words.\<close>

definition typed_config :: "config \<Rightarrow> bool" where
  "typed_config c \<longleftrightarrow> is_int (mysqlPoolSize c) \<and> is_int (redisDb c) \<and> is_int (maxConnections c) \<and> is_int (sessionTtlSec c) \<and>
     is_int (connIdleTimeoutSec c) \<and> is_int (copyWorkers c) \<and> is_int (copySleepUs c)"

definition keeps_typed :: "(config, unit) cpp \<Rightarrow> bool" where
  "keeps_typed m \<longleftrightarrow> (\<forall>c. typed_config c \<longrightarrow> typed_config (snd (m c)))"

lemma is_int_cast: "is_int (cast_int i)"
  unfolding is_int_def cast_int_def sint_sbintrunc'
  using signed_take_bit_int_less_exp [of 31 i] signed_take_bit_int_greater_eq_minus_exp [of 31 i] by simp

lemma keeps_typed_bind: "keeps_typed m \<Longrightarrow> keeps_typed n \<Longrightarrow> keeps_typed (bindE m (\<lambda>_. n))"
  by (auto simp: keeps_typed_def bindE_def split: prod.splits outcome.splits)

lemma keeps_typed_modify: "(\<And>c. typed_config c \<Longrightarrow> typed_config (f c)) \<Longrightarrow> keeps_typed (modify f)"
  by (simp add: keeps_typed_def)

lemma keeps_typed_number:
  "(\<And>i c. typed_config c \<Longrightarrow> typed_config (upd (\<lambda>_. cast i) c)) \<Longrightarrow> keeps_typed (set_number kv k cur cast upd)"
  by (auto simp: keeps_typed_def set_number_def bindE_def liftS_def split: sum.splits)



end
