(* ===== verification/Server.thy ===== *)
theory Server
  imports Connection Config_File "HOL-Library.AList"
begin

text \<open>
  \<open>src/server.cpp\<close> and \<open>src/main.cpp\<close>: starting up, accepting and removing connections, the event
  loop over them, shutting down, and the exit code of the program. All connections share one
  world (file system, Redis, MySQL pool); a callback runs on the world and the fields of its
  connection. The calls of libevent are the events of \<open>serve\<close> and the results the code branches on.
\<close>

section \<open>Connections\<close>

text \<open>The fields of \<open>Connection\<close> that are its own, and the state its member functions run on.\<close>

record conn =
  k_upload :: upload_session
  k_download :: download_session
  k_session :: user_session
  k_authed :: bool
  k_peerIp :: string
  k_in :: string
  k_out :: string

text \<open>\<open>Connection::Connection\<close>: the read buffer takes up to \<open>readWatermark\<close> bytes.\<close>

definition newConnection :: "string \<Rightarrow> conn" where
  "newConnection ip = \<lparr>k_upload = no_upload, k_download = no_download, k_session = no_session,
     k_authed = False, k_peerIp = ip, k_in = [], k_out = []\<rparr>"

definition readWatermark :: nat where
  "readWatermark = kMaxFrameSize + kHeaderSize"

definition idleTimeout :: "config \<Rightarrow> int" where
  "idleTimeout c = connIdleTimeoutSec c"

definition conn_state :: "('r, 'm, 'f) world \<Rightarrow> conn \<Rightarrow> ('r, 'm, 'f) cstate" where
  "conn_state w k = \<lparr>w_os = w_os w, w_redis = w_redis w, ctx_set = ctx_set w, w_mysql = w_mysql w,
     idle_conns = idle_conns w, pool_stopping = pool_stopping w, upload = k_upload k, download = k_download k,
     c_session = k_session k, c_authed = k_authed k, c_peerIp = k_peerIp k, c_in = k_in k, c_out = k_out k, c_open = True\<rparr>"

definition conn_of :: "('r, 'm, 'f) cstate \<Rightarrow> conn" where
  "conn_of s = \<lparr>k_upload = upload s, k_download = download s, k_session = c_session s, k_authed = c_authed s,
     k_peerIp = c_peerIp s, k_in = c_in s, k_out = c_out s\<rparr>"

section \<open>The server\<close>

text \<open>\<open>connections_\<close> with the connection objects by their address, the sockets closed at once, whether
  \<open>base_\<close> is set and whether its loop has been told to break.\<close>

record ('r, 'm, 'f) server =
  sv_world :: "('r, 'm, 'f) world"
  connections :: "(nat \<times> conn) list"
  rejected :: "nat list"
  base_set :: bool
  broken :: bool

definition initial :: "('r, 'm, 'f) world \<Rightarrow> ('r, 'm, 'f) server" where
  "initial w = \<lparr>sv_world = w, connections = [], rejected = [], base_set = False, broken = False\<rparr>"

text \<open>\<open>onAccept\<close>: the new socket, the address of its connection object when one is made, the printed
  peer address if it is an IPv4 one, and whether \<open>bufferevent_socket_new\<close> succeeds.\<close>

definition onAccept :: "('r, 'm, 'f) env \<Rightarrow> nat \<Rightarrow> nat \<Rightarrow> string option \<Rightarrow> bool \<Rightarrow> (('r, 'm, 'f) server, unit) cpp" where
  "onAccept A fd p addr made =
     bindE (gets (\<lambda>sv. length (connections sv))) (\<lambda>n.
     if cast_int (int n) \<ge> maxConnections (cfg A) then modify (\<lambda>sv. sv\<lparr>rejected := rejected sv @ [fd]\<rparr>)
     else
       let ip = (case addr of Some a \<Rightarrow> a | None \<Rightarrow> ''unknown'') in
       if \<not> made then modify (\<lambda>sv. sv\<lparr>rejected := rejected sv @ [fd]\<rparr>)
       else modify (\<lambda>sv. sv\<lparr>connections := connections sv @ [(p, newConnection ip)]\<rparr>))"

text \<open>A callback of connection \<open>p\<close>: \<open>m\<close> on the shared world and its fields. When \<open>m\<close> ends in
  \<open>Connection::close\<close>, \<open>removeConnection\<close> has taken the connection out of the set and deleted it.\<close>

definition callback :: "nat \<Rightarrow> (('r, 'm, 'f) cstate, unit) cpp \<Rightarrow> (('r, 'm, 'f) server, unit) cpp" where
  "callback p m = (\<lambda>sv.
     case map_of (connections sv) p of
       None \<Rightarrow> (Ret (), sv)
     | Some k \<Rightarrow>
         (case m (conn_state (sv_world sv) k) of
            (r, s) \<Rightarrow> (r, sv\<lparr>sv_world := world.truncate s,
                            connections := (if c_open s then AList.update p (conn_of s) (connections sv)
                                            else AList.delete p (connections sv))\<rparr>)))"

text \<open>What libevent reports: a new socket, bytes for a connection (its read callback), bytes of its
  output written to the socket, an event of its bufferevent, and SIGINT or SIGTERM.\<close>

datatype event =
    Accept nat nat "string option" bool
  | Received nat string
  | Sent nat nat
  | Happened nat u16
  | Signalled

text \<open>\<open>Server::stop\<close>, also the callback of the signals: the loop ends after the current callback.\<close>

definition stop :: "(('r, 'm, 'f) server, unit) cpp" where
  "stop = modify (\<lambda>sv. if base_set sv then sv\<lparr>broken := True\<rparr> else sv)"

definition serve :: "('r, 'm, 'f) env \<Rightarrow> 'j jsoncpp \<Rightarrow> event \<Rightarrow> (('r, 'm, 'f) server, unit) cpp" where
  "serve A J ev = (case ev of
     Accept fd p addr made \<Rightarrow> onAccept A fd p addr made
   | Received p bytes \<Rightarrow> callback p (bindE (modify (\<lambda>s. s\<lparr>c_in := c_in s @ bytes\<rparr>)) (\<lambda>_. onRead A J))
   | Sent p n \<Rightarrow> callback p (modify (\<lambda>s. s\<lparr>c_out := drop n (c_out s)\<rparr>))
   | Happened p bits \<Rightarrow> callback p (onEvent A bits)
   | Signalled \<Rightarrow> stop)"

text \<open>\<open>event_base_dispatch\<close>: the callbacks one after the other, until one has broken the loop.\<close>

fun event_loop :: "('r, 'm, 'f) env \<Rightarrow> 'j jsoncpp \<Rightarrow> event list \<Rightarrow> (('r, 'm, 'f) server, unit) cpp" where
  "event_loop A J [] = return ()"
| "event_loop A J (ev # evs) =
     bindE (serve A J ev) (\<lambda>_.
     bindE (gets broken) (\<lambda>ended.
     if ended then return () else event_loop A J evs))"

text \<open>\<open>Server::~Server\<close>: every connection is deleted. Then the members go, in the reverse order of their
  declaration: \<open>redis_\<close> and \<open>mysql_\<close>, which hold the connections to the backends.\<close>

definition destroyServer :: "('r, 'm, 'f) env \<Rightarrow> (('r, 'm, 'f) server, unit) cpp" where
  "destroyServer A =
     bindE stop (\<lambda>_.
     bindE (gets (\<lambda>sv. map fst (connections sv))) (\<lambda>ps. forE ps (\<lambda>p. callback p (destroyConnection A))))"

definition on_world :: "(('r, 'm, 'f) world, 'a) cpp \<Rightarrow> (('r, 'm, 'f) server, 'a) cpp" where
  "on_world m = (\<lambda>sv. case m (sv_world sv) of (r, w) \<Rightarrow> (r, sv\<lparr>sv_world := w\<rparr>))"

definition shutDown :: "('r, 'm, 'f) env \<Rightarrow> (('r, 'm, 'f) server, unit) cpp" where
  "shutDown A =
     bindE (destroyServer A) (\<lambda>_.
     bindE (on_world (freeRedis A)) (\<lambda>_.
     on_world (destroyPool A)))"

section \<open>Starting up\<close>

text \<open>The world while the constructor runs, whether \<open>mysql_\<close> and \<open>redis_\<close> hold an object, and the
  seconds slept.\<close>

record ('r, 'm, 'f) boot = "('r, 'm, 'f) world" +
  has_mysql :: bool
  has_redis :: bool
  slept :: nat

text \<open>\<open>mysql_ = std::make_unique<MysqlPool>(cfg_)\<close>: when the new pool is complete it replaces the old
  one, which closes its handles; when its constructor throws, the old one stays and the handles made
  so far are lost.\<close>

definition makePool :: "('r, 'm, 'f) env \<Rightarrow> (('r, 'm, 'f) boot, unit) cpp" where
  "makePool A = (\<lambda>w.
     case newPool A (w\<lparr>idle_conns := [], pool_stopping := False\<rparr>) of
       (Ret _, w') \<Rightarrow> (Ret (), w'\<lparr>w_mysql := fold (my_close (sql A)) (idle_conns w) (w_mysql w'), has_mysql := True\<rparr>)
     | (r, w') \<Rightarrow> (r, w'\<lparr>idle_conns := idle_conns w, pool_stopping := pool_stopping w\<rparr>))"

text \<open>\<open>redis_ = std::make_unique<RedisStore>(cfg_)\<close>: the new store connects; freeing the old one's
  context does not touch it.\<close>

definition makeRedis :: "('r, 'm, 'f) env \<Rightarrow> (('r, 'm, 'f) boot, unit) cpp" where
  "makeRedis A = (\<lambda>w.
     case ensure A (w\<lparr>ctx_set := False\<rparr>) of
       (Ret _, w') \<Rightarrow> (Ret (), w'\<lparr>has_redis := True\<rparr>)
     | (r, w') \<Rightarrow> (r, w'\<lparr>ctx_set := ctx_set w\<rparr>))"

definition attempt :: "('r, 'm, 'f) env \<Rightarrow> (('r, 'm, 'f) boot, unit) cpp" where
  "attempt A =
     bindE (makePool A) (\<lambda>_.
     bindE (makeRedis A) (\<lambda>_.
     bindE (ping A) (\<lambda>ok.
     if ok then return () else throw (StdException ''redis ping failed''))))"

fun retry :: "('r, 'm, 'f) env \<Rightarrow> nat \<Rightarrow> string \<Rightarrow> (('r, 'm, 'f) boot, string) cpp" where
  "retry A 0 lastErr = return lastErr"
| "retry A (Suc n) lastErr =
     bindE (catchE (bindE (attempt A) (\<lambda>_. return None))
                   (\<lambda>e. bindE (modify (\<lambda>w. w\<lparr>slept := Suc (slept w)\<rparr>)) (\<lambda>_. return (Some (what e))))) (\<lambda>failed.
     case failed of None \<Rightarrow> return [] | Some err \<Rightarrow> retry A n err)"

definition connectBackends :: "('r, 'm, 'f) env \<Rightarrow> (('r, 'm, 'f) boot, unit) cpp" where
  "connectBackends A =
     bindE (retry A 30 []) (\<lambda>lastErr.
     bindE (gets (\<lambda>w. has_mysql w \<and> has_redis w)) (\<lambda>ready.
     if \<not> ready then throw (StdException (''backend not ready: '' @ lastErr)) else return ()))"

text \<open>\<open>Server::Server\<close>.\<close>

definition newServer :: "('r, 'm, 'f) env \<Rightarrow> (('r, 'm, 'f) boot, unit) cpp" where
  "newServer A =
     bindE (ensureDir A (storageRoot (cfg A))) (\<lambda>_.
     bindE (ensureDir A (usersRoot (cfg A))) (\<lambda>_.
     bindE (ensureDir A (objectsRoot (cfg A))) (\<lambda>_.
     bindE (ensureDir A (tmpRoot (cfg A))) (\<lambda>_.
     bindE (connectBackends A) (\<lambda>_. ensureDefaultUsers A)))))"

text \<open>The constructor throws: the members made so far are destroyed.\<close>

definition dropMembers :: "('r, 'm, 'f) env \<Rightarrow> (('r, 'm, 'f) boot, unit) cpp" where
  "dropMembers A =
     bindE (gets has_redis) (\<lambda>r. bindE (if r then freeRedis A else return ()) (\<lambda>_.
     bindE (gets has_mysql) (\<lambda>m. if m then destroyPool A else return ())))"

section \<open>The program\<close>

text \<open>\<open>Server::run\<close>: the results of \<open>event_base_new\<close>, \<open>evutil_inet_pton\<close> and
  \<open>evconnlistener_new_bind\<close>, then the events until the loop is broken.\<close>

record libevent =
  ev_base :: bool
  ev_pton :: "string \<Rightarrow> bool"
  ev_bind :: "string \<Rightarrow> u16 \<Rightarrow> bool"

definition run :: "('r, 'm, 'f) env \<Rightarrow> 'j jsoncpp \<Rightarrow> libevent \<Rightarrow> event list \<Rightarrow> (('r, 'm, 'f) server, int) cpp" where
  "run A J L evs =
     (if \<not> ev_base L then return 1
      else bindE (modify (\<lambda>sv. sv\<lparr>base_set := True\<rparr>)) (\<lambda>_.
        if \<not> ev_pton L (c_str (listenIp (cfg A))) then return 1
        else if \<not> ev_bind L (c_str (listenIp (cfg A))) (listenPort (cfg A)) then return 1
        else bindE (event_loop A J evs) (\<lambda>_. return 0)))"

text \<open>The arguments after the program's name: the configuration file to use, or the exit code.\<close>

fun parse_args :: "string \<Rightarrow> string list \<Rightarrow> int + string" where
  "parse_args conf [] = Inr conf"
| "parse_args conf (a # rest) =
     (if (a = ''-c'' \<or> a = ''--conf'') \<and> rest \<noteq> [] then parse_args (hd rest) (tl rest)
      else if a = ''-h'' \<or> a = ''--help'' then Inl 0
      else Inl 1)"

text \<open>\<open>main\<close>: the file system gives the configuration file's contents, and \<open>mk\<close> the libraries for a
  configuration. The exit code, and the world when the program has ended: the server is a variable of
  the \<open>try\<close> block, so it is destroyed when the block is left. An exception that leaves a callback is
  taken to unwind through the event loop to the handler here.\<close>

definition main :: "(string \<Rightarrow> string option) \<Rightarrow> (config \<Rightarrow> ('r, 'm, 'f) env) \<Rightarrow> 'j jsoncpp \<Rightarrow> libevent \<Rightarrow> event list \<Rightarrow>
    ('r, 'm, 'f) world \<Rightarrow> string list \<Rightarrow> int outcome \<times> ('r, 'm, 'f) world" where
  "main open_file mk J L evs w args =
     (case parse_args ''conf/server.conf'' args of
        Inl code \<Rightarrow> (Ret code, w)
      | Inr conf \<Rightarrow>
          (case load conf (open_file conf) of
             Raise e \<Rightarrow> (Ret 1, w)
           | Blocked \<Rightarrow> (Blocked, w)
           | Undef \<Rightarrow> (Undef, w)
           | Ret c \<Rightarrow>
               (case newServer (mk c) (world.extend w (boot.fields False False 0)) of
                  (Raise e, b) \<Rightarrow> (Ret 1, world.truncate (snd (dropMembers (mk c) b)))
                | (Blocked, b) \<Rightarrow> (Blocked, world.truncate b)
                | (Undef, b) \<Rightarrow> (Undef, world.truncate b)
                | (Ret _, b) \<Rightarrow>
                    (case run (mk c) J L evs (initial (world.truncate b)) of
                       (Blocked, sv) \<Rightarrow> (Blocked, sv_world sv)
                     | (Undef, sv) \<Rightarrow> (Undef, sv_world sv)
                     | (Raise e, sv) \<Rightarrow> (Ret 1, sv_world (snd (shutDown (mk c) sv)))
                     | (Ret code, sv) \<Rightarrow> (Ret code, sv_world (snd (shutDown (mk c) sv)))))))"

end
