(* ===== verification/Server_Properties.thy ===== *)
theory Server_Properties
  imports Server Connection_Properties
begin

text \<open>
  The server as a whole: the invariant of the event loop over all reachable states, the
  independence of the connections, and how long and with what outcome the start-up waits for the
  database and Redis.
\<close>

section \<open>The read buffer\<close>

lemma full_buffer: "readWatermark \<le> length input \<Longrightarrow> nextFrame input \<noteq> NeedMore"
  by (auto simp: readWatermark_def nextFrame_def kHeaderSize_def parseHeader_def Let_def
      split: option.splits if_splits)

section \<open>Reachable states\<close>

lemma initial_simps [simp]: "connections (initial w) = []" "sv_world (initial w) = w" "\<not> broken (initial w)"
  by (simp_all add: initial_def)

text \<open>An address \<open>new\<close> returns is not the address of a live object.\<close>

definition fresh :: "event \<Rightarrow> ('r, 'm, 'f) server \<Rightarrow> bool" where
  "fresh ev sv = (case ev of Accept fd p addr made \<Rightarrow> p \<notin> fst ` set (connections sv) | _ \<Rightarrow> True)"

inductive reaches :: "('r, 'm, 'f) env \<Rightarrow> 'j jsoncpp \<Rightarrow> ('r, 'm, 'f) server \<Rightarrow> bool" for A J where
  start: "reaches A J (initial w)"
| step: "reaches A J sv \<Longrightarrow> fresh ev sv \<Longrightarrow> serve A J ev sv = (Ret (), sv') \<Longrightarrow> reaches A J sv'"

text \<open>What holds of a connection between two callbacks: no complete frame waits in its buffer, and the
  buffer is not full, so that libevent goes on reading.\<close>

definition drained :: "conn \<Rightarrow> bool" where
  "drained k \<longleftrightarrow> nextFrame (k_in k) = NeedMore \<and> length (k_in k) < readWatermark"

definition server_inv :: "('r, 'm, 'f) env \<Rightarrow> ('r, 'm, 'f) server \<Rightarrow> bool" where
  "server_inv A sv \<longleftrightarrow> distinct (map fst (connections sv)) \<and>
     int (length (connections sv)) \<le> max 0 (maxConnections (cfg A)) \<and>
     list_all (\<lambda>pk. drained (snd pk)) (connections sv)"

lemma drained_iff: "drained k \<longleftrightarrow> nextFrame (k_in k) = NeedMore"
  using full_buffer [of "k_in k"] by (auto simp: drained_def not_less [symmetric])

lemma length_update_old: "p \<in> fst ` set al \<Longrightarrow> length (AList.update p v al) = length al"
  by (induction al) auto

lemma list_all_update: "list_all P al \<Longrightarrow> P (p, v) \<Longrightarrow> list_all P (AList.update p v al)"
  by (induction al) auto

lemma list_all_delete: "list_all P al \<Longrightarrow> list_all P (AList.delete p al)"
  by (auto simp: list_all_iff AList.delete_eq)

text \<open>A callback that leaves an open connection drained keeps the invariant.\<close>

lemma callback_inv:
  assumes "server_inv A sv" and "callback p m sv = (r, sv')"
    and "\<And>k s. map_of (connections sv) p = Some k \<Longrightarrow> m (conn_state (sv_world sv) k) = (r, s) \<Longrightarrow> c_open s \<Longrightarrow> drained (conn_of s)"
  shows "server_inv A sv'"
proof (cases "map_of (connections sv) p")
  case None
  with assms show ?thesis by (simp add: callback_def)
next
  case (Some k)
  obtain s where s: "m (conn_state (sv_world sv) k) = (r, s)"
    using assms(2) Some by (auto simp: callback_def split: prod.splits)
  let ?c = "connections sv"
  have p: "p \<in> fst ` set ?c" using Some by (force dest: map_of_SomeD)
  show ?thesis
  proof (cases "c_open s")
    case True
    with Some s assms(2) have "connections sv' = AList.update p (conn_of s) ?c" by (auto simp: callback_def)
    moreover have "length (AList.update p (conn_of s) ?c) = length ?c"
      using p by (rule length_update_old)
    moreover have "drained (conn_of s)" by (rule assms(3) [OF Some s True])
    ultimately show ?thesis using assms(1)
      by (simp add: server_inv_def AList.distinct_update list_all_update)
  next
    case False
    with Some s assms(2) have "connections sv' = AList.delete p ?c" by (auto simp: callback_def)
    with AList.length_delete_le [of p ?c] assms(1) show ?thesis
      by (simp add: server_inv_def AList.distinct_delete list_all_delete)
  qed
qed

lemma onAccept_inv:
  assumes "server_inv A sv" and "is_int (maxConnections (cfg A))" and "p \<notin> fst ` set (connections sv)"
    and "onAccept A fd p addr made sv = (r, sv')"
  shows "server_inv A sv'"
proof -
  let ?n = "int (length (connections sv))"
  from assms(1,2) have "is_int ?n" by (auto simp: server_inv_def is_int_def)
  moreover have "drained (newConnection ip)" for ip
    by (simp add: drained_iff newConnection_def nextFrame_def kHeaderSize_def)
  ultimately show ?thesis using assms
    by (auto simp: onAccept_def server_inv_def Let_def bindE_def split: if_splits)
qed

lemma conn_state_simps [simp]:
  "c_in (conn_state w k) = k_in k" "c_open (conn_state w k)" "c_out (conn_state w k) = k_out k"
  "k_in (conn_of s) = c_in s" "k_out (conn_of s) = c_out s"
  by (simp_all add: conn_state_def conn_of_def)

lemma onEvent_open: "onEvent A bits s = (r, s') \<Longrightarrow> c_open s' \<Longrightarrow> s' = s"
  using closeConnection_run [of A s] by (auto simp: onEvent_def split: if_splits)

lemma serve_inv:
  assumes "server_inv A sv" and "is_int (maxConnections (cfg A))" and "fresh ev sv" and "serve A J ev sv = (Ret (), sv')"
  shows "server_inv A sv'"
proof (cases ev)
  case (Accept fd p addr made)
  with assms show ?thesis by (auto simp: fresh_def serve_def intro: onAccept_inv)
next
  case (Received p bytes)
  show ?thesis
  proof (rule callback_inv [OF assms(1)])
    show "callback p (bindE (modify (\<lambda>s. s\<lparr>c_in := c_in s @ bytes\<rparr>)) (\<lambda>_. onRead A J)) sv = (Ret (), sv')"
      using assms(4) Received by (simp add: serve_def)
    fix k s
    let ?w = "(conn_state (sv_world sv) k)\<lparr>c_in := k_in k @ bytes\<rparr>"
    assume "bindE (modify (\<lambda>s. s\<lparr>c_in := c_in s @ bytes\<rparr>)) (\<lambda>_. onRead A J) (conn_state (sv_world sv) k) = (Ret (), s)"
      and "c_open s"
    moreover from this have "onRead A J ?w = (Ret (), s)" by (simp add: bindE_def)
    moreover obtain fs left bad where d: "drain (k_in k @ bytes) = (fs, left, bad)" by (cases "drain (k_in k @ bytes)")
    ultimately show "drained (conn_of s)"
      using onRead_frames [of A J ?w s fs left bad] drain_left [of _ fs left] by (auto simp: drained_iff)
  qed
next
  case (Sent p n)
  show ?thesis
    by (rule callback_inv [OF assms(1), of p "modify (\<lambda>s. s\<lparr>c_out := drop n (c_out s)\<rparr>)" "Ret ()"])
       (use assms(1,4) Sent in \<open>auto simp: serve_def drained_def server_inv_def list_all_iff dest: map_of_SomeD\<close>)
next
  case (Happened p bits)
  show ?thesis
    by (rule callback_inv [OF assms(1), of p "onEvent A bits" "Ret ()"])
       (use assms(1,4) Happened in \<open>auto simp: serve_def drained_def server_inv_def list_all_iff dest: map_of_SomeD dest!: onEvent_open\<close>)
next
  case Signalled
  then show ?thesis using assms(1,4) by (auto simp: serve_def stop_def server_inv_def)
qed

text \<open>C22: between two callbacks, whatever the clients send and in whatever order the events come, the
  server has at most \<open>max_connections\<close> connections, each with its own address, and no connection has
  a complete frame waiting or a full read buffer: the watermark of the read buffer never stops a
  connection for good.\<close>

theorem server_invariant:
  assumes "reaches A J sv" and "is_int (maxConnections (cfg A))"
  shows "distinct (map fst (connections sv)) \<and> int (length (connections sv)) \<le> max 0 (maxConnections (cfg A)) \<and>
    (\<forall>(p, k) \<in> set (connections sv). nextFrame (k_in k) = NeedMore \<and> length (k_in k) < readWatermark)"
proof -
  from assms(1) have "server_inv A sv"
    by (induction rule: reaches.induct) (simp add: server_inv_def, rule serve_inv [OF _ assms(2)])
  then show ?thesis by (auto simp: server_inv_def list_all_iff drained_def)
qed

definition ref_server :: "(ref_redis, ref_db, ref_fs) server" where
  "ref_server = (initial ref_world)\<lparr>connections := [(100, newConnection ''127.0.0.1'')]\<rparr>"

lemma ref_server_reached: "reaches ref_env ref_json ref_server"
proof (rule reaches.step [OF reaches.start [where w = ref_world]])
  show "fresh (Accept 5 100 (Some ''127.0.0.1'') True) (initial ref_world)"
    by (simp add: fresh_def)
  show "serve ref_env ref_json (Accept 5 100 (Some ''127.0.0.1'') True)
      (initial ref_world) = (Ret (), ref_server)"
    by (simp add: serve_def onAccept_def bindE_def ref_server_def initial_def ref_env_def ref_config_def cast_int_def)
qed

theorem server_invariant_witness:
  "reaches ref_env ref_json ref_server \<and> is_int (maxConnections (cfg ref_env)) \<and>
   int (length (connections ref_server)) \<le> max 0 (maxConnections (cfg ref_env))"
proof -
  have i: "is_int (maxConnections (cfg ref_env))" by (simp add: is_int_def ref_env_def ref_config_def)
  from server_invariant [OF ref_server_reached this] i ref_server_reached show ?thesis by blast
qed

section \<open>Independence of the connections\<close>

definition concerns :: "event \<Rightarrow> nat set" where
  "concerns ev = (case ev of Accept fd p addr made \<Rightarrow> {p} | Received p bytes \<Rightarrow> {p} | Sent p n \<Rightarrow> {p} | Happened p bits \<Rightarrow> {p} | Signalled \<Rightarrow> {})"

lemma callback_others: "callback p m sv = (r, sv') \<Longrightarrow> q \<noteq> p \<Longrightarrow> map_of (connections sv') q = map_of (connections sv) q"
  by (auto simp: callback_def AList.update_conv' AList.delete_conv' split: option.splits prod.splits if_splits)

text \<open>an event of one connection, whatever its handler does and however it ends, leaves the
  session, the transfers and the buffers of every other connection as they are.\<close>

theorem connections_are_independent:
  assumes "serve A J ev sv = (r, sv')" and "q \<notin> concerns ev"
  shows "map_of (connections sv') q = map_of (connections sv) q"
  using assms callback_others
  by (cases ev)
     (auto simp: serve_def stop_def concerns_def onAccept_def bindE_def Let_def map_add_def split: if_splits option.splits)

theorem connections_are_independent_witness:
  "map_of (connections (snd (serve ref_env ref_json (Happened 7 0x10) ref_server))) 100 = Some (newConnection ''127.0.0.1'')"
  using connections_are_independent [of ref_env ref_json "Happened 7 0x10" ref_server _ _ 100]
  by (simp add: concerns_def ref_server_def initial_def prod_eq_iff)

text \<open>Shutting down deletes every connection.\<close>

lemma destroy_callback:
  assumes "callback p (destroyConnection A) sv = (r, sv')"
  shows "r = Ret () \<and> connections sv' = AList.delete p (connections sv)"
proof (cases "map_of (connections sv) p")
  case None
  then have "p \<notin> fst ` set (connections sv)" by (simp add: map_of_eq_None_iff)
  with None show ?thesis using assms by (simp add: callback_def AList.delete_id)
next
  case (Some k)
  then show ?thesis using assms closeConnection_run [of A "conn_state (sv_world sv) k", unfolded closeConnection_def]
    by (auto simp: callback_def)
qed

lemma destroy_all:
  "\<exists>sv'. forE ps (\<lambda>p. callback p (destroyConnection A)) sv = (Ret (), sv') \<and>
     connections sv' = filter (\<lambda>pk. fst pk \<notin> set ps) (connections sv)"
proof (induction ps arbitrary: sv)
  case (Cons p ps)
  obtain r sv1 where c: "callback p (destroyConnection A) sv = (r, sv1)" by (cases "callback p (destroyConnection A) sv")
  with destroy_callback [OF this] Cons [of sv1] show ?case
    by (auto simp: bindE_def AList.delete_eq case_prod_beta intro!: filter_cong)
qed simp

lemma destroyServer_empty: "\<exists>sv'. destroyServer A sv = (Ret (), sv') \<and> connections sv' = []"
proof -
  obtain t where t: "stop sv = (Ret (), t)" "connections t = connections sv" by (simp add: stop_def)
  then show ?thesis using destroy_all [of "map fst (connections sv)" A t]
    by (auto simp: destroyServer_def bindE_def filter_empty_conv)
qed

text \<open>And it gives the connections to the backends back.\<close>

lemma close_handles: "\<exists>m. forE ms (\<lambda>h. on_mysql (\<lambda>s. ((), my_close (sql A) h s))) w = (Ret (), w\<lparr>w_mysql := m\<rparr>)"
proof (induction ms arbitrary: w)
  case Nil
  have "w = w\<lparr>w_mysql := w_mysql w\<rparr>" by simp
  then show ?case by (metis forE.simps(1) return_def)
next
  case (Cons h ms)
  obtain m where "forE ms (\<lambda>h. on_mysql (\<lambda>s. ((), my_close (sql A) h s))) (w\<lparr>w_mysql := my_close (sql A) h (w_mysql w)\<rparr>) =
      (Ret (), w\<lparr>w_mysql := my_close (sql A) h (w_mysql w), w_mysql := m\<rparr>)" using Cons by blast
  moreover have "on_mysql (\<lambda>s. ((), my_close (sql A) h s)) w = (Ret (), w\<lparr>w_mysql := my_close (sql A) h (w_mysql w)\<rparr>)"
    by (simp add: on_mysql_run)
  ultimately have "forE (h # ms) (\<lambda>h. on_mysql (\<lambda>s. ((), my_close (sql A) h s))) w = (Ret (), w\<lparr>w_mysql := m\<rparr>)"
    by (simp only: forE.simps bindE_run(1)) simp
  then show ?case by blast
qed

lemma freeRedis_run: "\<exists>w'. freeRedis A w = (Ret (), w') \<and> \<not> ctx_set w' \<and> idle_conns w' = idle_conns w"
  by (auto simp: freeRedis_def bindE_def on_redis_run)

lemma destroyPool_run: "\<exists>w'. destroyPool A w = (Ret (), w') \<and> idle_conns w' = [] \<and> pool_stopping w' \<and> ctx_set w' = ctx_set w"
  using close_handles [of "idle_conns w" A "w\<lparr>pool_stopping := True\<rparr>"] by (auto simp: destroyPool_def bindE_def)

definition released :: "('r, 'm, 'f, 'z) world_scheme \<Rightarrow> bool" where
  "released w \<longleftrightarrow> idle_conns w = [] \<and> \<not> ctx_set w"

lemma shutDown_run: "\<exists>sv'. shutDown A sv = (Ret (), sv') \<and> connections sv' = [] \<and> released (sv_world sv')"
proof -
  obtain sv1 where 1: "destroyServer A sv = (Ret (), sv1)" "connections sv1 = []" using destroyServer_empty by blast
  obtain w2 where 2: "freeRedis A (sv_world sv1) = (Ret (), w2)" "\<not> ctx_set w2" using freeRedis_run by blast
  obtain w3 where "destroyPool A w2 = (Ret (), w3)" "idle_conns w3 = []" "ctx_set w3 = ctx_set w2" using destroyPool_run by blast
  with 1 2 show ?thesis by (simp add: shutDown_def on_world_def bindE_def released_def)
qed

text \<open>A signal ends the loop: no event behind it is handled.\<close>

lemma serve_base: "serve A J ev sv = (r, sv') \<Longrightarrow> base_set sv \<Longrightarrow> base_set sv'"
  by (auto simp: serve_def stop_def callback_def onAccept_def bindE_def Let_def split: event.splits option.splits prod.splits if_splits)

lemma event_loop_signal: "base_set sv \<Longrightarrow> event_loop A J (evs @ Signalled # rest) sv = event_loop A J (evs @ [Signalled]) sv"
proof (induction evs arbitrary: sv)
  case Nil
  then show ?case by (simp add: serve_def stop_def bindE_def)
next
  case (Cons ev evs)
  obtain r t where "serve A J ev sv = (r, t)" by fastforce
  then show ?case using Cons serve_base [of A J ev sv r t] by (cases r) (simp_all add: bindE_def)
qed

section \<open>Starting up\<close>

text \<open>A failing attempt that keeps \<open>I\<close> is repeated as long as there are turns left.\<close>

lemma retry_fails:
  assumes "\<And>w. I w \<Longrightarrow> \<exists>w'. attempt A w = (Raise e, w') \<and> I w' \<and> slept w' = slept w"
    and "\<And>w. I w \<Longrightarrow> I (w\<lparr>slept := Suc (slept w)\<rparr>)"
  shows "I w \<Longrightarrow> \<exists>w'. retry A n lastErr w = (Ret (if n = 0 then lastErr else what e), w') \<and> I w' \<and> slept w' = slept w + n"
proof (induction n arbitrary: w lastErr)
  case (Suc n)
  from assms(1) [OF Suc.prems] obtain w1 where w1: "attempt A w = (Raise e, w1)" "I w1" "slept w1 = slept w" by blast
  from Suc.IH [OF assms(2) [OF w1(2)], of "what e"] w1 show ?case
    by (auto simp: bindE_def catchE_def)
qed simp

text \<open>A database that refuses connections.\<close>

lemma attempt_no_database:
  assumes "\<And>m. \<exists>m'. my_connect (sql A) m = (MyConnFail err, m')" and "0 < mysqlPoolSize (cfg A)"
  shows "\<exists>m. attempt A w = (Raise (StdException (''mysql connect failed: '' @ err)), w\<lparr>w_mysql := m\<rparr>)"
proof -
  from assms(2) obtain n where n: "nat (mysqlPoolSize (cfg A)) = Suc n" by (cases "nat (mysqlPoolSize (cfg A))") auto
  obtain m' where "my_connect (sql A) (w_mysql w) = (MyConnFail err, m')" using assms(1) by blast
  then show ?thesis
    by (auto simp: attempt_def makePool_def newPool_def n connectOne_def bindE_def on_mysql_def)
qed

text \<open>C36: when the database refuses every connection, the constructor gives up: it throws after thirty
  attempts and thirty seconds of sleep, with the reason of the last attempt.\<close>

theorem startup_gives_up:
  assumes "\<And>m. \<exists>m'. my_connect (sql A) m = (MyConnFail err, m')" and "0 < mysqlPoolSize (cfg A)" and "\<not> has_mysql w"
  shows "\<exists>w'. connectBackends A w = (Raise (StdException (''backend not ready: mysql connect failed: '' @ err)), w') \<and>
    slept w' = slept w + 30"
proof -
  have "\<exists>w'. retry A 30 [] w = (Ret (if (30 :: nat) = 0 then [] else what (StdException (''mysql connect failed: '' @ err))), w') \<and>
      \<not> has_mysql w' \<and> slept w' = slept w + 30"
    by (rule retry_fails [where I = "\<lambda>w. \<not> has_mysql w"]) (use attempt_no_database [OF assms(1,2)] assms(3) in force)+
  then show ?thesis by (auto simp: connectBackends_def bindE_def what_def)
qed

lemma fill_pool_returns:
  assumes "\<And>m. \<exists>h m'. my_connect (sql A) m = (MyConnected h, m')"
  shows "\<exists>hs m. fill_pool A n w = (Ret (), w\<lparr>w_mysql := m, idle_conns := hs\<rparr>)"
proof (induction n arbitrary: w)
  case 0
  show ?case by (rule exI [of _ "idle_conns w"], rule exI [of _ "w_mysql w"]) simp
next
  case (Suc n)
  obtain h m' where "my_connect (sql A) (w_mysql w) = (MyConnected h, m')" using assms by blast
  moreover obtain hs m where "fill_pool A n (release h (w\<lparr>w_mysql := m'\<rparr>)) =
      (Ret (), (release h (w\<lparr>w_mysql := m'\<rparr>))\<lparr>w_mysql := m, idle_conns := hs\<rparr>)" using Suc by blast
  ultimately show ?case
    by (auto simp: connectOne_def bindE_def on_mysql_def release_def)
qed

lemma attempt_loading:
  assumes "\<And>m. \<exists>h m'. my_connect (sql A) m = (MyConnected h, m')"
    and "\<And>h p r. \<exists>r'. redisConnect (rds A) h p r = (ConnOk, r')" and "\<And>r. \<not> redisErr (rds A) r"
    and "redisPassword (cfg A) = []"
    and "\<And>r. \<exists>s r'. redisCommand (rds A) [''SELECT'', to_string_int (redisDb (cfg A))] r = (Some (R_STATUS s), r')"
    and "\<And>r. \<exists>e r'. redisCommand (rds A) [''PING''] r = (Some (R_ERROR e), r')"
  shows "\<exists>w'. attempt A w = (Raise (StdException ''redis ping failed''), w') \<and> has_mysql w' \<and> has_redis w' \<and> slept w' = slept w"
proof -
  obtain w1 where w1: "makePool A w = (Ret (), w1)" "has_mysql w1" "slept w1 = slept w"
    using fill_pool_returns [OF assms(1), of "nat (mysqlPoolSize (cfg A))" "w\<lparr>idle_conns := [], pool_stopping := False\<rparr>"]
    by (auto simp: makePool_def newPool_def)
  obtain r1 where r1: "redisConnect (rds A) (c_str (redisHost (cfg A))) (redisPort (cfg A)) (w_redis w1) = (ConnOk, r1)"
    using assms(2) by blast
  obtain s r2 where r2: "redisCommand (rds A) [''SELECT'', to_string_int (redisDb (cfg A))] r1 = (Some (R_STATUS s), r2)"
    using assms(5) by blast
  define w2 where "w2 = w1\<lparr>w_redis := r2, ctx_set := True, has_redis := True\<rparr>"
  have w2: "makeRedis A w1 = (Ret (), w2)" using r1 r2 assms(4)
    by (simp add: makeRedis_def ensure_def bindE_def on_redis_def w2_def)
  obtain e r3 where "redisCommand (rds A) [''PING''] r2 = (Some (R_ERROR e), r3)" using assms(6) by blast
  then have "ping A w2 = (Ret False, w2\<lparr>w_redis := r3\<rparr>)" using assms(3)
    by (simp add: ping_def command_def ensure_def bindE_def on_redis_def w2_def)
  with w1 w2 show ?thesis by (simp add: attempt_def bindE_def w2_def)
qed

text \<open>C37: a Redis that accepts the connection but never answers \<open>PING\<close> with \<open>PONG\<close>, because it is
  still loading its data: every attempt fails, and after the thirtieth the start-up goes on
  nevertheless, since the check after the loop only asks whether the objects exist.\<close>

theorem starts_without_ping:
  assumes "\<And>m. \<exists>h m'. my_connect (sql A) m = (MyConnected h, m')"
    and "\<And>h p r. \<exists>r'. redisConnect (rds A) h p r = (ConnOk, r')" and "\<And>r. \<not> redisErr (rds A) r"
    and "redisPassword (cfg A) = []"
    and "\<And>r. \<exists>s r'. redisCommand (rds A) [''SELECT'', to_string_int (redisDb (cfg A))] r = (Some (R_STATUS s), r')"
    and "\<And>r. \<exists>e r'. redisCommand (rds A) [''PING''] r = (Some (R_ERROR e), r')"
  shows "(\<exists>w'. attempt A w = (Raise (StdException ''redis ping failed''), w')) \<and>
    (\<exists>w'. connectBackends A w = (Ret (), w') \<and> slept w' = slept w + 30)"
proof
  note fails = attempt_loading [OF assms]
  from fails [of w] show "\<exists>w'. attempt A w = (Raise (StdException ''redis ping failed''), w')" by blast
  obtain w1 where w1: "attempt A w = (Raise (StdException ''redis ping failed''), w1)" "has_mysql w1 \<and> has_redis w1"
      "slept w1 = slept w" using fails [of w] by blast
  have "\<exists>w'. retry A 29 ''redis ping failed'' (w1\<lparr>slept := Suc (slept w1)\<rparr>) =
      (Ret (if (29 :: nat) = 0 then ''redis ping failed'' else what (StdException ''redis ping failed'')), w') \<and>
      (has_mysql w' \<and> has_redis w') \<and> slept w' = slept (w1\<lparr>slept := Suc (slept w1)\<rparr>) + 29"
    by (rule retry_fails [where I = "\<lambda>w. has_mysql w \<and> has_redis w"]) (use fails w1 in auto)
  moreover have "retry A 30 [] w = retry A 29 ''redis ping failed'' (w1\<lparr>slept := Suc (slept w1)\<rparr>)"
    using w1 by (simp add: numeral_eq_Suc bindE_def catchE_def what_def del: retry.simps(1))
  ultimately show "\<exists>w'. connectBackends A w = (Ret (), w') \<and> slept w' = slept w + 30"
    using w1 by (auto simp: connectBackends_def bindE_def)
qed

section \<open>Two backends\<close>

definition ref_boot :: "(ref_redis, ref_db, ref_fs) boot" where
  "ref_boot = world.extend ref_world (boot.fields False False 0)"

definition down_env :: "(ref_redis, ref_db, ref_fs) env" where
  "down_env = ref_env\<lparr>sql := ref_mysql\<lparr>my_connect := (\<lambda>m. (MyConnFail ''refused'', m))\<rparr>\<rparr>"

definition loading_env :: "(ref_redis, ref_db, ref_fs) env" where
  "loading_env = ref_env\<lparr>rds := ref_hiredis\<lparr>redisCommand := (\<lambda>args r.
     (Some (if args = [''PING''] then R_ERROR ''LOADING'' else R_STATUS ''OK''), r))\<rparr>\<rparr>"

theorem startup_gives_up_witness:
  "\<exists>w'. connectBackends down_env ref_boot =
     (Raise (StdException (''backend not ready: mysql connect failed: '' @ ''refused'')), w') \<and> slept w' = slept ref_boot + 30"
  by (rule startup_gives_up)
     (simp_all add: down_env_def ref_env_def ref_config_def ref_boot_def world.defs boot.defs)

theorem starts_without_ping_witness:
  "(\<exists>w'. attempt loading_env ref_boot = (Raise (StdException ''redis ping failed''), w')) \<and>
   (\<exists>w'. connectBackends loading_env ref_boot = (Ret (), w') \<and> slept w' = slept ref_boot + 30)"
  by (rule starts_without_ping)
     (simp_all add: loading_env_def ref_env_def ref_config_def ref_mysql_def ref_hiredis_def)

section \<open>The end of the program\<close>

text \<open>While the constructor runs, what is not there yet holds nothing.\<close>

definition owned :: "('r, 'm, 'f) boot \<Rightarrow> bool" where
  "owned b \<longleftrightarrow> (has_mysql b \<or> idle_conns b = []) \<and> (has_redis b \<or> \<not> ctx_set b)"

lemma boot_frame: "more_frame m \<Longrightarrow> m b = (r, b') \<Longrightarrow> has_mysql b' = has_mysql b \<and> has_redis b' = has_redis b"
  using more_frameD [of m b] by (cases b; cases b') simp

lemma triple_both: "more_frame m \<Longrightarrow> triple (\<lambda>b. has_mysql b \<and> has_redis b) m (\<lambda>_. owned) owned"
  unfolding triple_def using boot_frame [of m] by (fastforce simp: owned_def split: prod.splits outcome.splits)

lemma owned_os: "os_frame m \<Longrightarrow> triple owned m (\<lambda>_. owned) owned"
proof -
  assume frame: "os_frame m"
  have "case m s of (Ret x, t) \<Rightarrow> owned t | (Raise e, t) \<Rightarrow> owned t | (Blocked, t) \<Rightarrow> True | (Undef, t) \<Rightarrow> True" if "owned s" for s
  proof -
    obtain r f where "m s = (r, s\<lparr>w_os := f\<rparr>)" using frame unfolding os_frame_def by blast
    then show ?thesis using that by (cases r) (simp_all add: owned_def)
  qed
  then show "triple owned m (\<lambda>_. owned) owned" by (simp add: triple_def)
qed

lemma fill_pool_frame:
  fixes b :: "('r, 'm, 'f) boot"
  shows "fill_pool A n b = (r, b') \<Longrightarrow> ctx_set b' = ctx_set b \<and> has_mysql b' = has_mysql b \<and> has_redis b' = has_redis b"
proof (induction n arbitrary: b)
  case (Suc n)
  obtain r1 b1 where c: "connectOne A b = (r1, b1)" by fastforce
  then have "ctx_set b1 = ctx_set b \<and> has_mysql b1 = has_mysql b \<and> has_redis b1 = has_redis b"
    by (auto simp: connectOne_def bindE_def on_mysql_run split: my_conn.splits)
  then show ?case using Suc c by (cases r1) (fastforce simp: bindE_def release_def)+
qed simp

lemma ensure_idle: "ensure A w = (r, w') \<Longrightarrow> idle_conns w' = idle_conns w"
  unfolding ensure_def
  by (auto simp: bindE_def on_redis_run split: if_splits outcome.splits redis_conn.splits option.splits redis_reply.splits prod.splits)

lemma owned_pool: "triple owned (makePool A) (\<lambda>_ b. owned b \<and> has_mysql b) owned"
proof -
  have "case makePool A b of (Ret x, t) \<Rightarrow> owned t \<and> has_mysql t | (Raise e, t) \<Rightarrow> owned t | (Blocked, t) \<Rightarrow> True | (Undef, t) \<Rightarrow> True"
    if "owned b" for b
  proof -
    obtain r b' where p: "newPool A (b\<lparr>idle_conns := [], pool_stopping := False\<rparr>) = (r, b')" by fastforce
    from fill_pool_frame [OF p [unfolded newPool_def]] p that show ?thesis
      by (cases r) (auto simp: makePool_def owned_def)
  qed
  then show ?thesis by (simp add: triple_def)
qed

lemma owned_redis: "triple (\<lambda>b. owned b \<and> has_mysql b) (makeRedis A) (\<lambda>_ b. has_mysql b \<and> has_redis b) owned"
proof -
  have "case makeRedis A b of (Ret x, t) \<Rightarrow> has_mysql t \<and> has_redis t | (Raise e, t) \<Rightarrow> owned t | (Blocked, t) \<Rightarrow> True | (Undef, t) \<Rightarrow> True"
    if "owned b \<and> has_mysql b" for b
  proof -
    obtain r b' where e: "ensure A (b\<lparr>ctx_set := False\<rparr>) = (r, b')" by fastforce
    from ensure_idle [OF this] boot_frame [OF more_frame_ensure this] e that show ?thesis
      by (cases r) (auto simp: makeRedis_def owned_def)
  qed
  then show ?thesis by (simp add: triple_def)
qed

lemma owned_attempt: "triple owned (attempt A) (\<lambda>_. owned) owned"
  unfolding attempt_def
  by (intro triple_bind [OF owned_pool] triple_bind [OF owned_redis] triple_bind [OF triple_both])
    (auto simp: ping_def intro!: more_frame_intros triple_intros)

lemma owned_retry: "triple owned (retry A n lastErr) (\<lambda>_. owned) owned"
proof (induction n arbitrary: lastErr)
  case (Suc n)
  have "triple owned (catchE (bindE (attempt A) (\<lambda>_. return None))
      (\<lambda>e. bindE (modify (\<lambda>w. w\<lparr>slept := Suc (slept w)\<rparr>)) (\<lambda>_. return (Some (what e))))) (\<lambda>_. owned) owned"
    using owned_attempt [of A] unfolding triple_def catchE_def bindE_def
    by (fastforce simp: owned_def split: prod.splits outcome.splits)
  then show ?case by (auto intro!: triple_bind [OF _ triple_case_option] triple_return Suc)
qed (auto intro: triple_return)

lemma owned_new: "triple owned (newServer A) (\<lambda>_. owned) owned"
proof -
  have ready: "triple owned (connectBackends A) (\<lambda>_ b. has_mysql b \<and> has_redis b) owned"
    unfolding connectBackends_def
    by (rule triple_bind [OF owned_retry], rule triple_bind [where R = "\<lambda>ok b. owned b \<and> (ok \<longleftrightarrow> has_mysql b \<and> has_redis b)"])
      (auto intro!: triple_gets triple_if triple_throw triple_return)
  have "triple (\<lambda>b. has_mysql b \<and> has_redis b) (ensureDefaultUsers A) (\<lambda>_. owned) owned"
    unfolding ensureDefaultUsers_def by (intro triple_both more_frame_intros)
  then show ?thesis unfolding newServer_def
    by (intro triple_bind [OF owned_os] triple_bind [OF ready] os_frame_utils)
qed

lemma dropMembers_released: "owned b \<Longrightarrow> released (snd (dropMembers A b))"
proof -
  assume o: "owned b"
  obtain b1 where b1: "freeRedis A b = (Ret (), b1)" "\<not> ctx_set b1" "idle_conns b1 = idle_conns b" using freeRedis_run by blast
  obtain b2 where b2: "destroyPool A b1 = (Ret (), b2)" "idle_conns b2 = []" "ctx_set b2 = ctx_set b1" using destroyPool_run by blast
  obtain b3 where b3: "destroyPool A b = (Ret (), b3)" "idle_conns b3 = []" "ctx_set b3 = ctx_set b" using destroyPool_run by blast
  have "more_frame (freeRedis A)" unfolding freeRedis_def
    by (intro more_frame_intros more_frame_modify) simp_all
  from boot_frame [OF this b1(1)] have "has_mysql b1 = has_mysql b" by simp
  then show ?thesis using o b1 b2 b3 by (auto simp: dropMembers_def bindE_def released_def owned_def)
qed

text \<open>However the program ends, it has given its connections to MySQL and Redis back.\<close>

theorem main_releases:
  assumes "main files mk J L evs w args = (Ret code, w')" and "released w"
  shows "released w'"
proof -
  have trunc: "released (world.truncate b) = released b" for b :: "('a, 'b, 'c) boot"
    by (simp add: released_def world.truncate_def)
  have start: "owned (world.extend w (boot.fields False False 0))"
    using assms(2) by (simp add: owned_def released_def world.defs boot.defs)
  show ?thesis
  proof (cases "parse_args ''conf/server.conf'' args")
    case (Inl c)
    then show ?thesis using assms by (simp add: main_def)
  next
    case (Inr conf)
    show ?thesis
    proof (cases "load conf (files conf)")
      case (Ret c)
      obtain r b where new: "newServer (mk c) (world.extend w (boot.fields False False 0)) = (r, b)" by fastforce
      obtain q sv where run: "run (mk c) J L evs (initial (world.truncate b)) = (q, sv)" by fastforce
      obtain sv' where "shutDown (mk c) sv = (Ret (), sv')" "released (sv_world sv')" using shutDown_run by blast
      moreover have "released (snd (dropMembers (mk c) b))" if "r = Raise e" for e
        using triple_Raise [OF owned_new start] new that dropMembers_released by blast
      ultimately show ?thesis using assms Inr Ret new run
        by (cases r; cases q) (auto simp: main_def trunc)
    qed (use assms Inr in \<open>auto simp: main_def\<close>)
  qed
qed

end
