(* ===== verification/Client.thy ===== *)
theory Client
  imports Json_Util Os_Utils Protocol
begin

text \<open>
  \<open>client/client.cpp\<close>: the client library. It shares \<open>utils.cpp\<close>, \<open>crypto_util.cpp\<close>,
  \<open>protocol.cpp\<close> and \<open>json_util.cpp\<close> with the server, so their models run here on the file-system
  part of a world whose services are not used. The socket calls, \<open>inet_pton\<close> and \<open>std::ofstream\<close>
  are parameters, as is the progress callback. What the client prints goes to \<open>cl_cout\<close>.
\<close>

section \<open>The state and the parameters\<close>

record ('r, 'm, 'f, 'n) client = "('r, 'm, 'f) world" +
  net :: 'n
  cl_fd :: int
  cl_seq :: u64
  cl_token :: string
  cl_username :: string
  cl_host :: string
  cl_port :: u16
  cl_cout :: string

text \<open>\<open>sk_send\<close> and \<open>sk_recv\<close> are \<open>send\<close> and \<open>recv\<close> on a stream socket: the result of the former
  (0 or negative when the connection is gone), the bytes the latter delivers (none then). \<open>ofs_open\<close>
  creates or truncates the file of a \<open>std::ofstream\<close>, \<open>ofs_write\<close> appends to what was written, and
  does nothing when the file could not be opened. \<open>turns\<close> bounds the turns of the download loop,
  which the answers of the server may keep running.\<close>

record ('r, 'm, 'f, 'n, 'j) cenv =
  lib :: "('r, 'm, 'f) env"
  json :: "'j jsoncpp"
  sk_socket :: "'n \<Rightarrow> int \<times> 'n"
  sk_pton :: "string \<Rightarrow> bool"
  sk_connect :: "int \<Rightarrow> string \<Rightarrow> u16 \<Rightarrow> 'n \<Rightarrow> bool \<times> 'n"
  sk_send :: "int \<Rightarrow> string \<Rightarrow> 'n \<Rightarrow> int \<times> 'n"
  sk_recv :: "int \<Rightarrow> nat \<Rightarrow> 'n \<Rightarrow> string \<times> 'n"
  sk_close :: "int \<Rightarrow> 'n \<Rightarrow> 'n"
  ofs_open :: "string \<Rightarrow> 'f \<Rightarrow> 'f"
  ofs_write :: "string \<Rightarrow> string \<Rightarrow> 'f \<Rightarrow> 'f"
  turns :: nat

type_synonym 's progress = "(u64 \<Rightarrow> u64 \<Rightarrow> string \<Rightarrow> ('s, unit) cpp) option"

definition on_net :: "('n \<Rightarrow> 'a \<times> 'n) \<Rightarrow> (('r, 'm, 'f, 'n, 'z) client_scheme, 'a) cpp" where
  "on_net g = (\<lambda>s. case g (net s) of (x, n) \<Rightarrow> (Ret x, s\<lparr>net := n\<rparr>))"

definition print :: "string \<Rightarrow> (('r, 'm, 'f, 'n, 'z) client_scheme, unit) cpp" where
  "print t = modify (\<lambda>s. s\<lparr>cl_cout := cl_cout s @ t\<rparr>)"

section \<open>The socket\<close>

definition client_close :: "('r, 'm, 'f, 'n, 'j) cenv \<Rightarrow> (('r, 'm, 'f, 'n, 'z) client_scheme, unit) cpp" where
  "client_close E = bindE (gets cl_fd) (\<lambda>fd.
     if fd \<ge> 0 then bindE (on_net (\<lambda>n. ((), sk_close E fd n))) (\<lambda>_. modify (\<lambda>s. s\<lparr>cl_fd := -1\<rparr>))
     else return ())"

definition reportProgress :: "'s progress \<Rightarrow> u64 \<Rightarrow> u64 \<Rightarrow> string \<Rightarrow> ('s, unit) cpp" where
  "reportProgress P current whole phase = (case P of None \<Rightarrow> return () | Some f \<Rightarrow> f current whole phase)"

text \<open>The loops over \<open>send\<close> and \<open>recv\<close>: a call never reports more bytes than it was given room for.\<close>

function (sequential) writeAll :: "('r, 'm, 'f, 'n, 'j) cenv \<Rightarrow> string \<Rightarrow> (('r, 'm, 'f, 'n, 'z) client_scheme, unit) cpp" where
  "writeAll E data = (\<lambda>s.
     if data = [] then (Ret (), s)
     else (case sk_send E (cl_fd s) data (net s) of (n, w) \<Rightarrow>
       if n \<le> 0 then (Raise (StdException ''connection closed while sending''), s\<lparr>net := w\<rparr>)
       else if nat n > length data then (Undef, s\<lparr>net := w\<rparr>)
       else writeAll E (drop (nat n) data) (s\<lparr>net := w\<rparr>)))"
  by pat_completeness auto
termination
  by (relation "measure (\<lambda>(E, data). length data)") auto

function (sequential) readAll :: "('r, 'm, 'f, 'n, 'j) cenv \<Rightarrow> nat \<Rightarrow> (('r, 'm, 'f, 'n, 'z) client_scheme, string) cpp" where
  "readAll E len = (\<lambda>s.
     if len = 0 then (Ret [], s)
     else (case sk_recv E (cl_fd s) len (net s) of (bytes, w) \<Rightarrow>
       if bytes = [] then (Raise (StdException ''connection closed while receiving''), s\<lparr>net := w\<rparr>)
       else if length bytes > len then (Undef, s\<lparr>net := w\<rparr>)
       else bindE (readAll E (len - length bytes)) (\<lambda>more. return (bytes @ more)) (s\<lparr>net := w\<rparr>)))"
  by pat_completeness auto
termination
  by (relation "measure (\<lambda>(E, len). len)") auto

declare writeAll.simps [simp del] readAll.simps [simp del]

definition connectTo :: "('r, 'm, 'f, 'n, 'j) cenv \<Rightarrow> string \<Rightarrow> u16 \<Rightarrow> (('r, 'm, 'f, 'n, 'z) client_scheme, unit) cpp" where
  "connectTo E host port =
     bindE (client_close E) (\<lambda>_.
     bindE (on_net (sk_socket E)) (\<lambda>fd.
     bindE (modify (\<lambda>s. s\<lparr>cl_fd := fd\<rparr>)) (\<lambda>_.
     if fd < 0 then throw (StdException ''socket failed'')
     else if \<not> sk_pton E (c_str host) then
       bindE (on_net (\<lambda>n. ((), sk_close E fd n))) (\<lambda>_.
       bindE (modify (\<lambda>s. s\<lparr>cl_fd := -1\<rparr>)) (\<lambda>_.
       throw (StdException (''invalid host ip (use IPv4): '' @ host))))
     else
       bindE (on_net (sk_connect E fd (c_str host) port)) (\<lambda>ok.
       if \<not> ok then
         bindE (on_net (\<lambda>n. ((), sk_close E fd n))) (\<lambda>_.
         bindE (modify (\<lambda>s. s\<lparr>cl_fd := -1\<rparr>)) (\<lambda>_.
         throw (StdException (''connect failed: '' @ host @ '':'' @ to_string_nat (unat port)))))
       else modify (\<lambda>s. s\<lparr>cl_host := host, cl_port := port, cl_token := [], cl_username := []\<rparr>)))))"

section \<open>Frames\<close>

definition sendFrame :: "('r, 'm, 'f, 'n, 'j) cenv \<Rightarrow> frame_type \<Rightarrow> string \<Rightarrow> (('r, 'm, 'f, 'n, 'z) client_scheme, unit) cpp" where
  "sendFrame E type payload = bindE (liftS (encode type payload 0)) (writeAll E)"

definition recvFrame :: "('r, 'm, 'f, 'n, 'j) cenv \<Rightarrow> (('r, 'm, 'f, 'n, 'z) client_scheme, frame) cpp" where
  "recvFrame E =
     bindE (readAll E kHeaderSize) (\<lambda>hdr.
     case parseHeader (map byte_of hdr) of
       None \<Rightarrow> throw (StdException ''bad server frame'')
     | Some (ver, type, flags, len) \<Rightarrow>
         bindE (readAll E (unat len)) (\<lambda>payload.
         return \<lparr>f_type = type, f_flags = flags, f_payload = payload\<rparr>))"

definition recvJson :: "('r, 'm, 'f, 'n, 'j) cenv \<Rightarrow> (('r, 'm, 'f, 'n, 'z) client_scheme, 'j) cpp" where
  "recvJson E =
     bindE (recvFrame E) (\<lambda>f.
     if f_type f \<noteq> FT_Json then throw (StdException ''expected json reply'')
     else (case parseJson (json E) (f_payload f) of (ok, v, err) \<Rightarrow>
       if \<not> ok then throw (StdException ''bad json reply'') else return v))"

definition client_sendChunk :: "('r, 'm, 'f, 'n, 'j) cenv \<Rightarrow> string \<Rightarrow> u64 \<Rightarrow> string \<Rightarrow> (('r, 'm, 'f, 'n, 'z) client_scheme, unit) cpp" where
  "client_sendChunk E fileId offset data = bindE (liftS (encodeChunk fileId offset data)) (writeAll E)"

section \<open>Requests\<close>

definition request :: "('r, 'm, 'f, 'n, 'j) cenv \<Rightarrow> string \<Rightarrow> 'j \<Rightarrow> (('r, 'm, 'f, 'n, 'z) client_scheme, 'j) cpp" where
  "request E cmd data =
     bindE (modify (\<lambda>s. s\<lparr>cl_seq := cl_seq s + 1\<rparr>)) (\<lambda>_.
     bindE (gets cl_seq) (\<lambda>seq.
     bindE (gets cl_token) (\<lambda>token.
     let J = json E;
         root = assign J (j_null J) ([(''cmd'', j_str J cmd), (''seq'', j_UInt64 J seq)] @
           (if token \<noteq> [] then [(''token'', j_str J token)] else []) @ [(''data'', data)])
     in
       bindE (sendFrame E FT_Json (dumpJson J root)) (\<lambda>_.
       bindE (recvJson E) (\<lambda>reply.
       bindE (liftS (get_as J (j_asInt J) reply ''code'' (j_Int J 500))) (\<lambda>code.
       if code \<noteq> 0 then
         bindE (liftS (get_string J reply ''msg'' ''error'')) (\<lambda>msg.
         throw (StdException (cmd @ '' failed: '' @ msg)))
       else return reply))))))"

text \<open>\<open>r["data"]\<close>, and a member of it.\<close>

definition data_of :: "'j jsoncpp \<Rightarrow> 'j \<Rightarrow> exn + 'j" where
  "data_of J r = j_at J r ''data''"

definition data_at :: "'j jsoncpp \<Rightarrow> ('j \<Rightarrow> exn + 'a) \<Rightarrow> 'j \<Rightarrow> string \<Rightarrow> exn + 'a" where
  "data_at J as r key = (case j_at J r ''data'' of Inl e \<Rightarrow> Inl e
     | Inr d \<Rightarrow> (case j_at J d key of Inl e \<Rightarrow> Inl e | Inr x \<Rightarrow> as x))"

definition data_get :: "'j jsoncpp \<Rightarrow> ('j \<Rightarrow> exn + 'a) \<Rightarrow> 'j \<Rightarrow> string \<Rightarrow> 'j \<Rightarrow> exn + 'a" where
  "data_get J as r key def = (case j_at J r ''data'' of Inl e \<Rightarrow> Inl e | Inr d \<Rightarrow> get_as J as d key def)"

definition credentials :: "'j jsoncpp \<Rightarrow> string \<Rightarrow> string \<Rightarrow> 'j" where
  "credentials J user pass = assign J (j_null J) [(''username'', j_str J user), (''password'', j_str J pass)]"

definition client_login :: "('r, 'm, 'f, 'n, 'j) cenv \<Rightarrow> string \<Rightarrow> string \<Rightarrow> (('r, 'm, 'f, 'n, 'z) client_scheme, 'j) cpp" where
  "client_login E user pass =
     bindE (request E ''login'' (credentials (json E) user pass)) (\<lambda>r.
     bindE (liftS (data_at (json E) (j_asString (json E)) r ''token'')) (\<lambda>token.
     bindE (modify (\<lambda>s. s\<lparr>cl_token := token\<rparr>)) (\<lambda>_.
     bindE (liftS (data_at (json E) (j_asString (json E)) r ''username'')) (\<lambda>name.
     bindE (modify (\<lambda>s. s\<lparr>cl_username := name\<rparr>)) (\<lambda>_.
     liftS (data_of (json E) r))))))"

text \<open>A request whose \<open>data\<close> is the result.\<close>

definition request_data :: "('r, 'm, 'f, 'n, 'j) cenv \<Rightarrow> string \<Rightarrow> (string \<times> 'j) list \<Rightarrow> (('r, 'm, 'f, 'n, 'z) client_scheme, 'j) cpp" where
  "request_data E cmd members =
     bindE (request E cmd (assign (json E) (j_null (json E)) members)) (\<lambda>r. liftS (data_of (json E) r))"

definition signup :: "('r, 'm, 'f, 'n, 'j) cenv \<Rightarrow> string \<Rightarrow> string \<Rightarrow> (('r, 'm, 'f, 'n, 'z) client_scheme, 'j) cpp" where
  "signup E user pass = request_data E ''register'' [(''username'', j_str (json E) user), (''password'', j_str (json E) pass)]"

definition client_logout :: "('r, 'm, 'f, 'n, 'j) cenv \<Rightarrow> (('r, 'm, 'f, 'n, 'z) client_scheme, unit) cpp" where
  "client_logout E =
     bindE (gets cl_token) (\<lambda>token.
     bindE (if token \<noteq> [] then bindE (request E ''logout'' (j_null (json E))) (\<lambda>_. return ()) else return ()) (\<lambda>_.
     modify (\<lambda>s. s\<lparr>cl_token := [], cl_username := []\<rparr>)))"

definition listEntries :: "('r, 'm, 'f, 'n, 'j) cenv \<Rightarrow> string \<Rightarrow> bool \<Rightarrow> (('r, 'm, 'f, 'n, 'z) client_scheme, 'j) cpp" where
  "listEntries E path recursive =
     request_data E ''ls'' [(''path'', j_str (json E) path), (''recursive'', j_bool (json E) recursive)]"

definition client_makeDir :: "('r, 'm, 'f, 'n, 'j) cenv \<Rightarrow> string \<Rightarrow> (('r, 'm, 'f, 'n, 'z) client_scheme, 'j) cpp" where
  "client_makeDir E path = request_data E ''mkdir'' [(''path'', j_str (json E) path)]"

definition client_removePath :: "('r, 'm, 'f, 'n, 'j) cenv \<Rightarrow> string \<Rightarrow> (('r, 'm, 'f, 'n, 'z) client_scheme, 'j) cpp" where
  "client_removePath E path = request_data E ''rm'' [(''path'', j_str (json E) path)]"

definition client_statPath :: "('r, 'm, 'f, 'n, 'j) cenv \<Rightarrow> string \<Rightarrow> (('r, 'm, 'f, 'n, 'z) client_scheme, 'j) cpp" where
  "client_statPath E path = request_data E ''stat'' [(''path'', j_str (json E) path)]"

definition client_renamePath :: "('r, 'm, 'f, 'n, 'j) cenv \<Rightarrow> string \<Rightarrow> string \<Rightarrow> (('r, 'm, 'f, 'n, 'z) client_scheme, 'j) cpp" where
  "client_renamePath E source dest = request_data E ''rename'' [(''from'', j_str (json E) source), (''to'', j_str (json E) dest)]"

section \<open>Uploading\<close>

text \<open>The loop that sends what is left of the file, \<open>rest\<close>, from position \<open>sent\<close> on.\<close>

function (sequential) upload_loop :: "('r, 'm, 'f, 'n, 'j) cenv \<Rightarrow> ('r, 'm, 'f, 'n, 'z) client_scheme progress \<Rightarrow> string \<Rightarrow> u32 \<Rightarrow> u64 \<Rightarrow>
    u64 \<Rightarrow> string \<Rightarrow> (('r, 'm, 'f, 'n, 'z) client_scheme, unit) cpp" where
  "upload_loop E P fileId chunk fsize sent rest =
     (if sent < fsize then
        let want = min (ucast chunk) (fsize - sent);
            piece = take (unat want) rest;
            sent' = sent + of_nat (length piece)
        in
          if piece = [] then return ()
          else
            bindE (client_sendChunk E fileId sent piece) (\<lambda>_.
            bindE (reportProgress P sent' fsize ''uploading'') (\<lambda>_.
            upload_loop E P fileId chunk fsize sent' (drop (length piece) rest)))
      else return ())"
  by pat_completeness auto
termination
  by (relation "measure (\<lambda>(E, P, fileId, chunk, fsize, sent, rest). length rest)") auto

declare upload_loop.simps [simp del]

text \<open>The answer when the server has the content: the proof of possession and \<open>instant_upload\<close>.\<close>

definition put_instant :: "('r, 'm, 'f, 'n, 'j) cenv \<Rightarrow> ('r, 'm, 'f, 'n, 'z) client_scheme progress \<Rightarrow> 'j \<Rightarrow> string \<Rightarrow> string \<Rightarrow> string \<Rightarrow>
    u64 \<Rightarrow> bool \<Rightarrow> (('r, 'm, 'f, 'n, 'z) client_scheme, 'j) cpp" where
  "put_instant E P qr localPath remotePath md5 fsize overwrite =
     (let J = json E in
      bindE (liftS (data_at J (j_asUInt64 J) qr ''challenge_offset'')) (\<lambda>off.
      bindE (liftS (data_at J (j_asUInt J) qr ''challenge_len'')) (\<lambda>len.
      bindE (if len = 0 then return md5 else md5FileRange (lib E) localPath off len) (\<lambda>prf.
      bindE (request E ''instant_upload'' (assign J (j_null J) [(''path'', j_str J remotePath), (''md5'', j_str J md5),
               (''size'', j_UInt64 J fsize), (''challenge_offset'', j_UInt64 J off), (''proof_md5'', j_str J prf),
               (''overwrite'', j_bool J overwrite)])) (\<lambda>ir.
      bindE (reportProgress P fsize fsize ''instant'') (\<lambda>_.
      bindE (liftS (data_of J ir)) (\<lambda>detail.
      return (assign J (j_null J) [(''mode'', j_str J ''instant''), (''md5'', j_str J md5), (''size'', j_UInt64 J fsize),
        (''detail'', detail)]))))))))"

definition put_full :: "('r, 'm, 'f, 'n, 'j) cenv \<Rightarrow> ('r, 'm, 'f, 'n, 'z) client_scheme progress \<Rightarrow> string \<Rightarrow> string \<Rightarrow> string \<Rightarrow>
    u64 \<Rightarrow> (('r, 'm, 'f, 'n, 'z) client_scheme, 'j) cpp" where
  "put_full E P localPath remotePath md5 fsize =
     (let J = json E in
      bindE (request E ''upload_begin'' (assign J (j_null J) [(''path'', j_str J remotePath), (''md5'', j_str J md5),
               (''size'', j_UInt64 J fsize)])) (\<lambda>br.
      bindE (liftS (data_at J (j_asString J) br ''file_id'')) (\<lambda>fileId.
      bindE (liftS (data_at J (j_asUInt64 J) br ''offset'')) (\<lambda>offset.
      bindE (liftS (data_get J (j_asUInt J) br ''chunk_size'' (j_Int J 65536))) (\<lambda>chunk.
      bindE (gets (\<lambda>s. case ifs_bytes (os (lib E)) (c_str localPath) (w_os s) of
                         None \<Rightarrow> [] | Some bytes \<Rightarrow> drop (unat offset) bytes)) (\<lambda>rest.
      bindE (upload_loop E P fileId chunk fsize offset rest) (\<lambda>_.
      bindE (request E ''upload_end'' (j_null J)) (\<lambda>_.
      bindE (reportProgress P fsize fsize ''done'') (\<lambda>_.
      return (assign J (j_null J) [(''mode'', j_str J ''upload''), (''md5'', j_str J md5), (''size'', j_UInt64 J fsize)]))))))))))"

definition client_put :: "('r, 'm, 'f, 'n, 'j) cenv \<Rightarrow> ('r, 'm, 'f, 'n, 'z) client_scheme progress \<Rightarrow> string \<Rightarrow> string \<Rightarrow> bool \<Rightarrow>
    (('r, 'm, 'f, 'n, 'z) client_scheme, 'j) cpp" where
  "client_put E P localPath remotePath overwrite =
     bindE (fileExists (lib E) localPath) (\<lambda>there.
     if \<not> there then throw (StdException (''local file not found: '' @ localPath))
     else
       bindE (fileSize (lib E) localPath) (\<lambda>fsize.
       bindE (reportProgress P 0 fsize ''hashing'') (\<lambda>_.
       bindE (md5File (lib E) localPath) (\<lambda>md5.
       bindE (request E ''instant_query'' (assign (json E) (j_null (json E))
                [(''md5'', j_str (json E) md5), (''size'', j_UInt64 (json E) fsize)])) (\<lambda>qr.
       bindE (liftS (data_get (json E) (j_asBool (json E)) qr ''hit'' (j_bool (json E) False))) (\<lambda>hit.
       if hit then put_instant E P qr localPath remotePath md5 fsize overwrite
       else put_full E P localPath remotePath md5 fsize))))))"

section \<open>Downloading\<close>

text \<open>One turn asks for the bytes from \<open>got\<close> on; a JSON answer is an error, the end, or ignored.\<close>

fun download_loop :: "('r, 'm, 'f, 'n, 'j) cenv \<Rightarrow> ('r, 'm, 'f, 'n, 'z) client_scheme progress \<Rightarrow> nat \<Rightarrow> string \<Rightarrow> u32 \<Rightarrow> string \<Rightarrow> u64 \<Rightarrow>
    u64 \<Rightarrow> (('r, 'm, 'f, 'n, 'z) client_scheme, u64) cpp" where
  "download_loop E P 0 fileId chunk localPath fsize got = blocked"
| "download_loop E P (Suc n) fileId chunk localPath fsize got =
     (if got < fsize then
        let J = json E in
        bindE (modify (\<lambda>s. s\<lparr>cl_seq := cl_seq s + 1\<rparr>)) (\<lambda>_.
        bindE (gets cl_seq) (\<lambda>seq.
        bindE (gets cl_token) (\<lambda>token.
        bindE (sendFrame E FT_Json (dumpJson J (assign J (j_null J) [(''cmd'', j_str J ''download_chunk''),
                 (''seq'', j_UInt64 J seq), (''token'', j_str J token),
                 (''data'', assign J (j_null J) [(''file_id'', j_str J fileId), (''offset'', j_UInt64 J got),
                    (''length'', j_UInt J chunk)])]))) (\<lambda>_.
        bindE (recvFrame E) (\<lambda>f.
        if f_type f = FT_Json then
          (case parseJson J (f_payload f) of (ok, v, err) \<Rightarrow>
             bindE (liftS (get_as J (j_asInt J) v ''code'' (j_Int J 1))) (\<lambda>code.
             if code \<noteq> 0 then
               bindE (liftS (get_string J v ''msg'' ''download failed'')) (\<lambda>msg. throw (StdException msg))
             else
               bindE (liftS (data_get J (j_asBool J) v ''eof'' (j_bool J False))) (\<lambda>eof.
               if eof then return got
               else download_loop E P n fileId chunk localPath fsize got)))
        else
          (case decodeChunk (f_payload f) of
             None \<Rightarrow> throw (StdException ''bad download chunk'')
           | Some cp \<Rightarrow>
               bindE (modify (\<lambda>s. s\<lparr>w_os := ofs_write E (c_str localPath) (c_data cp) (w_os s)\<rparr>)) (\<lambda>_.
               let got' = got + of_nat (length (c_data cp)) in
               bindE (reportProgress P got' fsize ''downloading'') (\<lambda>_.
               download_loop E P n fileId chunk localPath fsize got'))))))))
      else return got)"

definition client_get :: "('r, 'm, 'f, 'n, 'j) cenv \<Rightarrow> ('r, 'm, 'f, 'n, 'z) client_scheme progress \<Rightarrow> string \<Rightarrow> string \<Rightarrow>
    (('r, 'm, 'f, 'n, 'z) client_scheme, 'j) cpp" where
  "client_get E P remotePath localPath =
     (let J = json E in
      bindE (request E ''download_begin'' (assign J (j_null J) [(''path'', j_str J remotePath)])) (\<lambda>br.
      bindE (liftS (data_at J (j_asString J) br ''file_id'')) (\<lambda>fileId.
      bindE (liftS (data_at J (j_asUInt64 J) br ''size'')) (\<lambda>fsize.
      bindE (liftS (data_get J (j_asUInt J) br ''chunk_size'' (j_Int J 65536))) (\<lambda>chunk.
      bindE (ensureDir (lib E) (parentDir localPath)) (\<lambda>_.
      bindE (modify (\<lambda>s. s\<lparr>w_os := ofs_open E (c_str localPath) (w_os s)\<rparr>)) (\<lambda>_.
      bindE (download_loop E P (turns E) fileId chunk localPath fsize 0) (\<lambda>got.
      return (assign J (j_null J) [(''path'', j_str J remotePath), (''local'', j_str J localPath),
        (''size'', j_UInt64 J got)])))))))))"

section \<open>Printing\<close>

definition nl :: string where "nl = [CHR 0x0A]"
definition tab :: string where "tab = [CHR 0x09]"

definition print_entry :: "'j jsoncpp \<Rightarrow> 'j \<Rightarrow> (('r, 'm, 'f, 'n, 'z) client_scheme, unit) cpp" where
  "print_entry J e =
     bindE (liftS (get_string J e ''type'' [])) (\<lambda>type.
     bindE (print (''  '' @ type @ tab)) (\<lambda>_.
     bindE (liftS (get_u64 J e ''size'')) (\<lambda>n.
     bindE (print (to_string_nat (unat n) @ tab)) (\<lambda>_.
     bindE (liftS (get_string J e ''status'' [])) (\<lambda>status.
     bindE (print (status @ tab)) (\<lambda>_.
     bindE (liftS (j_get J e ''name'' (j_str J []))) (\<lambda>name.
     bindE (liftS (get_as J (j_asString J) e ''path'' name)) (\<lambda>path.
     print (path @ nl)))))))))"

definition ls :: "('r, 'm, 'f, 'n, 'j) cenv \<Rightarrow> string \<Rightarrow> bool \<Rightarrow> (('r, 'm, 'f, 'n, 'z) client_scheme, unit) cpp" where
  "ls E path recursive =
     bindE (listEntries E path recursive) (\<lambda>d.
     bindE (print ''path: '') (\<lambda>_.
     bindE (liftS (j_at (json E) d ''path'')) (\<lambda>v.
     bindE (liftS (j_asString (json E) v)) (\<lambda>p.
     bindE (print (p @ nl)) (\<lambda>_.
     bindE (liftS (j_at (json E) d ''entries'')) (\<lambda>es.
     forE (j_elems (json E) es) (print_entry (json E))))))))"

definition client_mkdir :: "('r, 'm, 'f, 'n, 'j) cenv \<Rightarrow> string \<Rightarrow> (('r, 'm, 'f, 'n, 'z) client_scheme, unit) cpp" where
  "client_mkdir E path = bindE (client_makeDir E path) (\<lambda>_. print (''mkdir ok'' @ nl))"

definition rm :: "('r, 'm, 'f, 'n, 'j) cenv \<Rightarrow> string \<Rightarrow> (('r, 'm, 'f, 'n, 'z) client_scheme, unit) cpp" where
  "rm E path = bindE (client_removePath E path) (\<lambda>_. print (''rm ok'' @ nl))"

definition client_stat :: "('r, 'm, 'f, 'n, 'j) cenv \<Rightarrow> string \<Rightarrow> (('r, 'm, 'f, 'n, 'z) client_scheme, unit) cpp" where
  "client_stat E path = bindE (client_statPath E path) (\<lambda>v. print (dumpJson (json E) v @ nl))"

definition client_rename :: "('r, 'm, 'f, 'n, 'j) cenv \<Rightarrow> string \<Rightarrow> string \<Rightarrow> (('r, 'm, 'f, 'n, 'z) client_scheme, unit) cpp" where
  "client_rename E source dest = bindE (client_renamePath E source dest) (\<lambda>_. print (''rename ok'' @ nl))"

end
