(* ===== verification/Client_Facts.thy ===== *)
theory Client_Facts
  imports Client Connection_Properties
begin

text \<open>
  The client's frames over its socket: what the loops over \<open>send\<close> and \<open>recv\<close> do when the calls make
  progress, stated as two interfaces of the socket (\<open>out_stream\<close>, \<open>in_stream\<close>), and the model's own
  server as the peer of the connection, which provides both.
\<close>

section \<open>The socket as a stream\<close>

lemma header_size_pos: "0 < kHeaderSize"
  by (simp add: kHeaderSize_def)

text \<open>The chunks an upload sends: they follow one another from position \<open>pos\<close> on.\<close>

fun consecutive :: "u64 \<Rightarrow> (u64 \<times> string) list \<Rightarrow> bool" where
  "consecutive pos [] = True"
| "consecutive pos ((off, d) # cs) = (off = pos \<and> consecutive (pos + of_nat (length d)) cs)"

definition chunk_frame :: "string \<Rightarrow> u64 \<times> string \<Rightarrow> frame" where
  "chunk_frame fileId c = \<lparr>f_type = FT_Chunk, f_flags = 0, f_payload = fileId @ map chr_of (writeU64Be (fst c)) @ snd c\<rparr>"

lemma chunk_encoded:
  assumes "length fileId = 32" and "length d + 40 \<le> kMaxFrameSize"
  shows "\<exists>raw. encodeChunk fileId off d = Inr raw \<and>
    encode (f_type (chunk_frame fileId (off, d))) (f_payload (chunk_frame fileId (off, d))) (f_flags (chunk_frame fileId (off, d))) = Inr raw"
  using assms by (auto simp: chunk_frame_def encodeChunk_payload encode_def be64.length_enc)

text \<open>The position and what is left after one chunk, at the width of the counters.\<close>

lemma upload_step:
  fixes sent fsize :: u64 and chunk :: u32
  assumes "sent < fsize" and "0 < chunk"
  defines "k \<equiv> unat (min (ucast chunk) (fsize - sent))"
  shows "0 < k" and "k \<le> unat chunk" and "k \<le> unat (fsize - sent)" and "sent + of_nat k \<le> fsize"
    and "unat (fsize - (sent + of_nat k)) = unat (fsize - sent) - k"
proof -
  have min: "unat (min a b) = min (unat a) (unat b)" for a b :: u64
    by (auto simp: min_def word_le_nat_alt)
  have "unat chunk < 2 ^ 32" "unat fsize < 2 ^ 64" using unsigned_less [of chunk] unsigned_less [of fsize] by simp_all
  then have up: "unat (ucast chunk :: u64) = unat chunk"
    by (simp add: unsigned_ucast_eq take_bit_nat_eq_self)
  have d: "unat (fsize - sent) = unat fsize - unat sent" "unat sent < unat fsize"
    using assms(1) by (simp_all add: unat_sub word_less_nat_alt less_imp_le)
  have c: "0 < unat chunk" using assms(2) by (simp add: word_less_nat_alt)
  have k: "k = min (unat chunk) (unat fsize - unat sent)" by (simp add: k_def min up d)
  then show "0 < k" "k \<le> unat chunk" "k \<le> unat (fsize - sent)" using c d by auto
  have "unat sent + k \<le> unat fsize" "unat fsize < 2 ^ 64" using k d \<open>unat fsize < 2 ^ 64\<close> by auto
  then have s: "unat (sent + of_nat k) = unat sent + k"
    by (simp add: unat_word_ariths unat_of_nat)
  with k d show le: "sent + of_nat k \<le> fsize" by (simp add: word_le_nat_alt)
  with s d show "unat (fsize - (sent + of_nat k)) = unat (fsize - sent) - k" by (simp add: unat_sub)
qed

locale out_stream =
  fixes E :: "('r, 'm, 'f, 'n, 'j) cenv" and wire :: "'n \<Rightarrow> string" and kept :: "'n \<Rightarrow> 'x"
  assumes send_progress: "data \<noteq> [] \<Longrightarrow> \<exists>k n'. sk_send E fd data n = (int k, n') \<and> 0 < k \<and> k \<le> length data \<and>
      wire n' = wire n @ take k data \<and> kept n' = kept n"
begin

lemma writeAll_run: "\<exists>n'. writeAll E data s = (Ret (), s\<lparr>net := n'\<rparr>) \<and> wire n' = wire (net s) @ data \<and> kept n' = kept (net s)"
proof (induction data arbitrary: s rule: length_induct)
  case (1 data)
  show ?case
  proof (cases "data = []")
    case True
    then show ?thesis by (intro exI [of _ "net s"]) (simp add: writeAll.simps)
  next
    case False
    then obtain k n where k: "sk_send E (cl_fd s) data (net s) = (int k, n)" "0 < k" "k \<le> length data"
        "wire n = wire (net s) @ take k data" "kept n = kept (net s)"
      using send_progress [of data "cl_fd s" "net s"] by blast
    from k(2,3) have "length (drop k data) < length data" by simp
    then obtain n' where "writeAll E (drop k data) (s\<lparr>net := n\<rparr>) = (Ret (), s\<lparr>net := n'\<rparr>)"
        "wire n' = wire n @ drop k data" "kept n' = kept n"
      using 1 [rule_format, of "drop k data" "s\<lparr>net := n\<rparr>"] by auto
    with k False show ?thesis by (auto simp: writeAll.simps [of E data])
  qed
qed

lemma sendFrame_run:
  "encode t p 0 = Inr raw \<Longrightarrow> \<exists>n'. sendFrame E t p s = (Ret (), s\<lparr>net := n'\<rparr>) \<and> wire n' = wire (net s) @ raw \<and> kept n' = kept (net s)"
  using writeAll_run [of raw s] by (simp add: sendFrame_def bindE_def)

lemma sendChunk_run:
  "encodeChunk fileId off data = Inr raw \<Longrightarrow>
   \<exists>n'. client_sendChunk E fileId off data s = (Ret (), s\<lparr>net := n'\<rparr>) \<and> wire n' = wire (net s) @ raw \<and> kept n' = kept (net s)"
  using writeAll_run [of raw s] by (simp add: client_sendChunk_def bindE_def)

text \<open>The upload loop sends the rest of the file as consecutive chunks.\<close>

lemma upload_loop_run:
  assumes "length fileId = 32" and "0 < chunk" and "unat chunk + 40 \<le> kMaxFrameSize"
  shows "sent \<le> fsize \<Longrightarrow> length rest = unat (fsize - sent) \<Longrightarrow>
    \<exists>cs ss n'. upload_loop E None fileId chunk fsize sent rest s = (Ret (), s\<lparr>net := n'\<rparr>) \<and>
      wire n' = wire (net s) @ concat ss \<and> kept n' = kept (net s) \<and>
      list_all2 (\<lambda>fr s. encode (f_type fr) (f_payload fr) (f_flags fr) = Inr s) (map (chunk_frame fileId) cs) ss \<and>
      consecutive sent cs \<and> concat (map snd cs) = rest"
proof (induction rest arbitrary: sent s rule: length_induct)
  case (1 rest)
  show ?case
  proof (cases "sent < fsize")
    case False
    with 1(2,3) show ?thesis
      by (intro exI [of _ "[]"] exI [of _ "net s"]) (simp add: upload_loop.simps)
  next
    case True
    let ?want = "min (ucast chunk) (fsize - sent)" let ?d = "take (unat ?want) rest"
    let ?sent = "sent + of_nat (length ?d)"
    have w: "0 < unat ?want" "unat ?want \<le> unat chunk" "unat ?want \<le> length rest"
      using upload_step [OF True assms(2)] 1(3) by simp_all
    then have d: "length ?d = unat ?want" "?d \<noteq> []" by auto
    obtain raw where raw: "encodeChunk fileId sent ?d = Inr raw"
      "encode (f_type (chunk_frame fileId (sent, ?d))) (f_payload (chunk_frame fileId (sent, ?d))) (f_flags (chunk_frame fileId (sent, ?d))) = Inr raw"
      using chunk_encoded [of fileId ?d sent] assms d(1) w(2) by auto
    obtain n1 where n1: "client_sendChunk E fileId sent ?d s = (Ret (), s\<lparr>net := n1\<rparr>)" "wire n1 = wire (net s) @ raw"
        "kept n1 = kept (net s)"
      using sendChunk_run [OF raw(1)] by blast
    have more: "?sent \<le> fsize" "length (drop (length ?d) rest) = unat (fsize - ?sent)"
      using upload_step(4,5) [OF True assms(2)] 1(3) w(3) by (simp_all add: min_absorb2)
    have "length (drop (length ?d) rest) < length rest" using d w by simp
    then obtain cs ss n2 where n2: "upload_loop E None fileId chunk fsize ?sent (drop (length ?d) rest) (s\<lparr>net := n1\<rparr>) = (Ret (), s\<lparr>net := n2\<rparr>)"
      "wire n2 = wire n1 @ concat ss" "kept n2 = kept n1"
      "list_all2 (\<lambda>fr s. encode (f_type fr) (f_payload fr) (f_flags fr) = Inr s) (map (chunk_frame fileId) cs) ss"
      "consecutive ?sent cs" "concat (map snd cs) = drop (length ?d) rest"
      using 1(1) [rule_format, of "drop (length ?d) rest" ?sent "s\<lparr>net := n1\<rparr>", OF _ more] by auto
    have "upload_loop E None fileId chunk fsize sent rest s = (Ret (), s\<lparr>net := n2\<rparr>)"
      using True d(2) n1(1) n2(1)
      by (subst upload_loop.simps) (simp add: Let_def bindE_def reportProgress_def del: take_eq_Nil)
    moreover have "?d @ drop (length ?d) rest = rest" by (simp only: d(1) append_take_drop_id)
    ultimately show ?thesis using n1 n2 raw(2)
      by (intro exI [of _ "(sent, ?d) # cs"] exI [of _ "raw # ss"] exI [of _ n2]) (auto simp: d(1))
  qed
qed

end

locale in_stream =
  fixes E :: "('r, 'm, 'f, 'n, 'j) cenv" and pending :: "'n \<Rightarrow> string" and other :: "'n \<Rightarrow> 'x"
    and settled :: "'n \<Rightarrow> bool"
  assumes recv_progress: "0 < len \<Longrightarrow> pending n \<noteq> [] \<Longrightarrow> \<exists>bs n'. sk_recv E fd len n = (bs, n') \<and> bs \<noteq> [] \<and>
      length bs \<le> len \<and> pending n = bs @ pending n' \<and> other n' = other n \<and> settled n'"
begin

lemma readAll_run:
  "len \<le> length (pending (net s)) \<Longrightarrow> \<exists>n'. readAll E len s = (Ret (take len (pending (net s))), s\<lparr>net := n'\<rparr>) \<and>
     pending n' = drop len (pending (net s)) \<and> other n' = other (net s) \<and> (0 < len \<or> settled (net s) \<longrightarrow> settled n')"
proof (induction len arbitrary: s rule: less_induct)
  case (less len)
  show ?case
  proof (cases "len = 0")
    case True
    then show ?thesis by (intro exI [of _ "net s"]) (simp add: readAll.simps)
  next
    case False
    then obtain bs n where bs: "sk_recv E (cl_fd s) len (net s) = (bs, n)" "bs \<noteq> []" "length bs \<le> len"
        "pending (net s) = bs @ pending n" "other n = other (net s)" "settled n"
      using recv_progress [of len "net s" "cl_fd s"] less.prems by fastforce
    have "len - length bs < len" "len - length bs \<le> length (pending n)" using bs(2,3) less.prems False by (simp_all add: bs(4))
    then obtain n' where "readAll E (len - length bs) (s\<lparr>net := n\<rparr>) =
        (Ret (take (len - length bs) (pending n)), s\<lparr>net := n'\<rparr>)" "pending n' = drop (len - length bs) (pending n)"
        "other n' = other n" "settled n'"
      using less.IH [of "len - length bs" "s\<lparr>net := n\<rparr>"] bs(6) by auto
    with bs False show ?thesis by (auto simp: readAll.simps [of E len] bindE_def)
  qed
qed

text \<open>A frame is read whole, whatever the pieces it arrives in, and nothing beyond it.\<close>

lemma recvFrame_run:
  assumes "encode t p 0 = Inr raw" and "pending (net s) = raw @ rest"
  shows "\<exists>n'. recvFrame E s = (Ret \<lparr>f_type = t, f_flags = 0, f_payload = p\<rparr>, s\<lparr>net := n'\<rparr>) \<and>
    pending n' = rest \<and> other n' = other (net s) \<and> settled n'"
proof -
  have raw: "raw = map chr_of (header_bytes t (length p) 0) @ p" and len: "length p \<le> kMaxFrameSize"
    using encode_header [OF assms(1)] assms(1) by (simp_all add: encode_Inr)
  let ?h = "map chr_of (header_bytes t (length p) 0)"
  obtain n1 where n1: "readAll E kHeaderSize s = (Ret ?h, s\<lparr>net := n1\<rparr>)" "pending n1 = p @ rest" "other n1 = other (net s)" "settled n1"
    using readAll_run [of kHeaderSize s] assms(2) by (auto simp: raw header_size_pos)
  have h: "parseHeader (map byte_of ?h) = Some (1, t, 0, of_nat (length p))"
    using parseHeader_header_bytes [OF len] by (simp add: comp_def)
  have "unat (of_nat (length p) :: u32) = length p" by (rule kMaxFrameSize_fits [OF len])
  moreover obtain n2 where "readAll E (length p) (s\<lparr>net := n1\<rparr>) = (Ret p, s\<lparr>net := n2\<rparr>)" "pending n2 = rest" "other n2 = other n1"
      "settled n2"
    using readAll_run [of "length p" "s\<lparr>net := n1\<rparr>"] n1(2,4) by fastforce
  ultimately show ?thesis using n1 h by (auto simp: recvFrame_def bindE_def)
qed

end

section \<open>The server as the peer\<close>

text \<open>What the client sends waits for the server, which reads it all when the client waits for an
  answer; \<open>piece\<close> says how many bytes a call moves, at least one.\<close>

record ('r, 'm, 'f) peer =
  srv :: "('r, 'm, 'f) cstate"
  inbox :: string

definition peer_reads :: "('r, 'm, 'f) env \<Rightarrow> 'j jsoncpp \<Rightarrow> ('r, 'm, 'f) peer \<Rightarrow> ('r, 'm, 'f) peer" where
  "peer_reads A J n = (if inbox n = [] then n
     else \<lparr>srv = snd (onRead A J ((srv n)\<lparr>c_in := c_in (srv n) @ inbox n\<rparr>)), inbox = []\<rparr>)"

definition transferred :: "(nat \<Rightarrow> nat) \<Rightarrow> nat \<Rightarrow> nat" where
  "transferred piece k = max 1 (min (piece k) k)"

definition peer_send :: "(nat \<Rightarrow> nat) \<Rightarrow> int \<Rightarrow> string \<Rightarrow> ('r, 'm, 'f) peer \<Rightarrow> int \<times> ('r, 'm, 'f) peer" where
  "peer_send piece fd data n = (let k = transferred piece (length data) in (int k, n\<lparr>inbox := inbox n @ take k data\<rparr>))"

definition peer_recv :: "('r, 'm, 'f) env \<Rightarrow> 'j jsoncpp \<Rightarrow> (nat \<Rightarrow> nat) \<Rightarrow> int \<Rightarrow> nat \<Rightarrow> ('r, 'm, 'f) peer \<Rightarrow> string \<times> ('r, 'm, 'f) peer" where
  "peer_recv A J piece fd len n =
     (let n1 = peer_reads A J n; k = transferred piece len
      in (take k (c_out (srv n1)), n1\<lparr>srv := (srv n1)\<lparr>c_out := drop k (c_out (srv n1))\<rparr>\<rparr>))"

text \<open>A client of that server: the parameters \<open>E\<close> of the client, with the JSON library of the server
  and the socket to the peer.\<close>

definition peer_env :: "('r, 'm, 'f) env \<Rightarrow> 'j jsoncpp \<Rightarrow> (nat \<Rightarrow> nat) \<Rightarrow> ('a, 'b, 'c, ('r, 'm, 'f) peer, 'j) cenv \<Rightarrow>
    ('a, 'b, 'c, ('r, 'm, 'f) peer, 'j) cenv" where
  "peer_env A J piece E = E\<lparr>json := J, sk_send := peer_send piece, sk_recv := peer_recv A J piece\<rparr>"

lemma transferred_bounds: "0 < k \<Longrightarrow> 0 < transferred piece k \<and> transferred piece k \<le> k"
  by (auto simp: transferred_def)

interpretation peer_out: out_stream "peer_env A J piece E" inbox srv
  by unfold_locales (use transferred_bounds in \<open>auto simp: peer_env_def peer_send_def Let_def\<close>)

lemma peer_recv_law:
  fixes n :: "('r, 'm, 'f) peer"
  assumes "0 < len" and "c_out (srv (peer_reads A J n)) \<noteq> []"
  shows "\<exists>bs n'. sk_recv (peer_env A J piece E) fd len n = (bs, n') \<and> bs \<noteq> [] \<and> length bs \<le> len \<and>
      c_out (srv (peer_reads A J n)) = bs @ c_out (srv (peer_reads A J n')) \<and>
      (srv (peer_reads A J n'))\<lparr>c_out := []\<rparr> = (srv (peer_reads A J n))\<lparr>c_out := []\<rparr> \<and> inbox n' = []"
proof -
  let ?n1 = "peer_reads A J n" let ?k = "transferred piece len"
  let ?n' = "?n1\<lparr>srv := (srv ?n1)\<lparr>c_out := drop ?k (c_out (srv ?n1))\<rparr>\<rparr>"
  have "inbox ?n1 = []" by (simp add: peer_reads_def)
  then have "peer_reads A J ?n' = ?n'" "inbox ?n' = []" by (simp_all add: peer_reads_def)
  with transferred_bounds [OF assms(1), of piece] assms(2) show ?thesis
    by (auto simp: peer_env_def peer_recv_def Let_def intro!: exI [of _ ?n'])
qed

interpretation peer_in: in_stream "peer_env A J piece E" "\<lambda>n. c_out (srv (peer_reads A J n))"
    "\<lambda>n. (srv (peer_reads A J n))\<lparr>c_out := []\<rparr>" "\<lambda>n. inbox n = []"
  by unfold_locales (rule peer_recv_law)

section \<open>One exchange\<close>

text \<open>What \<open>request\<close> and the download loop do on the connection: send a frame, wait for one.\<close>

definition exchange :: "('r, 'm, 'f, 'n, 'j) cenv \<Rightarrow> string \<Rightarrow> (('r, 'm, 'f, 'n, 'z) client_scheme, frame) cpp" where
  "exchange E payload = bindE (sendFrame E FT_Json payload) (\<lambda>_. recvFrame E)"

lemma encode_nonempty: "encode t p f = Inr raw \<Longrightarrow> raw \<noteq> []"
  by (auto simp: encode_Inr)

text \<open>The frame the client gets is the first one waiting for it.\<close>

lemma exchange_first:
  assumes "encode FT_Json payload 0 = Inr raw"
    and "snd (onRead A J ((srv (net s))\<lparr>c_in := c_in (srv (net s)) @ inbox (net s) @ raw\<rparr>)) = v"
    and "encode t p 0 = Inr first" and "c_out v = first @ rest"
  shows "exchange (peer_env A J piece E) payload s =
    (Ret \<lparr>f_type = t, f_flags = 0, f_payload = p\<rparr>, s\<lparr>net := \<lparr>srv = v\<lparr>c_out := rest\<rparr>, inbox = []\<rparr>\<rparr>)"
proof -
  let ?E = "peer_env A J piece E"
  obtain n1 where n1: "sendFrame ?E FT_Json payload s = (Ret (), s\<lparr>net := n1\<rparr>)" "inbox n1 = inbox (net s) @ raw" "srv n1 = srv (net s)"
    using peer_out.sendFrame_run [OF assms(1), of A J piece E s] by auto
  have r1: "peer_reads A J n1 = \<lparr>srv = v, inbox = []\<rparr>"
    using n1 assms(2) encode_nonempty [OF assms(1)] by (simp add: peer_reads_def)
  obtain n2 where n2: "recvFrame ?E (s\<lparr>net := n1\<rparr>) = (Ret \<lparr>f_type = t, f_flags = 0, f_payload = p\<rparr>, s\<lparr>net := n2\<rparr>)"
      "c_out (srv (peer_reads A J n2)) = rest" "(srv (peer_reads A J n2))\<lparr>c_out := []\<rparr> = v\<lparr>c_out := []\<rparr>" "inbox n2 = []"
    using peer_in.recvFrame_run [OF assms(3), of A J "s\<lparr>net := n1\<rparr>" rest piece E] assms(4) r1 by auto
  have "peer_reads A J n2 = n2" using n2(4) by (simp add: peer_reads_def)
  with n2 have "n2 = \<lparr>srv = v\<lparr>c_out := rest\<rparr>, inbox = []\<rparr>"
    by (cases n2; cases "srv n2"; cases v) simp
  with n1 n2 show ?thesis by (simp add: exchange_def bindE_def)
qed

text \<open>A command that reaches an idle connection is answered by one frame after what was waiting.\<close>

lemma answered_once:
  fixes w :: "('r, 'm, 'f, 'z) cstate_scheme"
  assumes "encode FT_Json payload 0 = Inr raw" and "onRead A J (w\<lparr>c_in := raw\<rparr>) = (Ret (), v)"
  shows "\<exists>r. c_out v = c_out w @ r \<and> one_frame r \<and> c_in v = []"
proof -
  let ?fr = "\<lparr>f_type = FT_Json, f_flags = 0, f_payload = payload\<rparr>"
  have "drain raw = ([?fr], [], False)" using drain_encoded [of "[?fr]" "[raw]"] assms(1) by simp
  then have "drain (c_in (w\<lparr>c_in := raw\<rparr>)) = ([?fr], [], False)" by simp
  from onRead_frames [OF assms(2) this] obtain raws where
    "c_in v = []" "c_out v = c_out w @ concat raws" "\<forall>r \<in> set raws. one_frame r" "length raws = 1"
    by (auto simp: is_json_def)
  then show ?thesis by (auto simp: length_Suc_conv)
qed

end
