(* ===== verification/Client_Properties.thy ===== *)
theory Client_Properties
  imports Client_Facts
begin

text \<open>
  Client and server together: a request and its answer stay in step, what happens when a frame of
  the server is waiting that no request asked for, and what an upload puts on the connection.
\<close>

section \<open>Requests and answers\<close>

text \<open>C23: a client and a server connection with empty buffers stay in step: the client's command,
  however \<open>send\<close> and \<open>recv\<close> cut it, is handled by the server, the client gets the one frame the
  server answered, whole, and both buffers are empty again.\<close>

theorem exchange_in_step:
  assumes "inbox (net s) = []" and "c_in (srv (net s)) = []" and "c_out (srv (net s)) = []"
    and "encode FT_Json payload 0 = Inr raw" and "onRead A J ((srv (net s))\<lparr>c_in := raw\<rparr>) = (Ret (), v)"
  shows "\<exists>f. exchange (peer_env A J piece E) payload s = (Ret f, s\<lparr>net := \<lparr>srv = v\<lparr>c_out := []\<rparr>, inbox = []\<rparr>\<rparr>) \<and>
    nextFrame (c_out v) = GotFrame f [] \<and> c_in v = []"
proof -
  obtain r where r: "c_out v = r" "one_frame r" "c_in v = []"
    using answered_once [OF assms(4,5)] assms(3) by auto
  then obtain t p where e: "encode t p 0 = Inr r" by (auto simp: one_frame_def)
  have "exchange (peer_env A J piece E) payload s =
      (Ret \<lparr>f_type = t, f_flags = 0, f_payload = p\<rparr>, s\<lparr>net := \<lparr>srv = v\<lparr>c_out := []\<rparr>, inbox = []\<rparr>\<rparr>)"
    by (rule exchange_first [OF assms(4) _ e]) (use assms(1,2,5) r in simp_all)
  moreover have "nextFrame (c_out v) = GotFrame \<lparr>f_type = t, f_flags = 0, f_payload = p\<rparr> []"
    using nextFrame_encode [OF e, of "[]"] r by simp
  ultimately show ?thesis using r by blast
qed


section \<open>Uploads\<close>

text \<open>C24: an upload of \<open>rest\<close>, the file from position \<open>sent\<close> on, sends frames that the server cuts out
  of the stream as they are; they decode to consecutive chunks, the first at \<open>sent\<close>, whose data are
  the file's bytes, all of them and in order.\<close>

theorem upload_tiles_file:
  assumes "length fileId = 32" and "0 < chunk" and "unat chunk + 40 \<le> kMaxFrameSize"
    and "sent \<le> fsize" and "length rest = unat (fsize - sent)"
  shows "\<exists>cs bytes n'. upload_loop (peer_env A J piece E) None fileId chunk fsize sent rest s = (Ret (), s\<lparr>net := n'\<rparr>) \<and>
    inbox n' = inbox (net s) @ bytes \<and> drain bytes = (map (chunk_frame fileId) cs, [], False) \<and>
    map (\<lambda>c. decodeChunk (f_payload (chunk_frame fileId c))) cs =
      map (\<lambda>(off, d). Some \<lparr>c_fileId = fileId, c_offset = off, c_data = d\<rparr>) cs \<and>
    consecutive sent cs \<and> concat (map snd cs) = rest"
proof -
  from peer_out.upload_loop_run [OF assms, of A J piece E s] obtain cs ss n' where u:
    "upload_loop (peer_env A J piece E) None fileId chunk fsize sent rest s = (Ret (), s\<lparr>net := n'\<rparr>)"
    "inbox n' = inbox (net s) @ concat ss"
    "list_all2 (\<lambda>fr s. encode (f_type fr) (f_payload fr) (f_flags fr) = Inr s) (map (chunk_frame fileId) cs) ss"
    "consecutive sent cs" "concat (map snd cs) = rest" by blast
  moreover have "map (\<lambda>c. decodeChunk (f_payload (chunk_frame fileId c))) cs =
      map (\<lambda>(off, d). Some \<lparr>c_fileId = fileId, c_offset = off, c_data = d\<rparr>) cs"
    using assms(1) by (auto simp: chunk_frame_def decodeChunk_payload)
  ultimately show ?thesis using drain_encoded [OF u(3)] by blast
qed

section \<open>An instance\<close>

definition ref_client :: "(ref_redis, ref_db, ref_fs) peer \<Rightarrow> (ref_redis, ref_db, ref_fs, (ref_redis, ref_db, ref_fs) peer) client" where
  "ref_client n = \<lparr>w_os = ref_fs0, w_redis = ref_redis0, ctx_set = False, w_mysql = \<lparr>rd_index = [], rd_users = []\<rparr>,
     idle_conns = [], pool_stopping = False, net = n, cl_fd = 3, cl_seq = 0, cl_token = [], cl_username = [],
     cl_host = [], cl_port = 9000, cl_cout = []\<rparr>"

text \<open>A client on the reference file system.\<close>

definition ref_cenv :: "(ref_redis, ref_db, ref_fs, 'n, rjson) cenv" where
  "ref_cenv = \<lparr>lib = ref_env, json = ref_json, sk_socket = (\<lambda>n. (3, n)), sk_pton = (\<lambda>h. True),
     sk_connect = (\<lambda>fd h p n. (True, n)), sk_send = (\<lambda>fd data n. (-1, n)), sk_recv = (\<lambda>fd len n. ([], n)),
     sk_close = (\<lambda>fd n. n), ofs_open = (\<lambda>p f. f\<lparr>rf_files := (rf_files f)(p \<mapsto> [])\<rparr>),
     ofs_write = (\<lambda>p d f. f\<lparr>rf_files := (rf_files f)(p := map_option (\<lambda>c. c @ d) (rf_files f p))\<rparr>), turns = 8\<rparr>"

lemma ref_client_net [simp]: "net (ref_client n) = n"
  by (simp add: ref_client_def)

lemma ref_conn_buffers [simp]: "c_in ref_conn = []" "c_out ref_conn = []"
  by (simp_all add: ref_conn_def)

definition ref_raw :: string where
  "ref_raw = (case encode FT_Json (ref_request ''ls'') 0 of Inr raw \<Rightarrow> raw | Inl e \<Rightarrow> [])"

lemma ref_raw_encode: "encode FT_Json (ref_request ''ls'') 0 = Inr ref_raw"
  by code_simp

lemma ref_answer: "onRead ref_env ref_json (ref_conn\<lparr>c_in := ref_raw\<rparr>) =
    (Ret (), snd (onRead ref_env ref_json (ref_conn\<lparr>c_in := ref_raw\<rparr>)))"
proof -
  have "fst (onRead ref_env ref_json (ref_conn\<lparr>c_in := ref_raw\<rparr>)) = Ret ()" by code_simp
  then show ?thesis by (metis prod.collapse)
qed

theorem exchange_in_step_witness:
  "\<exists>f v. exchange (peer_env ref_env ref_json (\<lambda>k. 1) ref_cenv) (ref_request ''ls'') (ref_client \<lparr>srv = ref_conn, inbox = []\<rparr>) =
     (Ret f, (ref_client \<lparr>srv = ref_conn, inbox = []\<rparr>)\<lparr>net := \<lparr>srv = v\<lparr>c_out := []\<rparr>, inbox = []\<rparr>\<rparr>)"
  using exchange_in_step [where s = "ref_client \<lparr>srv = ref_conn, inbox = []\<rparr>" and piece = "\<lambda>k. 1" and E = ref_cenv,
      OF _ _ _ ref_raw_encode, of ref_env ref_json, simplified, OF ref_answer]
  by auto

lemma ref_stale_answer: "onRead ref_env ref_json (ref_conn\<lparr>c_out := ref_raw, c_in := ref_raw\<rparr>) =
    (Ret (), snd (onRead ref_env ref_json (ref_conn\<lparr>c_out := ref_raw, c_in := ref_raw\<rparr>)))"
proof -
  have "fst (onRead ref_env ref_json (ref_conn\<lparr>c_out := ref_raw, c_in := ref_raw\<rparr>)) = Ret ()" by code_simp
  then show ?thesis by (metis prod.collapse)
qed


theorem upload_tiles_file_witness:
  "\<exists>cs. consecutive 0 cs \<and> concat (map snd cs) = ''abc'' \<and>
     fst (upload_loop (peer_env ref_env ref_json (\<lambda>k. 5) ref_cenv) None (replicate 32 CHR ''a'') 2 3 0 ''abc''
       (ref_client \<lparr>srv = ref_conn, inbox = []\<rparr>)) = Ret ()"
  using upload_tiles_file [of "replicate 32 CHR ''a''" 2 0 3 "''abc''" ref_env ref_json "\<lambda>k. 5" ref_cenv
      "ref_client \<lparr>srv = ref_conn, inbox = []\<rparr>"]
  by (auto simp: kMaxFrameSize_def)

end
