(* ===== verification/Client_Cli.thy ===== *)
theory Client_Cli
  imports Client Config_File
begin

text \<open>
  \<open>client/main.cpp\<close>: the command-line client. Its arguments, the interactive shell over the lines of
  the standard input, one command per line, and the exit code. What goes to the standard output is
  \<open>cl_cout\<close>, to the standard error \<open>cl_cerr\<close>.
\<close>

record ('r, 'm, 'f, 'n) cli = "('r, 'm, 'f, 'n) client" +
  cl_cerr :: string

definition complain :: "string \<Rightarrow> (('r, 'm, 'f, 'n) cli, unit) cpp" where
  "complain t = modify (\<lambda>s. s\<lparr>cl_cerr := cl_cerr s @ t\<rparr>)"

definition cli_usage :: "string \<Rightarrow> string" where
  "cli_usage argv0 =
     ''CloudStore client'' @ nl @ ''Usage:'' @ nl @
     ''  '' @ argv0 @ '' [--host IP] [--port N]            # interactive shell'' @ nl @
     ''  '' @ argv0 @ '' --host IP --port N --user U --pass P put <local> <remote>'' @ nl @
     ''  '' @ argv0 @ '' --host IP --port N --user U --pass P get <remote> <local>'' @ nl @
     ''  '' @ argv0 @ '' --host IP --port N --user U --pass P ls [path]'' @ nl @
     ''Commands in shell: login, register, ls, mkdir, rm, stat, mv, put, get, logout, help, quit'' @ nl"

text \<open>\<open>while (iss >> x)\<close>: the words of the line.\<close>

function (sequential) tokenize :: "string \<Rightarrow> string list" where
  "tokenize line =
     (let t = dropWhile isspace line in
      if t = [] then [] else takeWhile (\<lambda>c. \<not> isspace c) t # tokenize (dropWhile (\<lambda>c. \<not> isspace c) t))"
  by pat_completeness auto
termination
proof (relation "measure length")
  fix line :: string and t
  assume t: "t = dropWhile isspace line" "t \<noteq> []"
  then have "\<not> isspace (hd t)" using hd_dropWhile [of isspace line] by simp
  with t(2) have "length (dropWhile (\<lambda>c. \<not> isspace c) t) < length t"
    by (cases t) (auto simp: le_imp_less_Suc length_dropWhile_le)
  also have "\<dots> \<le> length line" by (simp add: t(1) length_dropWhile_le)
  finally show "(dropWhile (\<lambda>c. \<not> isspace c) t, line) \<in> measure length" by simp
qed simp

declare tokenize.simps [simp del]

text \<open>One command of the shell, with at least the command word.\<close>

definition shell_command :: "('r, 'm, 'f, 'n, 'j) cenv \<Rightarrow> string list \<Rightarrow> (('r, 'm, 'f, 'n) cli, unit) cpp" where
  "shell_command E t =
     (let cmd = hd t; n = length t in
      if cmd = ''login'' \<and> n \<ge> 3 then
        bindE (client_login E (t ! 1) (t ! 2)) (\<lambda>_.
        bindE (gets cl_username) (\<lambda>u. print (''login ok, user='' @ u @ nl)))
      else if cmd = ''register'' \<and> n \<ge> 3 then
        bindE (signup E (t ! 1) (t ! 2)) (\<lambda>_. print (''register ok, please login'' @ nl))
      else if cmd = ''logout'' then client_logout E
      else if cmd = ''ls'' then ls E (if n \<ge> 2 then t ! 1 else ''/'') (n \<ge> 3 \<and> t ! 2 = ''-r'')
      else if cmd = ''mkdir'' \<and> n \<ge> 2 then client_mkdir E (t ! 1)
      else if cmd = ''rm'' \<and> n \<ge> 2 then rm E (t ! 1)
      else if cmd = ''stat'' \<and> n \<ge> 2 then client_stat E (t ! 1)
      else if (cmd = ''mv'' \<or> cmd = ''rename'') \<and> n \<ge> 3 then client_rename E (t ! 1) (t ! 2)
      else if cmd = ''put'' \<and> n \<ge> 3 then
        bindE (client_put E None (t ! 1) (t ! 2) (n \<ge> 4 \<and> t ! 3 = ''--overwrite'')) (\<lambda>_. return ())
      else if cmd = ''get'' \<and> n \<ge> 3 then bindE (client_get E None (t ! 1) (t ! 2)) (\<lambda>_. return ())
      else print (''unknown or incomplete command, type help'' @ nl))"

definition prompt :: "(('r, 'm, 'f, 'n) cli, unit) cpp" where
  "prompt = bindE (gets (\<lambda>s. if cl_token s \<noteq> [] then cl_username s else ''guest'')) (\<lambda>who. print (who @ ''> ''))"

fun shell_loop :: "('r, 'm, 'f, 'n, 'j) cenv \<Rightarrow> string list \<Rightarrow> (('r, 'm, 'f, 'n) cli, unit) cpp" where
  "shell_loop E [] = prompt"
| "shell_loop E (line # lines) =
     bindE prompt (\<lambda>_.
     let t = tokenize line in
     if t = [] then shell_loop E lines
     else if hd t = ''quit'' \<or> hd t = ''exit'' then return ()
     else if hd t = ''help'' then bindE (complain (cli_usage ''cloud_client'')) (\<lambda>_. shell_loop E lines)
     else
       bindE (catchE (shell_command E t)
                (\<lambda>e. complain (''error: '' @ (case e of CloudError c m \<Rightarrow> m | StdException m \<Rightarrow> m) @ nl))) (\<lambda>_.
       shell_loop E lines))"

definition runShell :: "('r, 'm, 'f, 'n, 'j) cenv \<Rightarrow> string list \<Rightarrow> (('r, 'm, 'f, 'n) cli, unit) cpp" where
  "runShell E lines = bindE (print (''CloudStore client. Type '' @ [CHR 0x27] @ ''help'' @ [CHR 0x27] @ ''.'' @ nl)) (\<lambda>_.
     shell_loop E lines)"

section \<open>The program\<close>

text \<open>\<open>std::stoi\<close>, and the arguments: the exit code for \<open>--help\<close>, the settings, or the exception of a
  port that is not a number. It is thrown outside the \<open>try\<close> block of \<open>main\<close>.\<close>

definition stoi :: "string \<Rightarrow> exn + int" where
  "stoi s = (case stoll s of Inl e \<Rightarrow> Inl (StdException ''stoi'')
     | Inr i \<Rightarrow> if - (2 ^ 31) \<le> i \<and> i < 2 ^ 31 then Inr i else Inl (StdException ''stoi''))"

record cli_args =
  a_host :: string
  a_port :: u16
  a_user :: string
  a_pass :: string
  a_rest :: "string list"

definition cli_defaults :: cli_args where
  "cli_defaults = \<lparr>a_host = ''127.0.0.1'', a_port = 9000, a_user = [], a_pass = [], a_rest = []\<rparr>"

fun cli_parse :: "cli_args \<Rightarrow> string list \<Rightarrow> exn + cli_args option" where
  "cli_parse c [] = Inr (Some c)"
| "cli_parse c [a] =
     (if a = ''-h'' \<or> a = ''--help'' then Inr None else Inr (Some (c\<lparr>a_rest := a_rest c @ [a]\<rparr>)))"
| "cli_parse c (a # v # args) =
     (if a = ''--host'' \<or> a = ''-H'' then cli_parse (c\<lparr>a_host := v\<rparr>) args
      else if a = ''--port'' \<or> a = ''-p'' then
        (case stoi v of Inl e \<Rightarrow> Inl e | Inr i \<Rightarrow> cli_parse (c\<lparr>a_port := word_of_int i\<rparr>) args)
      else if a = ''--user'' \<or> a = ''-u'' then cli_parse (c\<lparr>a_user := v\<rparr>) args
      else if a = ''--pass'' \<or> a = ''-P'' then cli_parse (c\<lparr>a_pass := v\<rparr>) args
      else if a = ''-h'' \<or> a = ''--help'' then Inr None
      else cli_parse (c\<lparr>a_rest := a_rest c @ [a]\<rparr>) (v # args))"

text \<open>The \<open>try\<close> block of \<open>main\<close>.\<close>

definition cli_session :: "('r, 'm, 'f, 'n, 'j) cenv \<Rightarrow> string \<Rightarrow> cli_args \<Rightarrow> string list \<Rightarrow> (('r, 'm, 'f, 'n) cli, int) cpp" where
  "cli_session E argv0 c stdin =
     bindE (connectTo E (a_host c) (a_port c)) (\<lambda>_.
     bindE (if a_user c \<noteq> [] then bindE (client_login E (a_user c) (a_pass c)) (\<lambda>_. return ()) else return ()) (\<lambda>_.
     let r = a_rest c; n = length r; cmd = hd r in
     if r = [] then bindE (runShell E stdin) (\<lambda>_. return 0)
     else if cmd = ''put'' \<and> n \<ge> 3 then
       bindE (client_put E None (r ! 1) (r ! 2) (n \<ge> 4 \<and> r ! 3 = ''--overwrite'')) (\<lambda>_. return 0)
     else if cmd = ''get'' \<and> n \<ge> 3 then bindE (client_get E None (r ! 1) (r ! 2)) (\<lambda>_. return 0)
     else if cmd = ''ls'' then bindE (ls E (if n \<ge> 2 then r ! 1 else ''/'') False) (\<lambda>_. return 0)
     else if cmd = ''mkdir'' \<and> n \<ge> 2 then bindE (client_mkdir E (r ! 1)) (\<lambda>_. return 0)
     else if cmd = ''rm'' \<and> n \<ge> 2 then bindE (rm E (r ! 1)) (\<lambda>_. return 0)
     else if cmd = ''stat'' \<and> n \<ge> 2 then bindE (client_stat E (r ! 1)) (\<lambda>_. return 0)
     else bindE (complain (cli_usage argv0)) (\<lambda>_. return 1)))"

text \<open>\<open>main\<close>: the destructor of the client closes the socket before the handler runs.\<close>

definition cli_main :: "('r, 'm, 'f, 'n, 'j) cenv \<Rightarrow> string \<Rightarrow> string list \<Rightarrow> string list \<Rightarrow> (('r, 'm, 'f, 'n) cli, int) cpp" where
  "cli_main E argv0 args stdin =
     (case cli_parse cli_defaults args of
        Inl e \<Rightarrow> throw e
      | Inr None \<Rightarrow> bindE (complain (cli_usage argv0)) (\<lambda>_. return 0)
      | Inr (Some c) \<Rightarrow>
          catchE (finallyE (cli_session E argv0 c stdin) (\<lambda>s. snd (client_close E s)))
            (\<lambda>e. bindE (complain (''fatal: '' @ (case e of CloudError c m \<Rightarrow> m | StdException m \<Rightarrow> m) @ nl)) (\<lambda>_. return 1)))"

section \<open>Words\<close>

text \<open>Words typed with white space between them are the words the shell sees.\<close>

definition is_word :: "string \<Rightarrow> bool" where
  "is_word w \<longleftrightarrow> w \<noteq> [] \<and> (\<forall>c \<in> set w. \<not> isspace c)"

lemma tokenize_word: "is_word w \<Longrightarrow> isspace c \<Longrightarrow> tokenize (w @ c # rest) = w # tokenize (c # rest)"
  by (subst tokenize.simps, cases w)
     (auto simp: is_word_def Let_def takeWhile_append2 dropWhile_append2 simp del: takeWhile_append dropWhile_append)

lemma tokenize_space: "isspace c \<Longrightarrow> tokenize (c # rest) = tokenize rest"
  by (subst (1 2) tokenize.simps) simp

lemma tokenize_words:
  "list_all is_word ws \<Longrightarrow> isspace c \<Longrightarrow> tokenize (concat (map (\<lambda>w. w @ [c]) ws)) = ws"
proof (induction ws)
  case Nil
  show ?case by (simp add: tokenize.simps)
next
  case (Cons w ws)
  then show ?case by (simp add: tokenize_word tokenize_space)
qed

end
