(* ===== verification/Client_Gui.thy ===== *)
theory Client_Gui
  imports Client
begin

text \<open>
  \<open>client/gui_main.cpp\<close>: the local HTTP front end of the client. One client object and the state of
  its progress bar are shared by all handlers under one \<open>std::mutex\<close>; the progress callback takes the
  same mutex. Locking it while the own thread holds it never returns (\<open>Blocked\<close>). The HTTP library
  is a parameter: a handler gets the parts of the request it reads and returns the response.
\<close>

section \<open>State\<close>

record ('r, 'm, 'f, 'n) gui = "('r, 'm, 'f, 'n) client" +
  mu_held :: bool
  progressPhase :: string
  progressCurrent :: u64
  progressTotal :: u64

record response =
  rs_status :: int
  rs_body :: string
  rs_type :: string
  rs_headers :: "(string \<times> string) list"

text \<open>The request: its body, the query parameter \<open>path\<close> (empty when missing), the uploaded file and
  the form fields.\<close>

record http_request =
  rq_body :: string
  rq_path :: string
  rq_file :: "string option"
  rq_fields :: "string \<rightharpoonup> string"

text \<open>\<open>fs::temp_directory_path() / ...\<close> with the process id, and the server of the command line.\<close>

record gui_env =
  tmp_up :: string
  tmp_dl :: string
  serverHost :: string
  serverPort :: u16

section \<open>The mutex\<close>

definition lock :: "(('r, 'm, 'f, 'n) gui, unit) cpp" where
  "lock = (\<lambda>s. if mu_held s then (Blocked, s) else (Ret (), s\<lparr>mu_held := True\<rparr>))"

text \<open>A scope with a \<open>std::lock_guard\<close>.\<close>

definition locked :: "(('r, 'm, 'f, 'n) gui, 'a) cpp \<Rightarrow> (('r, 'm, 'f, 'n) gui, 'a) cpp" where
  "locked m = bindE lock (\<lambda>_. finallyE m (\<lambda>s. s\<lparr>mu_held := False\<rparr>))"

text \<open>The callback \<open>main\<close> registers with the client.\<close>

definition gui_progress :: "('r, 'm, 'f, 'n) gui progress" where
  "gui_progress = Some (\<lambda>current whole phase. locked (modify (\<lambda>s. s\<lparr>progressPhase := phase,
     progressCurrent := current, progressTotal := whole\<rparr>)))"

section \<open>Responses\<close>

definition jsonOk :: "'j jsoncpp \<Rightarrow> 'j \<Rightarrow> string" where
  "jsonOk J d = dumpJson J (assign J (j_null J) [(''ok'', j_bool J True), (''data'', d)])"

definition jsonErr :: "'j jsoncpp \<Rightarrow> string \<Rightarrow> string" where
  "jsonErr J msg = dumpJson J (assign J (j_null J) [(''ok'', j_bool J False), (''error'', j_str J msg)])"

definition setCors :: "(string \<times> string) list" where
  "setCors = [(''Access-Control-Allow-Origin'', ''*''), (''Access-Control-Allow-Methods'', ''GET, POST, OPTIONS''),
     (''Access-Control-Allow-Headers'', ''Content-Type'')]"

definition json_reply :: "int \<Rightarrow> string \<Rightarrow> response" where
  "json_reply status body = \<lparr>rs_status = status, rs_body = body, rs_type = ''application/json'', rs_headers = setCors\<rparr>"

definition api_options :: response where
  "api_options = \<lparr>rs_status = 204, rs_body = [], rs_type = [], rs_headers = setCors\<rparr>"

text \<open>The \<open>try\<close> block of a handler: what it throws becomes an error response with the handler's status.\<close>

definition answering :: "'j jsoncpp \<Rightarrow> int \<Rightarrow> (('r, 'm, 'f, 'n) gui, response) cpp \<Rightarrow> (('r, 'm, 'f, 'n) gui, response) cpp" where
  "answering J status m = catchE m (\<lambda>e. return (json_reply status (jsonErr J (case e of CloudError c t \<Rightarrow> t | StdException t \<Rightarrow> t))))"

definition body_of :: "'j jsoncpp \<Rightarrow> http_request \<Rightarrow> 'j" where
  "body_of J rq = fst (snd (parseJson J (rq_body rq)))"

definition text_member :: "'j jsoncpp \<Rightarrow> 'j \<Rightarrow> string \<Rightarrow> exn + string" where
  "text_member J v key = (case j_at J v key of Inl e \<Rightarrow> Inl e | Inr x \<Rightarrow> j_asString J x)"

section \<open>Handlers\<close>

definition api_connect :: "('r, 'm, 'f, 'n, 'j) cenv \<Rightarrow> gui_env \<Rightarrow> http_request \<Rightarrow> (('r, 'm, 'f, 'n) gui, response) cpp" where
  "api_connect E G rq = answering (json E) 500
     (let J = json E in
      if \<not> fst (parseJson J (rq_body rq)) then return (json_reply 400 (jsonErr J ''bad json''))
      else
        bindE (liftS (get_string J (body_of J rq) ''host'' (serverHost G))) (\<lambda>host.
        bindE (liftS (get_as J (j_asUInt J) (body_of J rq) ''port'' (j_Int J (uint (serverPort G))))) (\<lambda>p.
        locked (
          bindE (client_close E) (\<lambda>_.
          bindE (connectTo E host (ucast p)) (\<lambda>_.
          return (json_reply 200 (jsonOk J (assign J (j_null J) [(''host'', j_str J host),
            (''port'', j_Int J (uint (ucast p :: u16)))])))))))))"

definition api_status :: "('r, 'm, 'f, 'n, 'j) cenv \<Rightarrow> (('r, 'm, 'f, 'n) gui, response) cpp" where
  "api_status E = locked (let J = json E in
     gets (\<lambda>s. json_reply 200 (jsonOk J (assign J (j_null J)
       [(''connected'', j_bool J (cl_fd s \<ge> 0)), (''logged_in'', j_bool J (cl_token s \<noteq> [])),
        (''username'', j_str J (cl_username s)), (''host'', j_str J (cl_host s)), (''port'', j_Int J (uint (cl_port s))),
        (''progress_phase'', j_str J (progressPhase s)), (''progress_current'', j_UInt64 J (progressCurrent s)),
        (''progress_total'', j_UInt64 J (progressTotal s))]))))"

text \<open>\<open>login\<close> and \<open>register\<close> connect first when there is no connection.\<close>

definition connected_first :: "('r, 'm, 'f, 'n, 'j) cenv \<Rightarrow> gui_env \<Rightarrow> (('r, 'm, 'f, 'n) gui, unit) cpp" where
  "connected_first E G = bindE (gets cl_fd) (\<lambda>fd. if fd \<ge> 0 then return () else connectTo E (serverHost G) (serverPort G))"

definition api_login :: "('r, 'm, 'f, 'n, 'j) cenv \<Rightarrow> gui_env \<Rightarrow> http_request \<Rightarrow> (('r, 'm, 'f, 'n) gui, response) cpp" where
  "api_login E G rq = answering (json E) 401 (locked (let J = json E in
     bindE (connected_first E G) (\<lambda>_.
     bindE (liftS (text_member J (body_of J rq) ''username'')) (\<lambda>u.
     bindE (liftS (text_member J (body_of J rq) ''password'')) (\<lambda>p.
     bindE (client_login E u p) (\<lambda>d. return (json_reply 200 (jsonOk J d))))))))"

definition api_register :: "('r, 'm, 'f, 'n, 'j) cenv \<Rightarrow> gui_env \<Rightarrow> http_request \<Rightarrow> (('r, 'm, 'f, 'n) gui, response) cpp" where
  "api_register E G rq = answering (json E) 400 (locked (let J = json E in
     bindE (connected_first E G) (\<lambda>_.
     bindE (liftS (text_member J (body_of J rq) ''username'')) (\<lambda>u.
     bindE (liftS (text_member J (body_of J rq) ''password'')) (\<lambda>p.
     bindE (signup E u p) (\<lambda>d. return (json_reply 200 (jsonOk J d))))))))"

text \<open>\<open>logout\<close> has no \<open>try\<close> block.\<close>

definition api_logout :: "('r, 'm, 'f, 'n, 'j) cenv \<Rightarrow> (('r, 'm, 'f, 'n) gui, response) cpp" where
  "api_logout E = locked (bindE (client_logout E) (\<lambda>_. return (json_reply 200 (jsonOk (json E) (j_null (json E))))))"

definition api_ls :: "('r, 'm, 'f, 'n, 'j) cenv \<Rightarrow> http_request \<Rightarrow> (('r, 'm, 'f, 'n) gui, response) cpp" where
  "api_ls E rq = answering (json E) 500 (locked (
     bindE (listEntries E (if rq_path rq = [] then ''/'' else rq_path rq) False) (\<lambda>d.
     return (json_reply 200 (jsonOk (json E) d)))))"

definition api_mkdir :: "('r, 'm, 'f, 'n, 'j) cenv \<Rightarrow> http_request \<Rightarrow> (('r, 'm, 'f, 'n) gui, response) cpp" where
  "api_mkdir E rq = answering (json E) 500 (locked (
     bindE (liftS (text_member (json E) (body_of (json E) rq) ''path'')) (\<lambda>p.
     bindE (client_makeDir E p) (\<lambda>d. return (json_reply 200 (jsonOk (json E) d))))))"

definition api_rm :: "('r, 'm, 'f, 'n, 'j) cenv \<Rightarrow> http_request \<Rightarrow> (('r, 'm, 'f, 'n) gui, response) cpp" where
  "api_rm E rq = answering (json E) 500 (locked (
     bindE (liftS (text_member (json E) (body_of (json E) rq) ''path'')) (\<lambda>p.
     bindE (client_removePath E p) (\<lambda>d. return (json_reply 200 (jsonOk (json E) d))))))"

definition api_rename :: "('r, 'm, 'f, 'n, 'j) cenv \<Rightarrow> http_request \<Rightarrow> (('r, 'm, 'f, 'n) gui, response) cpp" where
  "api_rename E rq = answering (json E) 500 (locked (
     bindE (liftS (text_member (json E) (body_of (json E) rq) ''from'')) (\<lambda>a.
     bindE (liftS (text_member (json E) (body_of (json E) rq) ''to'')) (\<lambda>b.
     bindE (client_renamePath E a b) (\<lambda>d. return (json_reply 200 (jsonOk (json E) d)))))))"

text \<open>\<open>fs::remove\<close>: a missing file is no error.\<close>

definition fs_remove :: "('r, 'm, 'f, 'n, 'j) cenv \<Rightarrow> string \<Rightarrow> (('r, 'm, 'f, 'n) gui, unit) cpp" where
  "fs_remove E p = bindE (on_os (os_unlink (os (lib E)) (c_str p))) (\<lambda>e.
     case e of None \<Rightarrow> return ()
     | Some err \<Rightarrow> if err = ENOENT then return ()
         else throw (StdException (''filesystem error: cannot remove: '' @ os_strerror (os (lib E)) err @ '' ['' @ p @ '']'')))"

definition api_upload :: "('r, 'm, 'f, 'n, 'j) cenv \<Rightarrow> gui_env \<Rightarrow> http_request \<Rightarrow> (('r, 'm, 'f, 'n) gui, response) cpp" where
  "api_upload E G rq = answering (json E) 500
     (case (rq_file rq, rq_fields rq ''path'') of
        (Some content, Some remotePath) \<Rightarrow>
          (let overwrite = (rq_fields rq ''overwrite'' = Some ''true''); tmpPath = tmp_up G in
           bindE (modify (\<lambda>s. s\<lparr>w_os := ofs_write E (c_str tmpPath) content (ofs_open E (c_str tmpPath) (w_os s))\<rparr>)) (\<lambda>_.
           bindE (locked (
             bindE (modify (\<lambda>s. s\<lparr>progressPhase := ''starting'', progressCurrent := 0, progressTotal := 0\<rparr>)) (\<lambda>_.
             client_put E gui_progress tmpPath remotePath overwrite))) (\<lambda>result.
           bindE (fs_remove E tmpPath) (\<lambda>_.
           return (json_reply 200 (jsonOk (json E) result))))))
      | _ \<Rightarrow> return (json_reply 400 (jsonErr (json E) ''missing file or path'')))"

definition api_download :: "('r, 'm, 'f, 'n, 'j) cenv \<Rightarrow> gui_env \<Rightarrow> http_request \<Rightarrow> (('r, 'm, 'f, 'n) gui, response) cpp" where
  "api_download E G rq = answering (json E) 500
     (if rq_path rq = [] then return (json_reply 400 (jsonErr (json E) ''missing path''))
      else
        let path = rq_path rq; tmpPath = tmp_dl G in
        bindE (locked (bindE (client_get E gui_progress path tmpPath) (\<lambda>_. return ()))) (\<lambda>_.
        bindE (gets (\<lambda>s. case ifs_bytes (os (lib E)) (c_str tmpPath) (w_os s) of None \<Rightarrow> [] | Some b \<Rightarrow> b)) (\<lambda>content.
        bindE (fs_remove E tmpPath) (\<lambda>_.
        let name = (case find_last_of CHR ''/'' path of None \<Rightarrow> path | Some pos \<Rightarrow> drop (Suc pos) path) in
        return \<lparr>rs_status = 200, rs_body = content, rs_type = ''application/octet-stream'',
          rs_headers = setCors @ [(''Content-Disposition'', ''attachment; filename='' @ [CHR 0x22] @ name @ [CHR 0x22])]\<rparr>))))"

section \<open>The program\<close>

text \<open>\<open>findWebRoot\<close>: the first candidate with an index page; \<open>fs_exists\<close> and \<open>fs_absolute\<close> are those of
  \<open>std::filesystem\<close>.\<close>

definition findWebRoot :: "(string \<Rightarrow> bool) \<Rightarrow> (string \<Rightarrow> string) \<Rightarrow> string" where
  "findWebRoot fs_exists fs_absolute =
     (case List.find (\<lambda>c. fs_exists (c @ ''/index.html'')) [''client/web'', ''../client/web'', ''../../client/web'', ''./web''] of
        None \<Rightarrow> [] | Some c \<Rightarrow> fs_absolute c)"

record gui_args =
  g_listen :: int
  g_host :: string
  g_port :: u16

definition gui_defaults :: gui_args where
  "gui_defaults = \<lparr>g_listen = 9080, g_host = ''127.0.0.1'', g_port = 9000\<rparr>"

text \<open>The arguments; \<open>atoi\<close> is the C function. \<open>None\<close> is the usage text with exit code 0. An argument
  the loop does not know is skipped.\<close>

fun gui_parse :: "(string \<Rightarrow> int) \<Rightarrow> gui_args \<Rightarrow> string list \<Rightarrow> gui_args option" where
  "gui_parse atoi g [] = Some g"
| "gui_parse atoi g [a] = (if a = ''--help'' \<or> a = ''-h'' then None else Some g)"
| "gui_parse atoi g (a # v # args) =
     (if a = ''--listen'' then gui_parse atoi (g\<lparr>g_listen := atoi v\<rparr>) args
      else if a = ''--host'' then gui_parse atoi (g\<lparr>g_host := v\<rparr>) args
      else if a = ''--port'' then gui_parse atoi (g\<lparr>g_port := word_of_int (atoi v)\<rparr>) args
      else if a = ''--help'' \<or> a = ''-h'' then None
      else gui_parse atoi g (v # args))"

text \<open>Serving, once the handlers are registered: what is printed on the standard output and the error
  output, and the exit code; \<open>listens\<close> is whether the HTTP server could listen on the address.\<close>

definition gui_serve :: "(string \<Rightarrow> int \<Rightarrow> bool) \<Rightarrow> string \<Rightarrow> gui_args \<Rightarrow> string \<times> string \<times> int" where
  "gui_serve listens webRoot g =
     (let address = ''127.0.0.1:'' @ to_string_int (g_listen g);
          banner = ''CloudStore GUI: http://'' @ address @ nl @
            ''Cloud server: '' @ g_host g @ '':'' @ to_string_nat (unat (g_port g)) @ nl @
            ''Web root: '' @ webRoot @ nl
      in if \<not> listens ''127.0.0.1'' (g_listen g) then (banner, ''failed to listen on '' @ address @ nl, 1)
         else (banner, [], 0))"

definition gui_main :: "(string \<Rightarrow> int) \<Rightarrow> (string \<Rightarrow> bool) \<Rightarrow> (string \<Rightarrow> string) \<Rightarrow> (string \<Rightarrow> int \<Rightarrow> bool) \<Rightarrow> string list \<Rightarrow>
    string \<times> string \<times> int" where
  "gui_main atoi fs_exists fs_absolute listens args =
     (case gui_parse atoi gui_defaults args of
        None \<Rightarrow> (''Usage: cloud_gui [--listen 9080] [--host 127.0.0.1] [--port 9000]'' @ nl, [], 0)
      | Some g \<Rightarrow>
          let webRoot = findWebRoot fs_exists fs_absolute in
          if webRoot = [] then ([], ''cannot find client/web directory'' @ nl, 1)
          else gui_serve listens webRoot g)"

section \<open>Progress under the mutex\<close>

lemma progress_blocks: "mu_held s \<Longrightarrow> reportProgress gui_progress c t p s = (Blocked, s)"
  by (simp add: reportProgress_def gui_progress_def locked_def lock_def bindE_def)

text \<open>Under the mutex \<open>put\<close> does not get past its first progress report.\<close>

lemma put_under_mutex:
  assumes "mu_held s"
  shows "client_put E gui_progress p r b s =
    (if os_lstat (os (lib E)) (c_str p) (w_os s) = None then (Raise (StdException (''local file not found: '' @ p)), s)
     else (Blocked, s))"
  using progress_blocks [OF assms] by (simp add: client_put_def fileExists_def fileSize_def bindE_def)

lemma locked_blocks: "mu_held s \<Longrightarrow> locked m s = (Blocked, s)"
  by (simp add: locked_def lock_def bindE_def)

end
