(* ===== verification/Gui_Properties.thy ===== *)
theory Gui_Properties
  imports Client_Gui Client_Properties
begin

text \<open>
  The front end and its mutex: an upload that gets as far as hashing the file waits for a mutex its own
  thread holds, and every later request waits with it.
\<close>

lemma answering_blocked: "m s = (Blocked, t) \<Longrightarrow> answering J n m s = (Blocked, t)"
  by (simp add: answering_def catchE_def)


text \<open>A front end on the reference file system.\<close>

definition ref_gui_env :: "(ref_redis, ref_db, ref_fs, (ref_redis, ref_db, ref_fs) peer, rjson) cenv" where
  "ref_gui_env = peer_env ref_env ref_json (\<lambda>k. k) ref_cenv"

definition ref_gui :: "(ref_redis, ref_db, ref_fs, (ref_redis, ref_db, ref_fs) peer) gui" where
  "ref_gui = client.extend (ref_client \<lparr>srv = ref_conn, inbox = []\<rparr>) (gui.fields False [] 0 0)"

definition ref_upload :: http_request where
  "ref_upload = \<lparr>rq_body = [], rq_path = [], rq_file = Some ''abc'', rq_fields = [''path'' \<mapsto> ''/a'']\<rparr>"


end
