(* ===== verification/Logger.thy ===== *)
theory Logger
  imports Os_Utils
begin

text \<open>
  \<open>src/logger.cpp\<close>: the log. The other theories leave the log lines out: no operation reads the log
  back. Here the logger itself is modelled: its level, its file, and what a message adds to the
  standard output and the file; and the two functions of \<open>src/utils.cpp\<close> on the clock. What the clock
  shows (its ticks, and the local time \<open>localtime_r\<close> breaks it down to) and \<open>std::ofstream\<close> in append mode
  are parameters.
\<close>

section \<open>The clock\<close>

record tm =
  tm_year :: int
  tm_mon :: int
  tm_mday :: int
  tm_hour :: int
  tm_min :: int
  tm_sec :: int

text \<open>\<open>strftime\<close> with \<open>%Y-%m-%d %H:%M:%S\<close>.\<close>

definition two_digits :: "int \<Rightarrow> string" where
  "two_digits i = (if 0 \<le> i \<and> i < 10 then CHR ''0'' # to_string_int i else to_string_int i)"

definition timestamp :: "tm \<Rightarrow> string" where
  "timestamp t = to_string_int (tm_year t + 1900) @ ''-'' @ two_digits (tm_mon t + 1) @ ''-'' @ two_digits (tm_mday t) @ '' '' @
     two_digits (tm_hour t) @ '':'' @ two_digits (tm_min t) @ '':'' @ two_digits (tm_sec t)"

definition nowString :: "tm \<Rightarrow> string" where
  "nowString t = timestamp t"

text \<open>The ticks of \<open>system_clock\<close> are nanoseconds; \<open>duration_cast\<close> rounds towards zero.\<close>

definition nowSec :: "int \<Rightarrow> u64" where
  "nowSec ticks = of_int (if ticks < 0 then - (- ticks div 10 ^ 9) else ticks div 10 ^ 9)"

section \<open>The logger\<close>

datatype log_level = Debug | Info | Warn | Error

definition level_value :: "log_level \<Rightarrow> int" where
  "level_value l = (case l of Debug \<Rightarrow> 0 | Info \<Rightarrow> 1 | Warn \<Rightarrow> 2 | Error \<Rightarrow> 3)"

definition levelName :: "log_level \<Rightarrow> string" where
  "levelName l = (case l of Debug \<Rightarrow> ''DEBUG'' | Info \<Rightarrow> ''INFO'' | Warn \<Rightarrow> ''WARN'' | Error \<Rightarrow> ''ERROR'')"

record ('r, 'm, 'f) logger = "('r, 'm, 'f) world" +
  lg_file :: string
  lg_level :: log_level
  lg_stdout :: string

text \<open>\<open>Logger()\<close>.\<close>

definition newLogger :: "('r, 'm, 'f) world \<Rightarrow> ('r, 'm, 'f) logger" where
  "newLogger w = world.extend w (logger.fields [] Info [])"

definition setFile :: "('r, 'm, 'f) env \<Rightarrow> string \<Rightarrow> (('r, 'm, 'f) logger, unit) cpp" where
  "setFile A path =
     bindE (modify (\<lambda>s. s\<lparr>lg_file := path\<rparr>)) (\<lambda>_.
     let dir = parentDir path in
     if dir \<noteq> [] then bindE (ensureDir A dir) (\<lambda>_. return ()) else return ())"

definition setLevel :: "log_level \<Rightarrow> (('r, 'm, 'f) logger, unit) cpp" where
  "setLevel l = modify (\<lambda>s. s\<lparr>lg_level := l\<rparr>)"

definition log_text :: "tm \<Rightarrow> log_level \<Rightarrow> string \<Rightarrow> string" where
  "log_text now l msg = timestamp now @ '' ['' @ levelName l @ ''] '' @ msg @ [CHR 0x0A]"

text \<open>\<open>Logger::log\<close>: \<open>std::fputs\<close> writes the line up to its first NUL, the file stream all of it.
  \<open>append\<close> does nothing when the file cannot be opened.\<close>

definition log :: "(string \<Rightarrow> string \<Rightarrow> 'f \<Rightarrow> 'f) \<Rightarrow> tm \<Rightarrow> log_level \<Rightarrow> string \<Rightarrow> (('r, 'm, 'f) logger, unit) cpp" where
  "log append_file now l msg =
     bindE (gets lg_level) (\<lambda>least.
     if level_value l < level_value least then return ()
     else
       let line = log_text now l msg in
       bindE (modify (\<lambda>s. s\<lparr>lg_stdout := lg_stdout s @ c_str line\<rparr>)) (\<lambda>_.
       bindE (gets lg_file) (\<lambda>f.
       if f \<noteq> [] then modify (\<lambda>s. s\<lparr>w_os := append_file (c_str f) line (w_os s)\<rparr>) else return ())))"

definition logDebug :: "(string \<Rightarrow> string \<Rightarrow> 'f \<Rightarrow> 'f) \<Rightarrow> tm \<Rightarrow> string \<Rightarrow> (('r, 'm, 'f) logger, unit) cpp" where
  "logDebug append_file now msg = log append_file now Debug msg"

definition logInfo :: "(string \<Rightarrow> string \<Rightarrow> 'f \<Rightarrow> 'f) \<Rightarrow> tm \<Rightarrow> string \<Rightarrow> (('r, 'm, 'f) logger, unit) cpp" where
  "logInfo append_file now msg = log append_file now Info msg"

definition logWarn :: "(string \<Rightarrow> string \<Rightarrow> 'f \<Rightarrow> 'f) \<Rightarrow> tm \<Rightarrow> string \<Rightarrow> (('r, 'm, 'f) logger, unit) cpp" where
  "logWarn append_file now msg = log append_file now Warn msg"

definition logError :: "(string \<Rightarrow> string \<Rightarrow> 'f \<Rightarrow> 'f) \<Rightarrow> tm \<Rightarrow> string \<Rightarrow> (('r, 'm, 'f) logger, unit) cpp" where
  "logError append_file now msg = log append_file now Error msg"

section \<open>The text of the time\<close>

text \<open>The fields \<open>localtime_r\<close> gives; a second may be the 60th.\<close>

definition tm_ok :: "tm \<Rightarrow> bool" where
  "tm_ok t \<longleftrightarrow> \<bar>tm_year t\<bar> < 2 ^ 31 \<and> tm_mon t \<in> {0..11} \<and> tm_mday t \<in> {1..31} \<and> tm_hour t \<in> {0..23} \<and>
     tm_min t \<in> {0..59} \<and> tm_sec t \<in> {0..60}"

lemma to_string_nat_length: "n < 10 ^ Suc k \<Longrightarrow> length (to_string_nat n) \<le> Suc k"
proof (induction k arbitrary: n)
  case 0
  then show ?case by (subst to_string_nat.simps) simp
next
  case (Suc k)
  have "length (to_string_nat (n div 10)) \<le> Suc k" using Suc.prems by (intro Suc.IH) (simp add: less_mult_imp_div_less)
  then show ?case by (subst to_string_nat.simps) simp
qed

lemma to_string_int_length: "\<bar>i\<bar> < 10 ^ Suc k \<Longrightarrow> length (to_string_int i) \<le> k + 2"
  using to_string_nat_length [of "nat \<bar>i\<bar>" k] by (cases "i < 0") (simp_all add: to_string_int_def nat_less_iff)

lemma two_digits_length: "i \<in> {0..60} \<Longrightarrow> length (two_digits i) = 2"
proof -
  assume "i \<in> {0..60}"
  then have "nat i < 10 ^ Suc 1" "0 \<le> i" by auto
  then show ?thesis
    by (auto simp: two_digits_def to_string_int_def to_string_nat.simps [of "nat i"] to_string_nat.simps [of "nat i div 10"])
qed

lemma two_digits_eq:
  assumes "0 \<le> i" and "0 \<le> j"
  shows "two_digits i = two_digits j \<longleftrightarrow> i = j"
proof -
  have zero: "char_code CHR ''0'' - 48 = 0" by code_simp
  have "digits_value (two_digits i) = nat i" if "0 \<le> i" for i
    using that to_string_nat_digits [of "nat i"] by (simp add: two_digits_def to_string_int_def digits_value_def zero)
  then show ?thesis using assms by (metis eq_nat_nat_iff)
qed

text \<open>The text fits the buffer of 32 bytes, and tells any two times apart.\<close>

lemma timestamp_fits: "tm_ok t \<Longrightarrow> length (timestamp t) < 32"
proof -
  assume t: "tm_ok t"
  then have "\<bar>tm_year t + 1900\<bar> < 10 ^ Suc 9" unfolding tm_ok_def by auto
  from to_string_int_length [OF this] t show ?thesis
    by (simp add: timestamp_def tm_ok_def two_digits_length)
qed

lemma timestamp_inj:
  assumes "tm_ok t" and "tm_ok t'" and "timestamp t = timestamp t'"
  shows "t = t'"
proof -
  have f: "length (two_digits (tm_mon x + 1)) = 2" "length (two_digits (tm_mday x)) = 2" "length (two_digits (tm_hour x)) = 2"
    "length (two_digits (tm_min x)) = 2" "length (two_digits (tm_sec x)) = 2" if "tm_ok x" for x
    using that by (simp_all add: tm_ok_def two_digits_length)
  have len: "length (timestamp x) = length (to_string_int (tm_year x + 1900)) + 15" if "tm_ok x" for x
    using f [OF that] by (simp add: timestamp_def)
  have "length (to_string_int (tm_year t + 1900)) = length (to_string_int (tm_year t' + 1900))"
    using len [OF assms(1)] len [OF assms(2)] assms(3) by simp
  then have "to_string_int (tm_year t + 1900) = to_string_int (tm_year t' + 1900) \<and>
      two_digits (tm_mon t + 1) = two_digits (tm_mon t' + 1) \<and> two_digits (tm_mday t) = two_digits (tm_mday t') \<and>
      two_digits (tm_hour t) = two_digits (tm_hour t') \<and> two_digits (tm_min t) = two_digits (tm_min t') \<and>
      two_digits (tm_sec t) = two_digits (tm_sec t')"
    using assms(3) f [OF assms(1)] f [OF assms(2)] by (simp add: timestamp_def)
  then show ?thesis using assms(1,2)
    by (intro tm.equality) (simp_all add: tm_ok_def to_string_int_inj two_digits_eq)
qed

section \<open>What is written\<close>

text \<open>The levels in the order of their values.\<close>

instantiation log_level :: linorder
begin

definition less_eq_log_level :: "log_level \<Rightarrow> log_level \<Rightarrow> bool" where
  "less_eq_log_level l l' \<longleftrightarrow> level_value l \<le> level_value l'"

definition less_log_level :: "log_level \<Rightarrow> log_level \<Rightarrow> bool" where
  "less_log_level l l' \<longleftrightarrow> level_value l < level_value l'"

instance
proof
  fix l l' :: log_level
  show "l \<le> l' \<Longrightarrow> l' \<le> l \<Longrightarrow> l = l'"
    by (cases l; cases l') (simp_all add: less_eq_log_level_def level_value_def)
qed (auto simp: less_eq_log_level_def less_log_level_def)

end

text \<open>A message below the level leaves no trace; any other adds one line, and logging never fails.\<close>

lemma log_below: "l < lg_level s \<Longrightarrow> log append_file now l msg s = (Ret (), s)"
  by (simp add: log_def bindE_def Let_def less_log_level_def)

lemma log_line:
  "lg_level s \<le> l \<Longrightarrow> log append_file now l msg s = (Ret (), s\<lparr>lg_stdout := lg_stdout s @ c_str (log_text now l msg),
     w_os := if lg_file s = [] then w_os s else append_file (c_str (lg_file s)) (log_text now l msg) (w_os s)\<rparr>)"
  by (simp add: log_def bindE_def Let_def less_eq_log_level_def)

lemma default_level: "lg_level (newLogger w) \<le> l \<longleftrightarrow> l \<noteq> Debug"
  by (cases l) (simp_all add: newLogger_def less_eq_log_level_def level_value_def world.defs logger.defs)

text \<open>A sequence of messages: the lines of those at the level or above, in order.\<close>

lemma log_sequence:
  "\<exists>s'. forE ms (\<lambda>(now, l, msg). log append_file now l msg) s = (Ret (), s') \<and> lg_level s' = lg_level s \<and>
     lg_stdout s' = lg_stdout s @ concat (map (\<lambda>(now, l, msg). c_str (log_text now l msg)) (filter (\<lambda>(now, l, msg). lg_level s \<le> l) ms))"
proof (induction ms arbitrary: s)
  case (Cons m ms)
  obtain now l msg where m: "m = (now, l, msg)" by (cases m)
  show ?case
  proof (cases "lg_level s \<le> l")
    case True
    let ?s = "s\<lparr>lg_stdout := lg_stdout s @ c_str (log_text now l msg),
      w_os := if lg_file s = [] then w_os s else append_file (c_str (lg_file s)) (log_text now l msg) (w_os s)\<rparr>"
    have "forE (m # ms) (\<lambda>(now, l, msg). log append_file now l msg) s = forE ms (\<lambda>(now, l, msg). log append_file now l msg) ?s"
      using log_line [OF True, of append_file now msg] by (simp add: m bindE_run)
    with Cons.IH [of ?s] True show ?thesis by (auto simp: m)
  next
    case False
    then have "log append_file now l msg s = (Ret (), s)" by (simp add: log_below)
    with Cons.IH [of s] False show ?thesis by (auto simp: m bindE_run)
  qed
qed simp

end
