(* ===== verification/Delivery_Facts.thy ===== *)
theory Delivery_Facts
  imports Transfer_Properties Object_Copy Client_Facts
begin

text \<open>
  One file on its way through the server: \<open>upload_begin\<close>, the chunks of the client, \<open>upload_end\<close> with
  its checks and the publication of the object, \<open>download_begin\<close> and the chunks of the download. The
  locale \<open>disk_service\<close> extends the laws of \<open>Object_Copy\<close> by those of the other calls on regular
  files; reads may be short and every call may fail. \<open>delivery\<close> puts it together with the laws of
  Redis, of the index and of the digests; \<open>Round_Trip\<close> interprets it and states the property.
\<close>

section \<open>The delivery of a file\<close>

text \<open>The chunks of an upload, and a download that asks for \<open>len\<close> bytes at a time until it gets none,
  at most \<open>n\<close> times.\<close>

definition write_chunks :: "('r, 'm, 'f) env \<Rightarrow> (u64 \<times> string) list \<Rightarrow> (('r, 'm, 'f, 'z) tstate_scheme, unit) cpp" where
  "write_chunks A cs = forE cs (\<lambda>(off, d). writeChunk A off d (of_nat (length d)))"

fun read_from :: "('r, 'm, 'f) env \<Rightarrow> u32 \<Rightarrow> nat \<Rightarrow> u64 \<Rightarrow> (('r, 'm, 'f, 'z) tstate_scheme, string) cpp" where
  "read_from A len 0 off = return []"
| "read_from A len (Suc n) off =
     bindE (readChunk A off len) (\<lambda>b.
     if b = [] then return []
     else bindE (read_from A len n (off + of_nat (length b))) (\<lambda>rest. return (b @ rest)))"

text \<open>A whole delivery: the upload of \<open>total\<close> bytes under the digest \<open>m\<close>, in the chunks the client makes
  from the position the server asks for, and the download of the same path.\<close>

definition deliver :: "('r, 'm, 'f) env \<Rightarrow> user_session \<Rightarrow> string \<Rightarrow> string \<Rightarrow> string \<Rightarrow> u64 \<Rightarrow>
    (u64 \<Rightarrow> (u64 \<times> string) list) \<Rightarrow> u32 \<Rightarrow> nat \<Rightarrow> (('r, 'm, 'f, 'z) tstate_scheme, string) cpp" where
  "deliver A ses dest p m whole chunks len n =
     bindE (open_upload A ses dest p m whole) (\<lambda>_.
     bindE (gets (\<lambda>w. us_received (upload w))) (\<lambda>r.
     bindE (write_chunks A (chunks r)) (\<lambda>_.
     bindE (finishUpload A ses) (\<lambda>_.
     bindE (open_download A ses p) (\<lambda>_.
     read_from A len n 0)))))"

text \<open>How a client cuts the rest of a file into chunks.\<close>

definition cuts :: "string \<Rightarrow> (u64 \<Rightarrow> (u64 \<times> string) list) \<Rightarrow> bool" where
  "cuts content chunks \<longleftrightarrow> (\<forall>r. unat r \<le> length content \<longrightarrow> consecutive r (chunks r) \<and>
     concat (map snd (chunks r)) = drop (unat r) content \<and> (\<forall>(off, d) \<in> set (chunks r). length d < 2 ^ 32))"

text \<open>The part file an earlier attempt left, if there is one, is a beginning of the file.\<close>

definition resumes :: "string \<Rightarrow> string option \<Rightarrow> bool" where
  "resumes content had \<longleftrightarrow> (\<forall>y. had = Some y \<longrightarrow> take (length y) content = y)"

section \<open>Rules\<close>

lemma tripleD: "triple P m Q E \<Longrightarrow> P s \<Longrightarrow>
   case m s of (Ret x, t) \<Rightarrow> Q x t | (Raise e, t) \<Rightarrow> E t | (Blocked, t) \<Rightarrow> True | (Undef, t) \<Rightarrow> True"
  by (simp only: triple_def)

lemma triple_gets_bind:
  "(\<And>x. B x \<Longrightarrow> triple P (k x) Q E) \<Longrightarrow> (\<And>w. P' w \<Longrightarrow> P w \<and> B (g w)) \<Longrightarrow> triple P' (bindE (gets g) k) Q E"
  by (auto simp: triple_def bindE_def)

lemma triple_ex:
  assumes "\<And>z. B z \<Longrightarrow> triple (P z) m Q E"
  shows "triple (\<lambda>w. \<exists>z. P z w \<and> B z) m Q E"
  unfolding triple_def
proof (intro allI impI, elim exE conjE)
  fix s z
  assume "P z s" and "B z"
  from tripleD [OF assms [OF this(2)] this(1)]
  show "case m s of (Ret x, t) \<Rightarrow> Q x t | (Raise e, t) \<Rightarrow> E t | (Blocked, t) \<Rightarrow> True | (Undef, t) \<Rightarrow> True" .
qed

lemma bindE_gets: "bindE (gets g) k w = k (g w) w"
  by (simp add: bindE_def)

section \<open>The disk\<close>

text \<open>The laws of the calls on regular files that a delivery makes beside those of \<open>file_service\<close>.
  \<open>plain\<close> holds of the paths that only ever name regular files: those of the objects and the part
  files.\<close>

locale disk_service = file_service P files fds
  for P :: "'f posix" and files :: "'f \<Rightarrow> string \<Rightarrow> string option" and fds :: "'f \<Rightarrow> int \<Rightarrow> (string \<times> nat) option" +
  fixes plain :: "string \<Rightarrow> bool"
  assumes open_create: "os_open P p O_RDWR_CREAT f = (Inr fd, f') \<Longrightarrow> plain p \<Longrightarrow>
      files f' = (files f)(p \<mapsto> case files f p of None \<Rightarrow> [] | Some c \<Rightarrow> c) \<and> fds f' = (fds f)(fd \<mapsto> (p, 0))"
    and open_missing: "plain p \<Longrightarrow> files f p = None \<Longrightarrow> fst (os_open P p O_RDONLY f) \<noteq> Inr fd"
    and lstat_plain: "plain p \<Longrightarrow> os_lstat P p f \<noteq> None \<longleftrightarrow> files f p \<noteq> None"
    and stat_file: "files f p = Some c \<Longrightarrow> \<exists>st. os_stat P p f = Some st \<and> st_size st = int (length c)"
    and fstat_file: "os_fstat P fd f = Some st \<Longrightarrow> fds f fd = Some (p, n) \<Longrightarrow> files f p = Some c \<Longrightarrow>
      st_size st = int (length c)"
    and stream_file: "files f p = Some c \<Longrightarrow> ifs_bytes P p f = Some c"
    and unlink_file: "files (snd (os_unlink P p f)) = (files f)(p := None) \<or> files (snd (os_unlink P p f)) = files f"
    and chmod_quiet: "files (snd (os_chmod P p mode f)) = files f"
    and random_quiet: "files (snd (os_random P k f)) = files f"
    and truncate_file: "fds f fd = Some (p, n) \<Longrightarrow> files f p = Some c \<Longrightarrow> os_ftruncate P fd 0 f = (r, f') \<Longrightarrow>
      fds f' = fds f \<and> files f' = (if r = None then (files f)(p \<mapsto> []) else files f)"
    and pwrite_file: "os_pwrite P fd d (int k) f = (Some (length d), f') \<Longrightarrow> fds f fd = Some (p, n) \<Longrightarrow> files f p = Some c \<Longrightarrow>
      k \<le> length c \<Longrightarrow> fds f' = fds f \<and> files f' = (files f)(p \<mapsto> take k c @ d @ drop (k + length d) c)"
    and pread_file: "os_pread P fd k (int off) f = Some d \<Longrightarrow> fds f fd = Some (p, n) \<Longrightarrow> files f p = Some c \<Longrightarrow>
      length d \<le> k \<and> d = take (length d) (drop off c) \<and> (d = [] \<longrightarrow> k = 0 \<or> length c \<le> off)"

locale delivery = content_env A strs sets fi ck fits ceq S + disk_service "os A" files fds plain + digest_env A dg
  for A :: "('r, 'm, 'f) env" and strs :: "'r \<Rightarrow> string \<Rightarrow> string option"
    and sets :: "'r \<Rightarrow> string \<Rightarrow> string set"
    and fi :: "'m \<Rightarrow> int \<times> string \<Rightarrow> indexed_file option"
    and ck :: "string \<Rightarrow> string" and fits :: "string \<Rightarrow> string \<Rightarrow> bool"
    and ceq :: "char \<Rightarrow> char \<Rightarrow> bool" and S :: "string set"
    and files :: "'f \<Rightarrow> string \<Rightarrow> string option" and fds :: "'f \<Rightarrow> int \<Rightarrow> (string \<times> nat) option"
    and plain :: "string \<Rightarrow> bool" and dg :: "digest_alg \<Rightarrow> string \<Rightarrow> u8 list"
begin

sublocale copier: file_env A files fds
  by unfold_locales

text \<open>Assertions on the files, kept by whatever removes files.\<close>

abbreviation "on_files F w \<equiv> live w \<and> F (files (w_os w))"

definition shrinking :: "((string \<Rightarrow> string option) \<Rightarrow> bool) \<Rightarrow> bool" where
  "shrinking F \<longleftrightarrow> (\<forall>g p. F g \<longrightarrow> F (g(p := None)))"

lemma d_gets: "triple (on_files F) (fileExists A p) (\<lambda>_. on_files F) E" "triple (on_files F) (fileSize A p) (\<lambda>_. on_files F) E"
  by (simp_all add: triple_def fileExists_def fileSize_def)

lemma d_lookup: "triple (on_files F) (lookupFile A u p) (\<lambda>_. on_files F) E"
proof (rule triple_runI)
  fix w :: "('r, 'm, 'f, 'z) world_scheme"
  assume "on_files F w"
  then show "(\<exists>t. lookupFile A u p w = (Blocked, t)) \<or> (\<exists>x t. lookupFile A u p w = (Ret x, t) \<and> on_files F t)"
    by (cases "idle_conns w = []") (simp_all add: lookupFile_def [symmetric] lookupFile_run, simp add: lookupFile_def with_conn_blocked)
qed

lemma d_unindex: "triple (on_files F) (unindex A u p) (\<lambda>_. on_files F) E"
proof (rule triple_runI)
  fix w :: "('r, 'm, 'f, 'z) world_scheme"
  assume "on_files F w"
  then show "(\<exists>t. unindex A u p w = (Blocked, t)) \<or> (\<exists>x t. unindex A u p w = (Ret x, t) \<and> on_files F t)"
    by (cases "idle_conns w = []") (simp_all add: unindex_run, simp add: unindex_def with_conn_blocked)
qed

lemma d_redis:
  "triple (on_files F) (getPathMd5 A u p) (\<lambda>_. on_files F) E" "triple (on_files F) (removeRef A m u p) (\<lambda>_. on_files F) E"
  "triple (on_files F) (getObjectPath A m) (\<lambda>_. on_files F) E" "triple (on_files F) (deleteObjectMeta A m) (\<lambda>_. on_files F) E"
  by (simp_all add: triple_def store_runs)

lemma d_chmod: "triple (on_files F) (on_os (os_chmod (os A) p k)) (\<lambda>_. on_files F) E"
  by (simp add: triple_def on_os_run chmod_quiet)

lemma d_unlink: "shrinking F \<Longrightarrow> triple (on_files F) (unlink A p) (\<lambda>_. on_files F) E"
  by (simp add: triple_def unlink_def on_os_run) (metis unlink_file shrinking_def)

lemma d_gc:
  assumes "shrinking F"
  shows "triple (on_files F) (gcObject A m) (\<lambda>_. on_files F) (\<lambda>_. True)"
  unfolding gcObject_def resolveObjectPath_def
  by (rule triple_bind, rule triple_bind [OF d_redis(3)], rule triple_if, rule triple_return, assumption,
      rule triple_liftS, simp, assumption, rule triple_bind [OF d_gets(1)],
      rule triple_bind [where R = "\<lambda>_. on_files F"], rule triple_if, rule triple_bind [OF d_chmod],
      rule triple_bind [OF d_unlink [OF assms]], (rule triple_return, assumption)+, rule d_redis)

lemma d_release:
  assumes "shrinking F"
  shows "triple (on_files F) (releaseContentRef A u p) (\<lambda>_. on_files F) (\<lambda>_. True)"
  unfolding releaseContentRef_def contentMd5_def
  by (rule triple_bind, rule triple_bind [OF d_redis(1)], rule triple_if, rule triple_bind [OF d_lookup],
      (rule triple_return, assumption)+, rule triple_bind [where R = "\<lambda>_. on_files F"], rule triple_if,
      rule triple_bind [OF d_redis(2)], rule triple_if, rule d_gc [OF assms], (rule triple_return, assumption)+,
      rule d_unindex)

lemma d_frame:
  fixes m :: "(('r, 'm, 'f, 'z) world_scheme, 'x) cpp"
  assumes "os_frame m" and "triple P m Q E"
  shows "triple (\<lambda>w. live w \<and> P w) m (\<lambda>x w. live w \<and> Q x w) E"
  unfolding triple_def
proof (intro allI impI)
  fix w :: "('r, 'm, 'f, 'z) world_scheme"
  assume w: "live w \<and> P w"
  obtain r f where m: "m w = (r, w\<lparr>w_os := f\<rparr>)" using assms(1) unfolding os_frame_def by blast
  show "case m w of (Ret x, t) \<Rightarrow> live t \<and> Q x t | (Raise e, t) \<Rightarrow> E t | (Blocked, t) \<Rightarrow> True | (Undef, t) \<Rightarrow> True"
    using w m triple_Ret [OF assms(2), of w] triple_Raise [OF assms(2), of w] by (cases r) auto
qed

lemma d_ensureDir: "triple (on_files F) (ensureDir A q) (\<lambda>_. on_files F) E"
proof (rule d_frame [OF os_frame_utils(3)], rule triple_runI)
  fix w :: "('r, 'm, 'f, 'z) world_scheme"
  assume "F (files (w_os w))"
  moreover obtain b f where e: "ensureDir A q w = (Ret b, w\<lparr>w_os := f\<rparr>)" using ensureDir_frame [of A q w] by blast
  ultimately show "(\<exists>t. ensureDir A q w = (Blocked, t)) \<or> (\<exists>x t. ensureDir A q w = (Ret x, t) \<and> F (files (w_os t)))"
    using ensureDir_files [OF refl e] by simp
qed

lemma d_stat: "files (w_os w) (c_str q) = Some y \<Longrightarrow> fileSize A q w = (Ret (of_nat (length y)), w)"
  using stat_file [of "w_os w" "c_str q" y] by (auto simp: fileSize_run)

lemma d_exists: "plain (c_str q) \<Longrightarrow> fileExists A q w = (Ret (files (w_os w) (c_str q) \<noteq> None), w)"
  using lstat_plain [of "c_str q" "w_os w"] by (simp only: fileExists_run)

text \<open>The copy, whether or not its source is still there.\<close>

lemma d_copy:
  assumes "plain (c_str src)" and "c_str src \<noteq> c_str obj" and "length c < loop_bound A"
  shows "triple (on_files (\<lambda>g. g (c_str src) = None \<or> g (c_str src) = Some c)) (copyToObjectStore A src obj n)
    (\<lambda>_. on_files (\<lambda>g. g (c_str obj) = Some c)) (\<lambda>_. True)"
proof (rule d_frame [OF os_frame_copyToObjectStore])
  have gone: "fst (copyToObjectStore A src obj n w) \<in> range Raise" if none: "files (w_os w) (c_str src) = None"
    for w :: "('r, 'm, 'f, 'z) world_scheme"
  proof -
    obtain e where "fst (os_open (os A) (c_str src) O_RDONLY (w_os w)) = Inl e"
      using open_missing [OF assms(1) none] by (cases "fst (os_open (os A) (c_str src) O_RDONLY (w_os w))") auto
    then show ?thesis unfolding copyToObjectStore_def by (simp add: bindE_run(1) [OF on_os_run])
  qed
  show "triple (\<lambda>w :: ('r, 'm, 'f, 'z) world_scheme. files (w_os w) (c_str src) = None \<or> files (w_os w) (c_str src) = Some c)
      (copyToObjectStore A src obj n) (\<lambda>_ w. files (w_os w) (c_str obj) = Some c) (\<lambda>_. True)"
    unfolding triple_def
  proof (intro allI impI)
    fix w :: "('r, 'm, 'f, 'z) world_scheme"
    assume "files (w_os w) (c_str src) = None \<or> files (w_os w) (c_str src) = Some c"
    then show "case copyToObjectStore A src obj n w of (Ret x, t) \<Rightarrow> files (w_os t) (c_str obj) = Some c
        | (Raise e, t) \<Rightarrow> True | (Blocked, t) \<Rightarrow> True | (Undef, t) \<Rightarrow> True"
      using gone [of w] totalD [OF copier.copyToObjectStore_total [OF assms(3,2)], of w n]
      by (auto split: prod.splits outcome.splits)
  qed
qed

text \<open>What \<open>publishObject\<close> leaves: an object that was there with the announced size, or a copy of the
  source, and its entry.\<close>

definition published :: "string \<Rightarrow> string option \<Rightarrow> string \<Rightarrow> string \<Rightarrow> ('r, 'm, 'f, 'z) world_scheme \<Rightarrow> bool" where
  "published c old m obj w \<longleftrightarrow> live w \<and> strs (w_redis w) (objKey (c_str m)) = Some obj \<and>
     (\<exists>y. files (w_os w) (c_str obj) = Some y \<and> (y = c \<or> old = Some y \<and> length y = length c))"

lemma d_setObject:
  assumes "\<And>w. P w \<Longrightarrow> live w \<and> (\<exists>y. files (w_os w) (c_str obj) = Some y \<and> (y = c \<or> old = Some y \<and> length y = length c))"
  shows "triple P (setObject A m obj n) (\<lambda>_. published c old m obj) E"
  using assms by (fastforce simp: triple_def store_runs published_def)

lemma d_publish:
  assumes "objectPathFor A m = Inr obj" and "plain (c_str src)" and "plain (c_str obj)" and "c_str src \<noteq> c_str obj"
    and "length c < loop_bound A" and "length c < 2 ^ 64" and "\<forall>y. old = Some y \<longrightarrow> length y < 2 ^ 64"
  shows "triple (on_files (\<lambda>g. (g (c_str src) = None \<or> g (c_str src) = Some c) \<and> (g (c_str obj) = None \<or> g (c_str obj) = old)))
    (publishObject A m src (of_nat (length c))) (\<lambda>_. published c old m obj) (\<lambda>_. True)"
proof -
  let ?F = "\<lambda>g. (g (c_str src) = None \<or> g (c_str src) = Some c) \<and> (g (c_str obj) = None \<or> g (c_str obj) = old)"
  let ?same = "\<lambda>w :: ('r, 'm, 'f, 'z) world_scheme. live w \<and> (\<exists>y. files (w_os w) (c_str obj) = Some y \<and> old = Some y \<and> length y = length c)"
  have test: "triple (on_files ?F) (bindE (fileExists A obj) (\<lambda>there.
      if there then bindE (fileSize A obj) (\<lambda>k. return (k = of_nat (length c))) else return False))
      (\<lambda>same w :: ('r, 'm, 'f, 'z) world_scheme. on_files ?F w \<and> (same \<longrightarrow> ?same w)) (\<lambda>_. True)"
  proof (rule triple_runI, rule disjI2)
    fix w :: "('r, 'm, 'f, 'z) world_scheme"
    assume w: "on_files ?F w"
    show "\<exists>x t. bindE (fileExists A obj) (\<lambda>there.
        if there then bindE (fileSize A obj) (\<lambda>k. return (k = of_nat (length c))) else return False) w = (Ret x, t) \<and>
        on_files ?F t \<and> (x \<longrightarrow> ?same t)"
    proof (cases "files (w_os w) (c_str obj)")
      case None
      then show ?thesis using w by (simp add: bindE_run(1) [OF d_exists [OF assms(3)]] ex_bool_eq)
    next
      case (Some y)
      then have "old = Some y" using w by simp
      then have "(of_nat (length y) :: u64) = of_nat (length c) \<longleftrightarrow> length y = length c"
        using assms(6,7) by (auto simp: word_unat_eq_iff unat_of_nat)
      then show ?thesis using w Some \<open>old = Some y\<close>
        by (simp add: bindE_run d_exists [OF assms(3)] d_stat [OF Some])
    qed
  qed
  have eq: "publishObject A m src (of_nat (length c)) = bindE (bindE (fileExists A obj) (\<lambda>there.
      if there then bindE (fileSize A obj) (\<lambda>k. return (k = of_nat (length c))) else return False)) (\<lambda>same.
      if same then setObject A m obj (of_nat (length c))
      else bindE (ensureDir A (parentDir obj)) (\<lambda>_.
        bindE (copyToObjectStore A src obj (of_nat (length c))) (\<lambda>_.
        bindE (on_os (os_chmod (os A) (c_str obj) 0x124)) (\<lambda>_. setObject A m obj (of_nat (length c))))))"
    by (simp add: publishObject_def assms(1) liftS_def bindE_assoc)
  show ?thesis
    unfolding eq
  proof (rule triple_bind [OF test], rule triple_if)
    fix same
    assume "same"
    then show "triple (\<lambda>w :: ('r, 'm, 'f, 'z) world_scheme. on_files ?F w \<and> (same \<longrightarrow> ?same w)) (setObject A m obj (of_nat (length c)))
        (\<lambda>_. published c old m obj) (\<lambda>_. True)"
      by (intro d_setObject) auto
  next
    fix same
    let ?src = "\<lambda>g. g (c_str src) = None \<or> g (c_str src) = Some c"
    show "triple (\<lambda>w :: ('r, 'm, 'f, 'z) world_scheme. on_files ?F w \<and> (same \<longrightarrow> ?same w)) (bindE (ensureDir A (parentDir obj)) (\<lambda>_.
        bindE (copyToObjectStore A src obj (of_nat (length c))) (\<lambda>_.
        bindE (on_os (os_chmod (os A) (c_str obj) 0x124)) (\<lambda>_. setObject A m obj (of_nat (length c))))))
        (\<lambda>_. published c old m obj) (\<lambda>_. True)"
      by (rule triple_bind [OF triple_pre [OF d_ensureDir [of ?src]]], simp,
          rule triple_bind [OF d_copy [OF assms(2,4,5)]], rule triple_bind [OF d_chmod], rule d_setObject, simp)
  qed
qed

text \<open>The end of an upload: the part file \<open>c\<close> has passed the checks, its path names the digest, and
  the digest's object is there.\<close>

definition stored :: "string \<Rightarrow> string option \<Rightarrow> string \<Rightarrow> string \<Rightarrow> int \<Rightarrow> string \<Rightarrow> ('r, 'm, 'f, 'z) world_scheme \<Rightarrow> bool" where
  "stored c old m obj u p w \<longleftrightarrow> published c old m obj w \<and> strs (w_redis w) (pathKey u (c_str p)) = Some m"

lemma d_addContentRef:
  assumes "p \<in> S" and "length m \<le> 32"
  shows "triple (published c old m obj) (addContentRef A u p m n) (\<lambda>_. stored c old m obj u p) E"
proof (rule triple_runI)
  fix w :: "('r, 'm, 'f, 'z) world_scheme"
  assume w: "published c old m obj w"
  show "(\<exists>t. addContentRef A u p m n w = (Blocked, t)) \<or>
      (\<exists>x t. addContentRef A u p m n w = (Ret x, t) \<and> stored c old m obj u p t)"
  proof (cases "idle_conns w = []")
    case True
    then show ?thesis using w
      by (simp add: addContentRef_def published_def bindE_run store_runs indexFile_def with_conn_blocked)
  next
    case False
    then have "up w" using w by (simp add: published_def)
    then show ?thesis using addContentRef_run [OF _ room [OF assms], of w u n] w
      by (fastforce simp: published_def stored_def)
  qed
qed

lemma d_unlink_part:
  assumes "c_str q \<noteq> c_str obj"
  shows "triple (published c old m obj) (unlink A q) (\<lambda>_. published c old m obj) E"
  using unlink_file [of "c_str q"] assms
  by (auto simp: triple_def unlink_def on_os_run published_def) (metis fun_upd_other)+

lemma d_flush: "triple (on_files F) (on_os (\<lambda>f. ((), os_fsync (os A) fd f))) (\<lambda>_. on_files F) E"
  "triple (on_files F) (close_fd A fd) (\<lambda>_. on_files F) E"
  by (simp_all add: triple_def close_fd_def on_os_run quiet)

lemma d_make_room:
  assumes "shrinking F"
  shows "triple (on_files F) (if b then releaseContentRef A u p
    else bindE (fileExists A dest) (\<lambda>ex. if ex then bindE (unlink A dest) (\<lambda>_. return ()) else return ())) (\<lambda>_. on_files F) (\<lambda>_. True)"
  by (rule triple_if, rule d_release [OF assms], rule triple_bind [OF d_gets(1)], rule triple_if,
      rule triple_bind [OF d_unlink [OF assms]], (rule triple_return, assumption)+)

lemma d_finish_tail:
  assumes "objectPathFor A m = Inr obj" and "plain (c_str part)" and "plain (c_str obj)" and "c_str part \<noteq> c_str obj"
    and "length c < loop_bound A" and "length c < 2 ^ 64" and "\<forall>y. old = Some y \<longrightarrow> length y < 2 ^ 64"
    and "p \<in> S" and "length m = 32"
  shows "triple (on_files (\<lambda>g. g (c_str part) = Some c \<and> g (c_str obj) = old))
    (bindE (lookupFile A u p) (\<lambda>info.
     bindE (if (case info of Some i \<Rightarrow> \<not> if_isDir i | None \<Rightarrow> False) then releaseContentRef A u p
            else bindE (fileExists A dest) (\<lambda>ex. if ex then bindE (unlink A dest) (\<lambda>_. return ()) else return ())) (\<lambda>_.
     bindE (publishObject A m part (of_nat (length c))) (\<lambda>_.
     bindE (unlink A part) (\<lambda>_. addContentRef A u p m (of_nat (length c))))))) (\<lambda>_. stored c old m obj u p) (\<lambda>_. True)"
proof -
  let ?F = "\<lambda>g. (g (c_str part) = None \<or> g (c_str part) = Some c) \<and> (g (c_str obj) = None \<or> g (c_str obj) = old)"
  have "shrinking ?F" by (auto simp: shrinking_def)
  note room = d_make_room [OF this]
  have "length m \<le> 32" using assms(9) by simp
  show ?thesis
    by (rule triple_bind [OF triple_pre [OF d_lookup [of ?F]]], simp, rule triple_bind [OF room],
        rule triple_bind [OF d_publish [OF assms(1-7)]], rule triple_bind [OF d_unlink_part [OF assms(4)]],
        rule d_addContentRef [OF assms(8) \<open>length m \<le> 32\<close>])
qed

lemma d_checks:
  assumes "files (w_os w) (c_str q) = Some c"
  shows "fileSize A q w = (Ret (of_nat (length c)), w)" and "md5File A q w = (Ret (md5_text c), w)"
  using d_stat [OF assms] md5File_run [OF stream_file [OF assms]] by simp_all

lemma d_finish:
  assumes "objectPathFor A m = Inr obj" and "plain (c_str part)" and "plain (c_str obj)" and "c_str part \<noteq> c_str obj"
    and "of_nat (length c) = n \<Longrightarrow> length c < loop_bound A" and "length c < 2 ^ 64" and "\<forall>y. old = Some y \<longrightarrow> length y < 2 ^ 64"
    and "p \<in> S" and "length m = 32"
  shows "triple (\<lambda>w :: ('r, 'm, 'f, 'z) tstate_scheme. on_files (\<lambda>g. g (c_str part) = Some c \<and> g (c_str obj) = old) w \<and>
      us_partPath (upload w) = part \<and> us_md5 (upload w) = m \<and> us_virtualPath (upload w) = p \<and> us_totalSize (upload w) = n)
    (finishUpload A ses) (\<lambda>_ w. stored c old m obj (s_userId ses) p w \<and> (md5_text c = m \<and> of_nat (length c) = n)) (\<lambda>_. True)"
proof -
  let ?G = "\<lambda>g. g (c_str part) = Some c \<and> g (c_str obj) = old"
  let ?P = "on_files ?G :: ('r, 'm, 'f, 'z) tstate_scheme \<Rightarrow> bool"
  let ?u = "\<lambda>st. us_partPath st = part \<and> us_md5 st = m \<and> us_virtualPath st = p \<and> us_totalSize st = n"
  let ?Q = "\<lambda>_ w :: ('r, 'm, 'f, 'z) tstate_scheme. stored c old m obj (s_userId ses) p w \<and> (md5_text c = m \<and> of_nat (length c) = n)"
  have sz: "triple ?P (fileSize A part) (\<lambda>k w. ?P w \<and> k = of_nat (length c)) (\<lambda>_. True)"
    and dig: "triple ?P (md5File A part) (\<lambda>r w. ?P w \<and> r = md5_text c) (\<lambda>_. True)"
    by (simp_all add: triple_def d_checks)
  have tail: "triple ?P (bindE (lookupFile A (s_userId ses) p) (\<lambda>info.
      bindE (if (case info of Some i \<Rightarrow> \<not> if_isDir i | None \<Rightarrow> False) then releaseContentRef A (s_userId ses) p
             else bindE (fileExists A dest) (\<lambda>ex. if ex then bindE (unlink A dest) (\<lambda>_. return ()) else return ())) (\<lambda>_.
      bindE (publishObject A m part n) (\<lambda>_.
      bindE (unlink A part) (\<lambda>_. addContentRef A (s_userId ses) p m n))))) ?Q (\<lambda>_. True)"
    if "md5_text c = m" "of_nat (length c) = n" for dest
    using d_finish_tail [OF assms(1-4) assms(5) [OF that(2)] assms(6-), of "s_userId ses" dest] that by simp
  have gone: "triple ?P (bindE (unlink A part) (\<lambda>_. throw e)) ?Q (\<lambda>_. True)" for e
    by (rule triple_bind [where R = "\<lambda>_ _. True"], simp add: triple_def unlink_def on_os_run, rule triple_throw, simp)
  show ?thesis
    unfolding finishUpload_def
  proof (rule triple_gets_bind [where P = ?P and B = ?u], goal_cases)
    case (1 st)
    show ?case
      unfolding 1 [THEN conjunct1] 1 [THEN conjunct2, THEN conjunct1]
        1 [THEN conjunct2, THEN conjunct2, THEN conjunct1] 1 [THEN conjunct2, THEN conjunct2, THEN conjunct2]
      by (rule triple_if, rule triple_throw, simp, rule triple_bind [OF d_flush(1)], rule triple_bind [OF d_flush(2)],
          rule triple_bind [where R = "\<lambda>_. ?P"], rule triple_modify, simp, rule triple_bind [OF sz], rule triple_pure,
          rule triple_if, rule triple_throw, simp, rule triple_bind [OF dig], rule triple_pure, rule triple_if,
          rule gone, rule tail, simp_all)
  qed simp
qed

text \<open>An upload in progress: the part file holds \<open>x\<close> and is open.\<close>

definition receiving :: "string \<Rightarrow> string \<Rightarrow> string option \<Rightarrow> string \<Rightarrow> string \<Rightarrow> u64 \<Rightarrow> string \<Rightarrow> ('r, 'm, 'f, 'z) tstate_scheme \<Rightarrow> bool" where
  "receiving part obj old m p whole x w \<longleftrightarrow> on_files (\<lambda>g. g (c_str part) = Some x \<and> g (c_str obj) = old) w \<and>
     (\<exists>k. fds (w_os w) (us_fd (upload w)) = Some (c_str part, k)) \<and>
     us_partPath (upload w) = part \<and> us_md5 (upload w) = m \<and> us_virtualPath (upload w) = p \<and> us_totalSize (upload w) = whole"

lemma receiving_write:
  assumes "receiving part obj old m p whole x w" and "c_str part \<noteq> c_str obj" and "k \<le> length x"
    and "os_pwrite (os A) (us_fd (upload w)) d (int k) (w_os w) = (Some (length d), f)"
  shows "receiving part obj old m p whole (take k x @ d @ drop (k + length d) x) (w\<lparr>w_os := f\<rparr>)"
  using assms pwrite_file [OF assms(4), of "c_str part" _ x] unfolding receiving_def by auto

lemma sint_of_nat: "k < 2 ^ 63 \<Longrightarrow> sint (of_nat k :: u64) = int k"
  by (simp add: signed_of_nat signed_take_bit_int_eq_self)

lemma d_writeChunk:
  assumes "c_str part \<noteq> c_str obj" and "k \<le> length x" and "k < 2 ^ 63" and "length d < 2 ^ 32"
  shows "triple (receiving part obj old m p whole x :: ('r, 'm, 'f, 'z) tstate_scheme \<Rightarrow> bool) (writeChunk A (of_nat k) d (of_nat (length d)))
    (\<lambda>_. receiving part obj old m p whole (take k x @ d @ drop (k + length d) x)) (\<lambda>_. True)"
proof -
  have len: "unat (of_nat (length d) :: u32) = length d" using assms(4) by (simp add: unat_of_nat)
  let ?Q = "receiving part obj old m p whole (take k x @ d @ drop (k + length d) x)"
  have "case writeChunk A (of_nat k) d (of_nat (length d)) w of (Ret x, t) \<Rightarrow> ?Q t
      | (Raise e, t) \<Rightarrow> True | (Blocked, t) \<Rightarrow> True | (Undef, t) \<Rightarrow> True"
    if w: "receiving part obj old m p whole x w" for w :: "('r, 'm, 'f, 'z) tstate_scheme"
  proof -
    obtain r f where pw: "os_pwrite (os A) (us_fd (upload w)) d (int k) (w_os w) = (r, f)" by fastforce
    show ?thesis
    proof (cases "r = Some (length d)")
      case True
      have "?Q (w\<lparr>w_os := f\<rparr>)" by (rule receiving_write [OF w assms(1,2)]) (use pw True in simp)
      then have "?Q ((w\<lparr>w_os := f\<rparr>)\<lparr>upload := (upload w)\<lparr>us_received := y\<rparr>\<rparr>)" "?Q (w\<lparr>w_os := f\<rparr>)" for y
        by (simp_all add: receiving_def)
      then show ?thesis using True pw assms(3)
        by (simp add: writeChunk_def Let_def bindE_def on_os_def len sint_of_nat)
    next
      case False
      then show ?thesis using pw assms(3) by (simp add: writeChunk_def Let_def bindE_def on_os_def len sint_of_nat)
    qed
  qed
  then show ?thesis by (simp add: triple_def)
qed

lemma d_write_chunks:
  assumes "c_str part \<noteq> c_str obj" and "consecutive (of_nat k) cs" and "\<forall>(off, d) \<in> set cs. length d < 2 ^ 32"
    and "k \<le> length x" and "k + length (concat (map snd cs)) < 2 ^ 63"
  shows "triple (receiving part obj old m p whole x :: ('r, 'm, 'f, 'z) tstate_scheme \<Rightarrow> bool) (write_chunks A cs)
    (\<lambda>_. receiving part obj old m p whole (take k x @ concat (map snd cs) @ drop (k + length (concat (map snd cs))) x)) (\<lambda>_. True)"
  using assms(2-)
proof (induction cs arbitrary: k x)
  case Nil
  then show ?case by (simp add: write_chunks_def triple_def)
next
  case (Cons c cs)
  obtain off d where c: "c = (off, d)" by fastforce
  let ?x = "take k x @ d @ drop (k + length d) x"
  have off: "off = of_nat k" "consecutive (of_nat (k + length d)) cs" using Cons.prems(1) by (simp_all add: c)
  have 1: "triple (receiving part obj old m p whole x :: ('r, 'm, 'f, 'z) tstate_scheme \<Rightarrow> bool) (writeChunk A off d (of_nat (length d)))
      (\<lambda>_. receiving part obj old m p whole ?x) (\<lambda>_. True)"
    unfolding off(1) by (rule d_writeChunk [OF assms(1)]) (use Cons.prems c in auto)
  have k: "k + length d \<le> length ?x" using Cons.prems(3) by simp
  have 2: "triple (receiving part obj old m p whole ?x :: ('r, 'm, 'f, 'z) tstate_scheme \<Rightarrow> bool) (write_chunks A cs)
      (\<lambda>_. receiving part obj old m p whole (take (k + length d) ?x @ concat (map snd cs) @
        drop (k + length d + length (concat (map snd cs))) ?x)) (\<lambda>_. True)"
    by (rule Cons.IH [OF off(2) _ k]) (use Cons.prems c in auto)
  have tk: "take (k + length d) ?x = take k x @ d" using Cons.prems(3) by simp
  have dr: "drop (k + length d + n) ?x = drop (k + length d + n) x" for n
    using Cons.prems(3) by (simp add: add.commute add.left_commute)
  show ?case
    using triple_bind [OF 1, of "\<lambda>_. write_chunks A cs"] 2 unfolding tk dr
    by (simp add: write_chunks_def c add.assoc)
qed

text \<open>The start of an upload: the position the client is told lies within the part file and within the
  announced size; what the part file holds was there before.\<close>

definition started :: "string \<Rightarrow> string \<Rightarrow> string option \<Rightarrow> string option \<Rightarrow> string \<Rightarrow> string \<Rightarrow> u64 \<Rightarrow> upload_session \<Rightarrow> ('r, 'm, 'f, 'z) world_scheme \<Rightarrow> bool" where
  "started part obj had old m p whole u w \<longleftrightarrow> (\<exists>x k. (x = [] \<or> had = Some x) \<and> on_files (\<lambda>g. g (c_str part) = Some x \<and> g (c_str obj) = old) w \<and>
     fds (w_os w) (us_fd u) = Some (c_str part, k) \<and> us_partPath u = part \<and> us_md5 u = m \<and> us_virtualPath u = p \<and>
     us_totalSize u = whole \<and> unat (us_received u) \<le> length x \<and> us_received u \<le> whole \<and> length x < 2 ^ 63)"

lemma d_random: "triple (on_files F) (randomHex A n) (\<lambda>_. on_files F) E"
  by (simp add: triple_def randomHex_def bindE_run(1) [OF on_os_run] random_quiet)

lemma d_beginUpload:
  assumes "partPathFor A ses m dest = part" and "plain (c_str part)" and "c_str part \<noteq> c_str obj"
    and "\<forall>y. had = Some y \<longrightarrow> length y < 2 ^ 63"
  shows "triple (on_files (\<lambda>g. g (c_str obj) = old \<and> g (c_str part) = had))
    (beginUpload A ses dest p m whole) (started part obj had old m p whole) (\<lambda>_. True)"
proof -
  let ?F = "\<lambda>g. g (c_str obj) = old \<and> g (c_str part) = had"
  let ?opened = "\<lambda>i (w :: ('r, 'm, 'f, 'z) world_scheme). case i of Inl _ \<Rightarrow> True
    | Inr fd \<Rightarrow> \<exists>x. on_files (\<lambda>g. g (c_str part) = Some x \<and> g (c_str obj) = old) w \<and> (x = [] \<or> had = Some x) \<and> length x < 2 ^ 63 \<and>
        fds (w_os w) fd = Some (c_str part, 0)"
  have opens: "triple (on_files ?F) (on_os (os_open (os A) (c_str part) O_RDWR_CREAT)) ?opened (\<lambda>_. True)"
    using open_create [OF _ assms(2)] assms(3,4)
    by (auto simp: triple_def on_os_def split: prod.splits sum.splits option.splits)
  have stat: "triple (?opened (Inr fd)) (bindE (gets (\<lambda>w. os_fstat (os A) fd (w_os w))) (\<lambda>stbuf.
        case stbuf of None \<Rightarrow> return u
        | Some b \<Rightarrow> if of_int (st_size b) > whole then
            bindE (on_os (os_ftruncate (os A) fd 0)) (\<lambda>_. return (u\<lparr>us_received := 0\<rparr>))
          else return (u\<lparr>us_received := of_int (st_size b)\<rparr>))) (started part obj had old m p whole) (\<lambda>_. True)"
    if "u = \<lparr>us_fileId = i, us_destPath = dest, us_virtualPath = p, us_partPath = part, us_md5 = m,
          us_totalSize = whole, us_received = 0, us_fd = fd\<rparr>" for fd u i
    unfolding triple_def
  proof (intro allI impI)
    fix w :: "('r, 'm, 'f, 'z) world_scheme"
    assume "?opened (Inr fd) w"
    then obtain x where w: "on_files (\<lambda>g. g (c_str part) = Some x \<and> g (c_str obj) = old) w" "length x < 2 ^ 63"
      "fds (w_os w) fd = Some (c_str part, 0)" and x: "x = [] \<or> had = Some x" by auto
    obtain r f where tr: "os_ftruncate (os A) fd 0 (w_os w) = (r, f)" by fastforce
    have f: "fds f = fds (w_os w)" "files f = (if r = None then (files (w_os w))(c_str part \<mapsto> []) else files (w_os w))"
      using truncate_file [OF w(3) _ tr] w(1) by auto
    have len: "unat (of_int (int (length x)) :: u64) = length x" using w(2) by (simp add: unat_of_nat)
    have "started part obj had old m p whole u w" "started part obj had old m p whole (u\<lparr>us_received := 0\<rparr>) (w\<lparr>w_os := f\<rparr>)"
      "of_nat (length x) \<le> whole \<Longrightarrow> started part obj had old m p whole (u\<lparr>us_received := of_nat (length x)\<rparr>) w"
      using w f len assms(3) that x by (auto simp: started_def)
    moreover have "st_size b = int (length x)" if "os_fstat (os A) fd (w_os w) = Some b" for b
      using fstat_file [OF that w(3)] w(1) by simp
    ultimately show "case bindE (gets (\<lambda>w. os_fstat (os A) fd (w_os w))) (\<lambda>stbuf.
        case stbuf of None \<Rightarrow> return u
        | Some b \<Rightarrow> if of_int (st_size b) > whole then
            bindE (on_os (os_ftruncate (os A) fd 0)) (\<lambda>_. return (u\<lparr>us_received := 0\<rparr>))
          else return (u\<lparr>us_received := of_int (st_size b)\<rparr>)) w of
        (Ret x, t) \<Rightarrow> started part obj had old m p whole x t | (Raise e, t) \<Rightarrow> True | (Blocked, t) \<Rightarrow> True | (Undef, t) \<Rightarrow> True"
      using tr by (auto simp: bindE_def on_os_def not_less split: option.splits)
  qed
  show ?thesis
    unfolding beginUpload_def assms(1) Let_def
    by (rule triple_if, rule triple_throw, simp, rule triple_if, rule triple_throw, simp,
        rule triple_bind [OF d_ensureDir], rule triple_bind [OF d_ensureDir], rule triple_bind [OF d_random],
        rule triple_bind [OF opens], rule triple_case_sum, rule triple_throw, simp, simp only: stat)
qed

lemma d_open_upload:
  assumes "partPathFor A ses m dest = part" and "plain (c_str part)" and "c_str part \<noteq> c_str obj"
    and "\<forall>y. had = Some y \<longrightarrow> length y < 2 ^ 63"
  shows "triple (on_files (\<lambda>g. g (c_str obj) = old \<and> g (c_str part) = had)
      :: ('r, 'm, 'f, 'z) tstate_scheme \<Rightarrow> bool)
    (open_upload A ses dest p m whole) (\<lambda>_ w. started part obj had old m p whole (upload w) w) (\<lambda>_. True)"
proof -
  let ?F = "\<lambda>g. g (c_str obj) = old \<and> g (c_str part) = had"
  have "triple (on_files ?F :: ('r, 'm, 'f, 'z) tstate_scheme \<Rightarrow> bool) (closeUpload A) (\<lambda>_. on_files ?F) (\<lambda>_. True)"
    by (auto simp: triple_def closeUpload_def close_fd_def bindE_def on_os_run quiet)
  then show ?thesis
    unfolding open_upload_def
    by (rule triple_bind [OF _ triple_bind [OF d_beginUpload [OF assms]]]) (rule triple_modify, simp add: started_def)
qed

section \<open>The download\<close>

lemma wanted_pos:
  fixes len :: u32
  assumes "k < n" and "n < 2 ^ 63" and "0 < len"
  shows "0 < unat (if of_nat k + ucast len > (of_nat n :: u64) then ucast (of_nat n - of_nat k :: u64) else len)"
proof -
  have len: "unat len < 2 ^ 32" using unsigned_less [of len] by simp
  have up: "unat (ucast len :: u64) = unat len" using len by (simp add: unsigned_ucast_eq take_bit_nat_eq_self)
  have sum: "unat (of_nat k + ucast len :: u64) = k + unat len"
    using assms(1,2) len by (simp add: unat_word_ariths unat_of_nat up)
  have diff: "unat (of_nat n - of_nat k :: u64) = n - k"
    using assms(1,2) by (simp add: unat_sub word_le_nat_alt unat_of_nat)
  have "unat (ucast (of_nat n - of_nat k :: u64) :: u32) = n - k" if "n < k + unat len"
    using that len by (simp add: unsigned_ucast_eq diff take_bit_nat_eq_self)
  then show ?thesis
    using assms sum by (auto simp: word_less_nat_alt unat_of_nat unat_gt_0)
qed

text \<open>A download in progress of the object with content \<open>y\<close>.\<close>

definition sending :: "string \<Rightarrow> string \<Rightarrow> ('r, 'm, 'f, 'z) tstate_scheme \<Rightarrow> bool" where
  "sending obj y w \<longleftrightarrow> files (w_os w) (c_str obj) = Some y \<and> ds_totalSize (download w) = of_nat (length y) \<and>
     (\<exists>k. fds (w_os w) (ds_fd (download w)) = Some (c_str obj, k))"

lemma d_beginDownload:
  assumes "objectPathFor A m = Inr obj" and "plain (c_str obj)" and "m \<noteq> []" and "obj \<noteq> []"
  shows "triple (\<lambda>w :: ('r, 'm, 'f, 'z) world_scheme. live w \<and> strs (w_redis w) (pathKey (s_userId ses) (c_str p)) = Some m \<and>
      strs (w_redis w) (objKey (c_str m)) = Some obj \<and> files (w_os w) (c_str obj) = Some y)
    (beginDownload A ses p) (\<lambda>ds w. files (w_os w) (c_str obj) = Some y \<and> ds_totalSize ds = of_nat (length y) \<and>
      (\<exists>k. fds (w_os w) (ds_fd ds) = Some (c_str obj, k))) (\<lambda>_. True)"
  unfolding triple_def
proof (intro allI impI)
  fix w :: "('r, 'm, 'f, 'z) world_scheme"
  assume w: "live w \<and> strs (w_redis w) (pathKey (s_userId ses) (c_str p)) = Some m \<and>
      strs (w_redis w) (objKey (c_str m)) = Some obj \<and> files (w_os w) (c_str obj) = Some y"
  define v where "v = w\<lparr>w_os := snd (os_random (os A) 16 (w_os w)), w_redis := r_getObject (rds A) m (r_getPath (rds A) (s_userId ses) p (w_redis w))\<rparr>"
  have y: "files (w_os v) (c_str obj) = Some y" using w by (simp add: v_def random_quiet)
  obtain r f where o: "os_open (os A) (c_str obj) O_RDONLY (w_os v) = (r, f)" by fastforce
  have f: "files f (c_str obj) = Some y \<and> fds f fd = Some (c_str obj, 0)" if "r = Inr fd" for fd
    using open_read [OF _ y] o that y by auto
  have "beginDownload A ses p w =
      (case r of Inl e \<Rightarrow> throw (CloudError Internal ''open download failed'')
       | Inr fd \<Rightarrow> return \<lparr>ds_fileId = toHex (fst (os_random (os A) 16 (w_os w))), ds_srcPath = obj, ds_totalSize = of_nat (length y), ds_fd = fd\<rparr>) (v\<lparr>w_os := f\<rparr>)"
    using w y assms(3,4) d_stat [OF y] o
    by (simp add: beginDownload_def randomHex_def resolveObjectPath_def bindE_run on_os_run store_runs d_exists [OF assms(2)] v_def
        split: sum.splits)
  then show "case beginDownload A ses p w of (Ret ds, t) \<Rightarrow> files (w_os t) (c_str obj) = Some y \<and> ds_totalSize ds = of_nat (length y) \<and>
      (\<exists>k. fds (w_os t) (ds_fd ds) = Some (c_str obj, k)) | (Raise e, t) \<Rightarrow> True | (Blocked, t) \<Rightarrow> True | (Undef, t) \<Rightarrow> True"
    using f by (cases r) auto
qed

lemma d_readChunk:
  assumes "k \<le> length y" and "length y < 2 ^ 63" and "0 < len"
  shows "triple (sending obj y :: ('r, 'm, 'f, 'z) tstate_scheme \<Rightarrow> bool) (readChunk A (of_nat k) len)
    (\<lambda>b w. sending obj y w \<and> (b = take (length b) (drop k y) \<and> (b = [] \<longrightarrow> length y \<le> k))) (\<lambda>_. True)"
  unfolding triple_def
proof (intro allI impI)
  fix w :: "('r, 'm, 'f, 'z) tstate_scheme"
  assume w: "sending obj y w"
  then have total: "ds_totalSize (download w) = of_nat (length y)" by (simp add: sending_def)
  define len' where "len' = (if of_nat k + ucast len > (of_nat (length y) :: u64) then ucast (of_nat (length y) - of_nat k :: u64) else len)"
  have le: "(of_nat (length y) :: u64) \<le> of_nat k \<longleftrightarrow> length y \<le> k"
    using assms by (simp add: word_le_nat_alt unat_of_nat)
  have pos: "0 < unat len'" if "\<not> length y \<le> k"
    unfolding len'_def by (rule wanted_pos) (use assms that in simp_all)
  have pread: "b = take (length b) (drop k y) \<and> (b = [] \<longrightarrow> length y \<le> k)"
    if "os_pread (os A) (ds_fd (download w)) (unat len') (int k) (w_os w) = Some b" "\<not> length y \<le> k" for b
  proof -
    obtain n where "fds (w_os w) (ds_fd (download w)) = Some (c_str obj, n)" "files (w_os w) (c_str obj) = Some y"
      using w by (auto simp: sending_def)
    from pread_file [OF that(1) this] pos [OF that(2)] show ?thesis by auto
  qed
  have k: "sint (of_nat k :: u64) = int k" using assms by (intro sint_of_nat) simp
  have eq: "readChunk A (of_nat k) len w = (if ds_fd (download w) < 0 then throw (CloudError BadRequest ''no active download'')
      else if length y \<le> k then return []
      else (case os_pread (os A) (ds_fd (download w)) (unat len') (int k) (w_os w) of
        None \<Rightarrow> throw (CloudError Internal ''pread failed'') | Some bytes \<Rightarrow> return bytes)) w"
    unfolding readChunk_def Let_def len'_def by (simp add: bindE_def total k le)
  show "case readChunk A (of_nat k) len w of (Ret b, t) \<Rightarrow> sending obj y t \<and> (b = take (length b) (drop k y) \<and> (b = [] \<longrightarrow> length y \<le> k))
      | (Raise e, t) \<Rightarrow> True | (Blocked, t) \<Rightarrow> True | (Undef, t) \<Rightarrow> True"
    using w pread unfolding eq by (auto split: option.splits)
qed

lemma d_read_from:
  assumes "length y < 2 ^ 63" and "0 < len" and "k \<le> length y" and "length y < n + k"
  shows "triple (sending obj y :: ('r, 'm, 'f, 'z) tstate_scheme \<Rightarrow> bool) (read_from A len n (of_nat k)) (\<lambda>b w. b = drop k y) (\<lambda>_. True)"
  using assms(3,4)
proof (induction n arbitrary: k)
  case (Suc n)
  show ?case
    unfolding read_from.simps
  proof (rule triple_bind [OF d_readChunk [OF Suc.prems(1) assms(1,2)]], rule triple_pure, rule triple_if)
    fix b
    assume b: "b = take (length b) (drop k y) \<and> (b = [] \<longrightarrow> length y \<le> k)"
    {
      assume "b = []"
      with b show "triple (sending obj y :: ('r, 'm, 'f, 'z) tstate_scheme \<Rightarrow> bool) (return []) (\<lambda>b w. b = drop k y) (\<lambda>_. True)"
        by (simp add: triple_def)
    next
      assume "b \<noteq> []"
      moreover have "length b \<le> length y - k" using arg_cong [OF conjunct1 [OF b], of length] by simp
      ultimately have "k + length b \<le> length y" "length y < n + (k + length b)"
        using Suc.prems by (cases b; simp)+
      from Suc.IH [OF this] have "triple (sending obj y :: ('r, 'm, 'f, 'z) tstate_scheme \<Rightarrow> bool)
          (read_from A len n (of_nat k + of_nat (length b))) (\<lambda>r w. r = drop (k + length b) y) (\<lambda>_. True)" by simp
      moreover have "b @ drop (k + length b) y = drop k y"
        using b append_take_drop_id [of "length b" "drop k y"] by (simp add: add.commute)
      ultimately show "triple (sending obj y :: ('r, 'm, 'f, 'z) tstate_scheme \<Rightarrow> bool)
          (bindE (read_from A len n (of_nat k + of_nat (length b))) (\<lambda>rest. return (b @ rest))) (\<lambda>b w. b = drop k y) (\<lambda>_. True)"
        by (auto intro!: triple_bind triple_return)
    }
  qed
qed simp

section \<open>From the client's file to the download\<close>

lemma resumes_all:
  assumes "resumes content had" and "x = [] \<or> had = Some x" and "k \<le> length x"
  shows "take k x @ drop k content @ drop (length content) x = content"
proof -
  have x: "take (length x) content = x" using assms(1,2) by (auto simp: resumes_def)
  then have "length x \<le> length content" by (metis length_take min.cobounded1)
  moreover have "take k x = take k content" using x assms(3) by (metis min.absorb1 take_take)
  ultimately show ?thesis by simp
qed

lemma d_upload:
  assumes "partPathFor A ses m dest = part" and "plain (c_str part)" and "c_str part \<noteq> c_str obj"
    and "\<forall>y. had = Some y \<longrightarrow> length y < 2 ^ 63"
    and "cuts content chunks" and "length content < 2 ^ 63"
  shows "triple (on_files (\<lambda>g. g (c_str obj) = old \<and> g (c_str part) = had)
      :: ('r, 'm, 'f, 'z) tstate_scheme \<Rightarrow> bool)
    (bindE (open_upload A ses dest p m (of_nat (length content))) (\<lambda>_.
     bindE (gets (\<lambda>w. us_received (upload w))) (\<lambda>r. write_chunks A (chunks r))))
    (\<lambda>_ w. \<exists>z. receiving part obj old m p (of_nat (length content)) z w \<and> (length z < 2 ^ 63 \<and> (resumes content had \<longrightarrow> z = content))) (\<lambda>_. True)"
    (is "triple ?P _ (\<lambda>_. ?Q) _")
proof -
  let ?n = "of_nat (length content) :: u64"
  have n: "unat ?n = length content" using assms(6) by (simp add: unat_of_nat)
  show ?thesis
  proof (rule triple_bind [OF d_open_upload [OF assms(1-4)]])
    show "triple (\<lambda>w :: ('r, 'm, 'f, 'z) tstate_scheme. started part obj had old m p ?n (upload w) w)
        (bindE (gets (\<lambda>w. us_received (upload w))) (\<lambda>r. write_chunks A (chunks r))) (\<lambda>_. ?Q) (\<lambda>_. True)"
      unfolding triple_def
    proof (intro allI impI)
      fix w :: "('r, 'm, 'f, 'z) tstate_scheme"
      assume "started part obj had old m p ?n (upload w) w"
      then obtain x where x: "receiving part obj old m p ?n x w" "unat (us_received (upload w)) \<le> length x"
        "us_received (upload w) \<le> ?n" "length x < 2 ^ 63" "x = [] \<or> had = Some x"
        unfolding started_def receiving_def by blast
      let ?k = "unat (us_received (upload w))" and ?cs = "chunks (us_received (upload w))"
      have k: "?k \<le> length content" using x(3) by (simp add: word_le_nat_alt n)
      then have cs: "consecutive (of_nat ?k) ?cs" "concat (map snd ?cs) = drop ?k content" "\<forall>(off, d) \<in> set ?cs. length d < 2 ^ 32"
        using assms(5) by (auto simp: cuts_def)
      have "?k + length (concat (map snd ?cs)) < 2 ^ 63" using k assms(6) by (simp add: cs(2))
      from d_write_chunks [OF assms(3) cs(1,3) x(2) this, of old m p ?n]
      have wr: "triple (receiving part obj old m p ?n x :: ('r, 'm, 'f, 'z) tstate_scheme \<Rightarrow> bool) (write_chunks A ?cs)
          (\<lambda>_. receiving part obj old m p ?n (take ?k x @ drop ?k content @ drop (length content) x)) (\<lambda>_. True)"
        using k by (simp add: cs(2))
      have "length (take ?k x @ drop ?k content @ drop (length content) x) < 2 ^ 63" using k x(2,4) assms(6) by simp
      moreover note resumes_all [OF _ x(5,2)]
      ultimately have "?Q w'" if "receiving part obj old m p ?n (take ?k x @ drop ?k content @ drop (length content) x) w'" for w'
        using that by blast
      with triple_post [OF wr, of "\<lambda>_. ?Q"]
      have "triple (receiving part obj old m p ?n x :: ('r, 'm, 'f, 'z) tstate_scheme \<Rightarrow> bool) (write_chunks A ?cs) (\<lambda>_. ?Q) (\<lambda>_. True)"
        by blast
      from tripleD [OF this x(1)]
      show "case bindE (gets (\<lambda>w. us_received (upload w))) (\<lambda>r. write_chunks A (chunks r)) w of
          (Ret x, t) \<Rightarrow> ?Q t | (Raise e, t) \<Rightarrow> True | (Blocked, t) \<Rightarrow> True | (Undef, t) \<Rightarrow> True"
        unfolding bindE_gets .
    qed
  qed
qed

lemma md5_of_text: "md5Hex A x = Inr (md5_text x)"
  by (simp add: md5Hex_def digestHex_def run md5_text_def)

lemma d_deliver:
  assumes "partPathFor A ses m dest = part" and "plain (c_str part)" and "c_str part \<noteq> c_str obj"
    and "objectPathFor A m = Inr obj" and "plain (c_str obj)" and "obj \<noteq> []" and "p \<in> S"
    and "cuts content chunks" and "md5_text content = m" and "length content < 2 ^ 63" and "length content < loop_bound A"
    and "\<forall>y. old = Some y \<longrightarrow> length y < 2 ^ 63 \<and> md5_text y = m" and "0 < len" and "length content < n"
    and "\<forall>y. had = Some y \<longrightarrow> length y < 2 ^ 63"
  shows "triple (on_files (\<lambda>g. g (c_str obj) = old \<and> g (c_str part) = had)
      :: ('r, 'm, 'f, 'z) tstate_scheme \<Rightarrow> bool)
    (deliver A ses dest p m (of_nat (length content)) chunks len n) (\<lambda>b _. length b = length content \<and> md5_text b = m \<and>
      (resumes content had \<and> (\<forall>y. old = Some y \<longrightarrow> y = content) \<longrightarrow> b = content)) (\<lambda>_. True)"
proof -
  let ?n = "of_nat (length content) :: u64"
  let ?stored = "\<lambda>y (w :: ('r, 'm, 'f, 'z) tstate_scheme). live w \<and>
     strs (w_redis w) (pathKey (s_userId ses) (c_str p)) = Some m \<and> strs (w_redis w) (objKey (c_str m)) = Some obj \<and>
     files (w_os w) (c_str obj) = Some y"
  let ?good = "\<lambda>y. length y = length content \<and> md5_text y = m \<and>
     (resumes content had \<and> (\<forall>y. old = Some y \<longrightarrow> y = content) \<longrightarrow> y = content)"
  have m: "length m = 32" "m \<noteq> []" using md5_text_hex(1) [of content] assms(9) by auto
  have fin: "triple (receiving part obj old m p ?n z) (finishUpload A ses) (\<lambda>_ w :: ('r, 'm, 'f, 'z) tstate_scheme. \<exists>y. ?stored y w \<and> ?good y) (\<lambda>_. True)"
    if z: "length z < 2 ^ 63" "resumes content had \<longrightarrow> z = content" for z
  proof -
    have eq: "of_nat (length z) = ?n \<longleftrightarrow> length z = length content"
      using z(1) assms(10) by (simp add: word_unat_eq_iff unat_of_nat)
    have old: "\<forall>y. old = Some y \<longrightarrow> length y < 2 ^ 64" using assms(12) by auto
    have "triple (receiving part obj old m p ?n z) (finishUpload A ses)
        (\<lambda>_ w :: ('r, 'm, 'f, 'z) tstate_scheme. stored z old m obj (s_userId ses) p w \<and> (md5_text z = m \<and> of_nat (length z) = ?n)) (\<lambda>_. True)"
      by (rule triple_pre [OF d_finish [OF assms(4,2,5,3) _ _ old assms(7) m(1)]])
        (use z assms(11) eq in \<open>auto simp: receiving_def\<close>)
    then show ?thesis
      by (rule triple_post) (use assms(12) eq z(2) in \<open>auto simp: stored_def published_def\<close>)
  qed
  have down: "triple (\<lambda>w. \<exists>y. ?stored y w \<and> ?good y) (bindE (open_download A ses p) (\<lambda>_. read_from A len n 0)) (\<lambda>b _. ?good b) (\<lambda>_. True)"
  proof (rule triple_ex)
    fix y
    assume y: "?good y"
    have "triple (?stored y) (closeDownload A) (\<lambda>_. ?stored y) (\<lambda>_. True)"
      by (auto simp: triple_def closeDownload_def close_fd_def bindE_def on_os_run quiet)
    moreover have "triple (?stored y) (bindE (beginDownload A ses p) (\<lambda>ds. modify (\<lambda>w. w\<lparr>download := ds\<rparr>)))
        (\<lambda>_. sending obj y) (\<lambda>_. True)"
      by (rule triple_bind [OF d_beginDownload [OF assms(4,5) m(2) assms(6)]], rule triple_modify) (simp add: sending_def)
    ultimately have "triple (?stored y) (open_download A ses p) (\<lambda>_. sending obj y) (\<lambda>_. True)"
      unfolding open_download_def by (rule triple_bind)
    moreover have "triple (sending obj y :: ('r, 'm, 'f, 'z) tstate_scheme \<Rightarrow> bool) (read_from A len n 0) (\<lambda>b _. b = y) (\<lambda>_. True)"
      using d_read_from [of y len 0 n obj] y assms(10,13,14) by simp
    then have "triple (sending obj y :: ('r, 'm, 'f, 'z) tstate_scheme \<Rightarrow> bool) (read_from A len n 0) (\<lambda>b _. ?good b) (\<lambda>_. True)"
      by (rule triple_post) (use y in simp)
    ultimately show "triple (?stored y) (bindE (open_download A ses p) (\<lambda>_. read_from A len n 0)) (\<lambda>b _. ?good b) (\<lambda>_. True)"
      by (rule triple_bind)
  qed
  have eq: "(deliver A ses dest p m ?n chunks len n :: (('r, 'm, 'f, 'z) tstate_scheme, string) cpp) = bindE (bindE (open_upload A ses dest p m ?n) (\<lambda>_.
      bindE (gets (\<lambda>w. us_received (upload w))) (\<lambda>r. write_chunks A (chunks r)))) (\<lambda>_.
      bindE (finishUpload A ses) (\<lambda>_. bindE (open_download A ses p) (\<lambda>_. read_from A len n 0)))"
    by (simp add: deliver_def bindE_assoc)
  have rest: "triple (\<lambda>w :: ('r, 'm, 'f, 'z) tstate_scheme. \<exists>z. receiving part obj old m p ?n z w \<and> (length z < 2 ^ 63 \<and> (resumes content had \<longrightarrow> z = content)))
      (bindE (finishUpload A ses) (\<lambda>_. bindE (open_download A ses p) (\<lambda>_. read_from A len n 0))) (\<lambda>b _. ?good b) (\<lambda>_. True)"
    by (rule triple_ex, rule triple_bind [OF fin down]) simp_all
  show ?thesis
    unfolding eq by (rule triple_bind [OF d_upload [OF assms(1-3,15,8,10)] rest])
qed

end

end
