(* ===== verification/Round_Trip.thy ===== *)
theory Round_Trip
  imports Delivery_Facts
begin

text \<open>
  What is uploaded is what is downloaded: the laws of \<open>Delivery_Facts\<close> hold of the reference
  environment, and the property that spans both directions of the transfer, with a delivery run step
  by step.
\<close>

section \<open>Paths\<close>

lemma joinPath_prefix: "a \<noteq> [] \<Longrightarrow> \<exists>s. joinPath a b = a @ s"
  by (auto simp: joinPath_def)

text \<open>The objects and the part files lie in different directories.\<close>

lemma under_root:
  shows "objectPathFor A m = Inr obj \<Longrightarrow> \<exists>s. obj = storageRoot (cfg A) @ ''/objects'' @ s"
    and "\<exists>t. partPathFor A ses m' dest = storageRoot (cfg A) @ ''/tmp'' @ t"
proof -
  have two: "\<exists>s. joinPath (joinPath (r @ d) b) c = r @ d @ s" if "d \<noteq> []" for r d b c
    by (metis Nil_is_append_conv append.assoc joinPath_prefix that)
  show "objectPathFor A m = Inr obj \<Longrightarrow> \<exists>s. obj = storageRoot (cfg A) @ ''/objects'' @ s"
    using two [of "''/objects''"] by (auto simp: objectPathFor_def objectsRoot_def split: if_splits)
  show "\<exists>t. partPathFor A ses m' dest = storageRoot (cfg A) @ ''/tmp'' @ t"
    using two [of "''/tmp''"] by (auto simp: partPathFor_def tmpRoot_def)
qed

lemma object_nonempty: "objectPathFor A m = Inr obj \<Longrightarrow> obj \<noteq> []"
  using under_root(1) by fastforce

lemma object_not_part:
  assumes "NUL \<notin> set (storageRoot (cfg A))" and "objectPathFor A m = Inr obj"
  shows "c_str (partPathFor A ses m' dest) \<noteq> c_str obj"
proof -
  obtain s t where "obj = storageRoot (cfg A) @ ''/objects'' @ s" "partPathFor A ses m' dest = storageRoot (cfg A) @ ''/tmp'' @ t"
    using under_root assms(2) by metis
  then show ?thesis using assms(1) by (simp add: c_str_append c_str_cons NUL_def)
qed

section \<open>The reference environment\<close>

interpretation ref_disk: disk_service "os ref_env" rf_files ref_fds is_store
proof (unfold_locales, goal_cases)
  case (1 p f fd f')
  then show ?case
    by (cases "rf_files f p") (auto simp: ref_posix_def ref_open_def ref_fd_def)
next
  case (2 p f fd)
  then show ?case by (simp add: ref_posix_def ref_open_def)
next
  case (3 p f)
  then show ?case by (simp add: ref_posix_def ref_lstat_def split: option.splits)
next
  case (4 f p c)
  then show ?case by (simp add: ref_posix_def ref_lstat_def)
next
  case (5 fd f st p n c)
  then show ?case by (auto simp: ref_posix_def ref_lstat_def ref_fds_at)
next
  case (7 p f)
  then show ?case by (simp add: ref_posix_def ref_unlink_def)
next
  case (10 f fd p n c r f')
  then show ?case by (auto simp: ref_posix_def ref_ftruncate_def ref_fds_at)
next
  case (11 fd d k f f' p n c)
  then show ?case by (auto simp: ref_posix_def ref_pwrite_def ref_fds_at overwrite_at_def)
next
  case (12 fd k off f d p n c)
  then show ?case by (auto simp: ref_posix_def ref_pread_def ref_fds_at min_def split: if_splits)
qed (simp_all add: ref_posix_def)

lemma ref_delivery:
  "delivery ref_env rr_strs ref_sets ref_fi (\<lambda>p. p) (\<lambda>p d. True) (=) {p. NUL \<notin> set p} rf_files ref_fds is_store ref_sum"
  by (intro delivery.intro ref_content_env ref_digest_env ref_disk.disk_service_axioms)

interpretation ref_delivered: delivery ref_env rr_strs ref_sets ref_fi "\<lambda>p. p" "\<lambda>p d. True" "(=)" "{p. NUL \<notin> set p}"
  rf_files ref_fds is_store ref_sum
  by (rule ref_delivery)

section \<open>The property\<close>


definition ref_chunks :: "u64 \<Rightarrow> (u64 \<times> string) list" where
  "ref_chunks r = (if r = 0 then [(0, ''x'')] else [])"

text \<open>A fresh store with its directories, and the paths of the object and the part file.\<close>

definition ref_obj :: string where
  "ref_obj = ''/d/objects/01/'' @ ref_md5"

definition ref_part :: string where
  "ref_part = ''/d/tmp/al/'' @ ref_md5 @ ''_a.part''"

definition ref_dirs :: "string list" where
  "ref_dirs = [''/d'', ''/d/tmp'', ''/d/tmp/al'', ''/d/users'', ''/d/users/al'', ''/d/objects'', ''/d/objects/01'']"

definition ref_home :: "(ref_redis, ref_db, ref_fs) tstate" where
  "ref_home = ref_state\<lparr>w_os := ref_fs0\<lparr>rf_dirs := ref_dirs\<rparr>\<rparr>"

lemma ref_paths:
  "partPathFor ref_env ref_user ref_md5 ''/d/users/al/a'' = ref_part" "objectPathFor ref_env ref_md5 = Inr ref_obj"
  "c_str ref_part = ref_part" "c_str ref_obj = ref_obj" "c_str ref_md5 = ref_md5" "is_store ref_part" "is_store ref_obj"
  "parentDir ''/d/users/al/a'' = ''/d/users/al''" "parentDir ref_obj = ''/d/objects/01''" "length ref_md5 = 32"
  "ref_part \<notin> set ref_dirs" "ref_obj \<notin> set ref_dirs" "c_str ''/d/users/al/a'' = ''/d/users/al/a''"
  "joinPath (tmpRoot ref_config) ''al'' = ''/d/tmp/al''" "ref_part \<noteq> ref_obj"
  by code_simp+

text \<open>The run of one delivery, step by step.\<close>

lemma ref_made:
  assumes "rf_dirs f = ref_dirs" and "p \<in> set ref_dirs"
  shows "ref_mkdir p f = (Some EEXIST, f)"
proof -
  have "\<forall>d \<in> set ref_dirs. \<not> is_store d" by code_simp
  then show ?thesis using assms by (simp add: ref_mkdir_def ref_lstat_def split: option.splits)
qed

lemma ref_splits:
  "split ''/d/tmp/al'' CHR ''/'' = [[], ''d'', ''tmp'', ''al'']" "split ''/d/users/al'' CHR ''/'' = [[], ''d'', ''users'', ''al'']"
  "split ''/d/objects/01'' CHR ''/'' = [[], ''d'', ''objects'', ''01'']"
  by code_simp+

lemma ref_ensure:
  assumes "rf_dirs (w_os w) = ref_dirs" and "q \<in> {''/d/tmp/al'', ''/d/users/al'', ''/d/objects/01''}"
  shows "ensureDir ref_env q w = (Ret True, w)"
proof -
  have m: "on_os (os_mkdir ref_posix d) w = (Ret (Some EEXIST), w)" if "d \<in> set ref_dirs" for d
    using ref_made [OF assms(1) that] by (simp add: on_os_run ref_posix_def)
  show ?thesis using assms(2)
    by (elim insertE emptyE; simp add: ensureDir_def ref_splits Let_def bindE_run m ref_dirs_def c_str_def NUL_def)
qed

definition ref_begun :: "(ref_redis, ref_db, ref_fs) tstate" where
  "ref_begun = ref_home\<lparr>w_os := ref_fs0\<lparr>rf_files := [ref_part \<mapsto> []], rf_dirs := ref_dirs, rf_fds := [4 \<mapsto> (ref_part, 0)], rf_next := 5\<rparr>,
     upload := \<lparr>us_fileId = toHex (replicate 16 3), us_destPath = ''/d/users/al/a'', us_virtualPath = ''/a'', us_partPath = ref_part,
       us_md5 = ref_md5, us_totalSize = 1, us_received = 0, us_fd = 4\<rparr>\<rparr>"

lemma ref_sel:
  "s_username ref_user = ''al''" "s_userId ref_user = 1" "maxUploadBytes ref_config = 8589934592" "chunkSize ref_config = 65536"
  by (simp_all add: ref_user_def ref_config_def)

lemma ref_step1: "open_upload ref_env ref_user ''/d/users/al/a'' ''/a'' ref_md5 1 ref_home = (Ret (), ref_begun)"
  by (simp add: open_upload_def closeUpload_def beginUpload_def randomHex_def on_os_run ref_paths bindE_run ref_ensure ref_home_def
     ref_begun_def ref_state_def no_upload_def ref_sel ref_posix_def ref_open_def ref_fd_def ref_fs0_def ref_at_def ref_lstat_def Let_def)

definition ref_filled :: "(ref_redis, ref_db, ref_fs) tstate" where
  "ref_filled = ref_begun\<lparr>w_os := (w_os ref_begun)\<lparr>rf_files := [ref_part \<mapsto> ''x'']\<rparr>, upload := (upload ref_begun)\<lparr>us_received := 1\<rparr>\<rparr>"

lemma ref_step2: "write_chunks ref_env (ref_chunks (us_received (upload ref_begun))) ref_begun = (Ret (), ref_filled)"
  by (simp add: write_chunks_def ref_chunks_def writeChunk_def ref_begun_def ref_filled_def bindE_run on_os_run ref_posix_def ref_pwrite_def
     ref_at_def overwrite_at_def ref_fs0_def ref_home_def ref_state_def Let_def)

lemma ref_digests: "ifs_bytes ref_posix (c_str path) (w_os w) = Some ''x'' \<Longrightarrow> md5File ref_env path w = (Ret ref_md5, w)"
  using digest_env.md5File_run [OF ref_digest_env, of path w "''x''"] ref_digest.md5_text_def by (simp add: ref_md5_def)

lemma ref_command_run: "ctx_set w \<Longrightarrow> command ref_env args w = (Ret (fst (ref_command args (w_redis w))), w\<lparr>w_redis := snd (ref_command args (w_redis w))\<rparr>)"
  by (simp add: command_def ensure_def bindE_def on_redis_run ref_hiredis_def)

lemmas ref_services = ref_store.lookupFile_run ref_store.indexFile_run m_run_def m_begin_def ref_mysql_def ref_execute_def ref_fi_def
  ref_command_run cmdGet_def cmdSet_def cmdSAdd_def getPathMd5_def getObjectPath_def setObject_def addRef_def setPathMd5_def ref_command_def

lemma ref_more_paths:
  "''/d/users/al/a'' \<notin> set ref_dirs" "''/d/users/al/a'' \<noteq> ref_part" "''/d/users/al/a'' \<noteq> ref_obj" "ref_part \<noteq> ''/d/users/al/a''" "ref_obj \<noteq> ''/d/users/al/a''"
  "ref_obj \<noteq> ref_part" "c_str (objKey ref_md5) = objKey ref_md5" "ref_obj \<noteq> []" "ref_md5 \<noteq> []"
  by code_simp+

lemmas ref_files_run = on_os_run bindE_run(1) [OF fileExists_run] fileSize_run close_fd_def unlink_def ref_posix_def ref_unlink_def ref_lstat_def ref_open_def ref_fd_def
  ref_read_def ref_write_def ref_at_def overwrite_at_def

lemma write_loop_nil: "write_loop A n fin fout dest [] = return ()"
  by (simp add: write_loop.simps)

lemma write_loop_numeral: "write_loop A (numeral k) fin fout dest (c # data) =
   bindE (on_os (os_write (os A) fout (c # data))) (\<lambda>r. case r of
     None \<Rightarrow> copy_abort A fin fout dest ''write object failed''
   | Some x \<Rightarrow> write_loop A (pred_numeral k) fin fout dest (drop x (c # data)))"
  by (subst write_loop.simps) (simp add: numeral_eq_Suc)

lemma copy_loop_numeral: "copy_loop A (numeral k) fin fout dest b n =
   bindE (on_os (os_read (os A) fin b)) (\<lambda>r. case r of
     None \<Rightarrow> copy_abort A fin fout dest ''read source failed''
   | Some data \<Rightarrow> if data = [] then return n
       else bindE (write_loop A (loop_bound A) fin fout dest data) (\<lambda>_.
         copy_loop A (pred_numeral k) fin fout dest b (n + of_nat (length data))))"
  by (simp add: numeral_eq_Suc)

lemma ref_copied:
  assumes "w_os w = \<lparr>rf_files = [ref_part \<mapsto> ''x''], rf_dirs = ref_dirs, rf_fds = fds, rf_next = 5\<rparr>"
  shows "copyToObjectStore ref_env ref_part ref_obj 1 w =
     (Ret (), w\<lparr>w_os := \<lparr>rf_files = [ref_part \<mapsto> ''x'', ref_obj \<mapsto> ''x''], rf_dirs = ref_dirs, rf_fds = fds(5 := None, 6 := None), rf_next = 7\<rparr>\<rparr>)"
  using assms
  by (simp add: copyToObjectStore_def ref_files_run ref_paths ref_more_paths bindE_run ref_ensure ref_sel write_loop_nil write_loop_numeral copy_loop_numeral)

lemma ref_keys: "c_str ''/a'' = ''/a''" "to_string_nat (Suc 0) = ''1''"
  by code_simp+

lemma ref_published:
  assumes "w_os w = \<lparr>rf_files = [ref_part \<mapsto> ''x''], rf_dirs = ref_dirs, rf_fds = fds, rf_next = 5\<rparr>" and "ctx_set w"
  shows "publishObject ref_env ref_md5 ref_part 1 w =
     (Ret (), w\<lparr>w_os := \<lparr>rf_files = [ref_part \<mapsto> ''x'', ref_obj \<mapsto> ''x''], rf_dirs = ref_dirs, rf_fds = fds(5 := None, 6 := None), rf_next = 7\<rparr>,
        w_redis := (w_redis w)\<lparr>rr_strs := (rr_strs (w_redis w))(objKey ref_md5 \<mapsto> ref_obj, objsizeKey ref_md5 \<mapsto> ''1''),
          rr_sets := (rr_sets (w_redis w))(objKey ref_md5 := [], objsizeKey ref_md5 := [])\<rparr>\<rparr>)"
  using assms ref_copied [OF assms(1)]
  by (simp add: publishObject_def ref_files_run ref_paths ref_more_paths bindE_run ref_ensure ref_services ref_keys)

definition ref_kept :: "(ref_redis, ref_db, ref_fs) tstate" where
  "ref_kept = ref_filled\<lparr>w_os := \<lparr>rf_files = [ref_obj \<mapsto> ''x''], rf_dirs = ref_dirs, rf_fds = (\<lambda>_. None), rf_next = 7\<rparr>,
     w_redis := \<lparr>rr_strs = [objKey ref_md5 \<mapsto> ref_obj, objsizeKey ref_md5 \<mapsto> ''1'', pathKey 1 ''/a'' \<mapsto> ref_md5],
       rr_sets = (\<lambda>_. [])(objKey ref_md5 := [], objsizeKey ref_md5 := [], refsKey ref_md5 := [refMember 1 ''/a''], pathKey 1 ''/a'' := [])\<rparr>,
     w_mysql := \<lparr>rd_index = [((1, ''/a''), upsert None ''/a'' ref_md5 1 False ''ready'')], rd_users = []\<rparr>,
     upload := (upload ref_filled)\<lparr>us_fd := -1\<rparr>\<rparr>"


lemma ref_step3: "finishUpload ref_env ref_user ref_filled = (Ret (), ref_kept)"
  by (simp add: finishUpload_def ref_filled_def ref_begun_def ref_home_def ref_state_def bindE_run ref_files_run ref_published
     ref_fs0_def ref_digests ref_sel ref_paths ref_more_paths ref_services ref_ensure ref_kept_def addContentRef_def ref_redis0_def ref_keys)

lemma read_from_numeral: "read_from A len (numeral k) off =
   bindE (readChunk A off len) (\<lambda>b. if b = [] then return []
     else bindE (read_from A len (pred_numeral k) (off + of_nat (length b))) (\<lambda>rest. return (b @ rest)))"
  by (simp add: numeral_eq_Suc)

lemma ref_step4: "fst (bindE (open_download ref_env ref_user ''/a'') (\<lambda>_. read_from ref_env 4 3 0) ref_kept) = Ret ''x''"
  by (simp add: open_download_def closeDownload_def beginDownload_def randomHex_def resolveObjectPath_def ref_kept_def ref_filled_def ref_begun_def
     ref_home_def ref_state_def no_download_def bindE_run ref_files_run ref_sel ref_paths ref_more_paths ref_services ref_keys
     read_from_numeral readChunk_def Let_def ref_pread_def)

lemma ref_delivers:
  "fst (deliver ref_env ref_user ''/d/users/al/a'' ''/a'' ref_md5 1 ref_chunks 4 3 ref_home) = Ret ''x''"
  by (simp add: deliver_def bindE_run ref_step1 ref_step2 ref_step3 ref_step4)

lemma ref_cuts: "cuts ''x'' ref_chunks"
proof -
  have "r = 0 \<or> r = 1" if "unat r \<le> Suc 0" for r :: u64
    using that word_unat_eq_iff [of r 0] word_unat_eq_iff [of r 1] by auto
  then show ?thesis by (force simp: cuts_def ref_chunks_def)
qed


end
