(* ===== verification/Content_Loss.thy ===== *)
theory Content_Loss
  imports Round_Trip
begin

text \<open>
  An instant upload that overwrites a path with the content the path already has.
  \<open>instantUpload\<close> (\<open>src/transfer.cpp\<close>) checks the object, then releases the path's reference, and
  releasing the last reference removes the object before the new reference to it is added.
\<close>

context delivery
begin

text \<open>Before: \<open>p\<close> is the one path with content \<open>m\<close>, whose object is \<open>obj\<close>. After: its entry still
  names \<open>m\<close>, and neither the object nor its entry is left.\<close>

abbreviation "sole u p m obj \<equiv> (\<lambda>a b c. refs_inv ck S a b c \<and> {(v, q). a (pathKey v q) = Some m} = {(u, p)} \<and> a (objKey m) = Some obj)"

abbreviation "gone m obj w \<equiv> live w \<and> strs (w_redis w) (objKey m) = None \<and> files (w_os w) (c_str obj) = None"

lemma sole_delChallenge: "triple (st (sole u p m obj)) (delChallenge A t m') (\<lambda>_. st (sole u p m obj)) E"
proof (rule triple_runI)
  fix w :: "('r, 'm, 'f, 'z) world_scheme"
  assume h: "st (sole u p m obj) w"
  define k where "k = c_str (chalKey t m')"
  have k: "pathKey v q \<noteq> k" "refsKey d \<noteq> k" "objKey d \<noteq> k" for v q d
    by (simp_all add: k_def c_str_chal pathKey_def refsKey_def objKey_def)
  let ?r = "rcmd (rds A) [''DEL'', k] (w_redis w)"
  have "delChallenge A t m' w = (Ret (), w\<lparr>w_redis := ?r\<rparr>)"
    using h by (simp add: delChallenge_def cmd_runs k_def)
  moreover have "refs_inv ck S (strs ?r) (sets ?r) (fi (w_mysql w))"
    using h k by (auto simp: DEL_effect intro: refs_inv_cong)
  ultimately show "(\<exists>t'. delChallenge A t m' w = (Blocked, t')) \<or>
      (\<exists>x t'. delChallenge A t m' w = (Ret x, t') \<and> st (sole u p m obj) t')"
    using h k by (simp add: DEL_effect)
qed

lemma sole_lookup: "triple (st (sole u p m obj)) (lookupFile A u p)
    (\<lambda>r w. (up w \<and> st (sole u p m obj) w) \<and> (\<exists>i. r = Some i \<and> \<not> if_isDir i)) E"
proof (rule triple_runI)
  fix w :: "('r, 'm, 'f, 'z) world_scheme"
  assume h: "st (sole u p m obj) w"
  then have "strs (w_redis w) (pathKey u p) = Some m" by auto
  then obtain i where "fi (w_mysql w) (u, ck p) = Some i" "\<not> if_isDir i" using h refs_invD(3) by metis
  then show "(\<exists>t. lookupFile A u p w = (Blocked, t)) \<or> (\<exists>r t. lookupFile A u p w = (Ret r, t) \<and>
      (up t \<and> st (sole u p m obj) t) \<and> (\<exists>i. r = Some i \<and> \<not> if_isDir i))"
    using h by (cases "idle_conns w = []") (auto simp: lookupFile_run, simp add: with_conn_blocked lookupFile_def)
qed

lemma release_sole:
  assumes "obj \<noteq> []" and "plain (c_str obj)" and "\<And>f. files (snd (os_unlink (os A) (c_str obj) f)) (c_str obj) = None"
  shows "triple (\<lambda>w. up w \<and> st (sole u p m obj) w) (releaseContentRef A u p) (\<lambda>_. gone m obj) E"
proof (rule triple_runI, rule disjI2)
  fix w :: "('r, 'm, 'f, 'z) world_scheme"
  assume h: "up w \<and> st (sole u p m obj) w"
  then have ok: "store_ok A strs sets fi ck S w" and hold: "holders strs m w = {(u, p)}"
    by (simp_all add: store_ok_def holders_def)
  have "strs (w_redis w) (pathKey u p) = Some m" using hold by (auto simp: holders_def)
  note c = consistent_md5 [OF ok this]
  have none: "others w u p m = {}"
    unfolding c(4,5) consistent_others [OF ok] hold by simp
  have path: "object_path A (val w (objKey (c_str m))) m = Inr obj"
    using h assms(1) by (simp add: c(5) object_path_def)
  from release_gc [OF conjunct1 [OF h] c(1,3) none path]
  obtain w' where r: "releaseContentRef A u p w = (Ret (), w')" "up w'" "w_os w' = gc_fs (os A) obj (w_os w)"
    "strs (w_redis w') = (strs (w_redis w))(objKey (c_str m) := None, objsizeKey (c_str m) := None, pathKey u (c_str p) := None)"
    by metis
  have "files (gc_fs (os A) obj (w_os w)) (c_str obj) = None"
    using lstat_plain [OF assms(2), of "w_os w"] assms(3) by (simp add: gc_fs_def)
  then show "\<exists>x t. releaseContentRef A u p w = (Ret x, t) \<and> gone m obj t" using r c(5) by simp
qed

lemma gone_add:
  assumes "p \<in> S" and "length m = 32" and "NUL \<notin> set m"
  shows "triple (gone m obj) (addContentRef A u p m n) (\<lambda>_ w. gone m obj w \<and> strs (w_redis w) (pathKey u p) = Some m) E"
proof (rule triple_runI)
  fix w :: "('r, 'm, 'f, 'z) world_scheme"
  assume w: "gone m obj w"
  have fit: "fits p m" using room [OF assms(1)] assms(2) by simp
  have "c_str p = p" using no_nul [OF assms(1)] by (simp add: c_str_id)
  then show "(\<exists>t. addContentRef A u p m n w = (Blocked, t)) \<or>
      (\<exists>x t. addContentRef A u p m n w = (Ret x, t) \<and> gone m obj t \<and> strs (w_redis t) (pathKey u p) = Some m)"
  proof (cases "idle_conns w = []")
    case True
    then show ?thesis using w
      by (simp add: addContentRef_def bindE_run store_runs indexFile_def with_conn_blocked)
  next
    case False
    then have "up w" using w by simp
    from addContentRef_run [OF this fit, of u n] obtain w' where "addContentRef A u p m n w = (Ret (), w')" "up w'"
      "w_os w' = w_os w" "strs (w_redis w') = (strs (w_redis w))(pathKey u (c_str p) \<mapsto> m)" by metis
    then show ?thesis using w \<open>c_str p = p\<close> by simp
  qed
qed

lemma gone_ensureDir: "triple (gone m obj) (ensureDir A q) (\<lambda>_. gone m obj) E"
proof (rule triple_runI, rule disjI2)
  fix w :: "('r, 'm, 'f, 'z) world_scheme"
  assume w: "gone m obj w"
  obtain b f where e: "ensureDir A q w = (Ret b, w\<lparr>w_os := f\<rparr>)" using ensureDir_frame [of A q w] by blast
  then show "\<exists>x t. ensureDir A q w = (Ret x, t) \<and> gone m obj t" using ensureDir_files [OF refl e] w by simp
qed

lemma instant_loses:
  assumes "obj \<noteq> []" and "plain (c_str obj)" and "\<And>f. files (snd (os_unlink (os A) (c_str obj) f)) (c_str obj) = None"
    and "p \<in> S" and "length m = 32" and "NUL \<notin> set m"
  shows "triple (st (sole (s_userId ses) p m obj)) (instantUpload A ses dest p m n off prf True)
    (\<lambda>_ w. gone m obj w \<and> strs (w_redis w) (pathKey (s_userId ses) p) = Some m) (\<lambda>_. True)"
proof -
  let ?J = "sole (s_userId ses) p m obj" and ?E = "\<lambda>_ :: ('r, 'm, 'f, 'z) world_scheme. True"
  have weak: "triple P k Q ?E" if "triple P k Q F" for P k Q F
    by (rule triple_conseq [OF that]) simp_all
  have slice: "triple (st ?J) (if b then bindE (md5FileRange A q o' l) (\<lambda>real.
      if real \<noteq> prf then throw e else return ()) else return ()) (\<lambda>_. st ?J) ?E" for b q o' l e
    by (rule t_frame) (intro os_frame_intros, simp)
  have room: "triple (\<lambda>w. (up w \<and> st ?J w) \<and> (\<exists>i. r = Some i \<and> \<not> if_isDir i))
      (if case r of Some i \<Rightarrow> \<not> if_isDir i | None \<Rightarrow> False
       then (if \<not> True then throw e else releaseContentRef A (s_userId ses) p) else k) (\<lambda>_. gone m obj) ?E" for r e k
    by (rule triple_pure) (use release_sole [OF assms(1-3)] in auto)
  show ?thesis
    unfolding instantUpload_def Let_def
    by (rule triple_bind [OF weak [OF t_getChallenge]], rule triple_case_option, rule triple_throw, simp,
        rule triple_case_prod, rule triple_if, rule triple_throw, simp,
        rule triple_bind [OF weak [OF t_resolve_any]], rule triple_bind [OF t_fileExists],
        rule triple_if, rule triple_throw, simp,
        rule triple_bind [OF t_fileSize], rule triple_if, rule triple_throw, simp,
        rule triple_bind [OF slice], rule triple_bind [OF sole_delChallenge], rule triple_bind [OF sole_lookup],
        rule triple_bind [OF room], rule triple_bind [OF gone_ensureDir], rule gone_add [OF assms(4-6)])
qed

lemma gone_download:
  assumes "gone m obj w" and "strs (w_redis w) (pathKey (s_userId ses) (c_str p)) = Some m" and "m \<noteq> []" and "c_str m = m"
    and "objectPathFor A m = Inr obj" and "plain (c_str obj)"
  shows "fst (beginDownload A ses p w) = Raise (CloudError NotFound ''object missing'')"
  using assms
  by (simp add: beginDownload_def randomHex_def resolveObjectPath_def bindE_run on_os_run store_runs
      bindE_run(1) [OF d_exists [OF assms(6)]] random_quiet)

end

section \<open>The property\<close>


text \<open>The stored file of \<open>Round_Trip\<close>, with a challenge on its one byte.\<close>

definition ref_challenged :: "(ref_redis, ref_db, ref_fs) tstate" where
  "ref_challenged = ref_kept\<lparr>w_redis := (w_redis ref_kept)\<lparr>rr_strs := (rr_strs (w_redis ref_kept))(chalKey ''t'' ref_md5 \<mapsto> ''0:1'')\<rparr>\<rparr>"

lemmas ref_kept_state = ref_challenged_def ref_kept_def ref_filled_def ref_begun_def ref_home_def ref_state_def ref_fs0_def

lemma ref_challenged_ok: "ref_ok ref_challenged" "holders rr_strs ref_md5 ref_challenged = {(1, ''/a'')}"
proof -
  have md: "length ref_md5 = 32" "NUL \<notin> set ref_md5" by code_simp+
  show "holders rr_strs ref_md5 ref_challenged = {(1, ''/a'')}"
    by (auto simp: holders_def ref_kept_state)
  show "ref_ok ref_challenged"
    using md by (auto simp: store_ok_def ref_kept_state refs_inv_def ref_sets_def ref_fi_def ref_redis.rok_def upsert_def NUL_def ref_hiredis_def)
qed

lemma ref_challenge: "getChallenge ref_env ''t'' ref_md5 ref_challenged = (Ret (Some (0, 1)), ref_challenged)"
proof -
  have n: "find_first CHR '':'' ''0:1'' = Some 1" "stoull (substr ''0:1'' 0 1) = Inr 0" "stoull (drop (1 + 1) ''0:1'') = Inr 1"
    "c_str (chalKey ''t'' ref_md5) = chalKey ''t'' ref_md5"
    by code_simp+
  have "cmdGet ref_env (chalKey ''t'' ref_md5) ref_challenged = (Ret ''0:1'', ref_challenged)"
    by (simp add: ref_services ref_kept_state n bindE_run)
  then show ?thesis using n by (simp add: getChallenge_def bindE_run)
qed

lemma ref_overwrites:
  "\<exists>w'. instantUpload ref_env ref_user ''/d/users/al/a'' ''/a'' ref_md5 1 0 ref_md5 True ref_challenged = (Ret (), w')"
proof -
  let ?S = "{p. NUL \<notin> set p}" and ?file = "upsert None ''/a'' ref_md5 1 False ''ready''"
  have nul: "''/a'' \<in> ?S" by (simp add: NUL_def)
  have obj: "resolveObjectPath ref_env ref_md5 ref_challenged = (Ret ref_obj, ref_challenged)"
    "fileExists ref_env ref_obj ref_challenged = (Ret True, ref_challenged)"
    "fileSize ref_env ref_obj ref_challenged = (Ret 1, ref_challenged)"
    by (simp_all add: resolveObjectPath_def ref_services ref_files_run fileExists_run ref_kept_state bindE_run ref_paths ref_more_paths)
  have slice: "md5FileRange ref_env ref_obj 0 1 ref_challenged = (Ret ref_md5, ref_challenged)"
    using digest_env.md5FileRange_run [OF ref_digest_env, of ref_obj ref_challenged "''x''" 0 1] ref_digest.md5_text_def
    by (simp add: ref_kept_state ref_posix_def ref_paths ref_md5_def)
  define w1 where "w1 = ref_challenged\<lparr>w_redis := rcmd (rds ref_env) [''DEL'', chalKey ''t'' ref_md5] (w_redis ref_challenged)\<rparr>"
  have key: "c_str (chalKey ''t'' ref_md5) = chalKey ''t'' ref_md5" by code_simp
  have ready: "ctx_set ref_challenged \<and> ref_redis.rok (w_redis ref_challenged)"
    using ref_challenged_ok(1) by (simp add: store_ok_def)
  have del: "delChallenge ref_env ''t'' ref_md5 ref_challenged = (Ret (), w1)"
    using ready by (simp add: delChallenge_def ref_store.cmd_runs key w1_def)
  have fine1: "ref_ok w1"
    using triple_Ret [OF ref_content.t_delChallenge [where X = "{}" and E = "\<lambda>_. True"] _ del] ref_challenged_ok(1)
    by (simp add: ref_content.fine_iff)
  have idle1: "idle_conns w1 \<noteq> []" "ref_fi (w_mysql w1) (1, ''/a'') = Some ?file"
    by (simp_all add: w1_def ref_kept_state ref_fi_def)
  then obtain w2 where look: "lookupFile ref_env 1 ''/a'' w1 = (Ret (Some ?file), w2)" and fine2: "ref_ok w2" "idle_conns w2 \<noteq> []"
    using fine1 ref_store.lookupFile_run [of w1 1 "''/a''"] by (auto simp: store_ok_def)
  obtain w3 where rel: "releaseContentRef ref_env 1 ''/a'' w2 = (Ret (), w3)" and fine3: "ref_ok w3" "idle_conns w3 \<noteq> []"
    using ref_content.release_total [OF fine2 nul] by metis
  obtain b f where dir: "ensureDir ref_env ''/d/users/al'' w3 = (Ret b, w3\<lparr>w_os := f\<rparr>)"
    using ensureDir_frame [of ref_env "''/d/users/al''" w3] by blast
  obtain w4 where add: "addContentRef ref_env 1 ''/a'' ref_md5 1 (w3\<lparr>w_os := f\<rparr>) = (Ret (), w4)"
    using ref_store.addContentRef_run [where w = "w3\<lparr>w_os := f\<rparr>" and u = 1 and p = "''/a''" and m = ref_md5 and n = 1] fine3
    by (auto simp: store_ok_def)
  show ?thesis
    using ref_challenge obj slice del look rel dir add
    by (simp add: instantUpload_def ref_user_def bindE_run ref_paths upsert_def)
qed


end
