(* ===== verification/Error_Codes.thy ===== *)
theory Error_Codes
  imports Connection_Facts
begin

text \<open>
  The code of an error reply. A reply reports success by the code 0, which is also the value of
  \<open>ErrorCode::Ok\<close>; no operation throws a \<open>CloudError\<close> with that code (\<open>coded\<close>), so a command that
  failed is never answered as if it had succeeded. The predicate is closed under the constructs of
  the operations, so it is read off their text.
\<close>

section \<open>Computations whose exceptions carry the code of a failure\<close>

definition failure :: "exn \<Rightarrow> bool" where
  "failure e \<longleftrightarrow> (\<forall>m. e \<noteq> CloudError Ok m)"

definition coded :: "('s, 'a) cpp \<Rightarrow> bool" where
  "coded m \<longleftrightarrow> (\<forall>w e t. m w = (Raise e, t) \<longrightarrow> failure e)"

definition coded_result :: "exn + 'a \<Rightarrow> bool" where
  "coded_result r \<longleftrightarrow> (\<forall>e. r = Inl e \<longrightarrow> failure e)"

named_theorems coded_intros "computations whose exceptions carry the code of a failure"

lemma failure_simps [simp]: "failure (StdException m)" "failure (CloudError c m) \<longleftrightarrow> c \<noteq> Ok"
  by (simp_all add: failure_def)

lemma codedD: "coded m \<Longrightarrow> m w = (Raise e, t) \<Longrightarrow> failure e"
  unfolding coded_def by blast

lemma coded_basic [coded_intros]:
  "coded (return x)" "coded (gets g)" "coded (modify f)" "coded blocked" "coded (on_os h)" "coded (on_redis i)" "coded (on_mysql j)"
  "failure e \<Longrightarrow> coded (throw e)" "coded_result r \<Longrightarrow> coded (liftS r)"
  by (auto simp: coded_def coded_result_def on_os_run on_redis_run on_mysql_run liftS_def split: sum.splits)

lemma coded_bind [coded_intros]: "coded m \<Longrightarrow> (\<And>x. coded (f x)) \<Longrightarrow> coded (bindE m f)"
  unfolding coded_def bindE_def by (auto split: prod.splits outcome.splits)

lemma coded_catch [coded_intros]: "coded m \<Longrightarrow> (\<And>e. failure e \<Longrightarrow> coded (h e)) \<Longrightarrow> coded (catchE m h)"
  unfolding coded_def catchE_def by (auto split: prod.splits outcome.splits) blast

lemma coded_finally [coded_intros]: "coded m \<Longrightarrow> coded (finallyE m c)"
  unfolding coded_def finallyE_def by (auto split: prod.splits outcome.splits)

lemma coded_if [coded_intros]: "(b \<Longrightarrow> coded m) \<Longrightarrow> (\<not> b \<Longrightarrow> coded n) \<Longrightarrow> coded (if b then m else n)"
  by simp

lemma coded_cases [coded_intros]:
  "coded m \<Longrightarrow> (\<And>y. coded (k y)) \<Longrightarrow> coded (case z of None \<Rightarrow> m | Some y \<Rightarrow> k y)"
  "(\<And>y. coded (l y)) \<Longrightarrow> (\<And>y. coded (k' y)) \<Longrightarrow> coded (case v of Inl y \<Rightarrow> l y | Inr y \<Rightarrow> k' y)"
  "(\<And>y z. coded (g y z)) \<Longrightarrow> coded (case pr of (y, z) \<Rightarrow> g y z)"
  "(\<And>c t. e = CloudError c t \<Longrightarrow> coded (p c t)) \<Longrightarrow> (\<And>t. coded (q t)) \<Longrightarrow>
   coded (case e of CloudError c t \<Rightarrow> p c t | StdException t \<Rightarrow> q t)"
  "coded m \<Longrightarrow> (\<And>x xs. coded (d x xs)) \<Longrightarrow> coded (case a of [] \<Rightarrow> m | x # xs \<Rightarrow> d x xs)"
  by (cases z; cases v; cases pr; cases e; cases a; simp)+

lemma coded_replies [coded_intros]:
  "coded m \<Longrightarrow> (\<And>e. coded (k e)) \<Longrightarrow> coded n \<Longrightarrow> coded (case c of ConnNull \<Rightarrow> m | ConnErr e \<Rightarrow> k e | ConnOk \<Rightarrow> n)"
  "(\<And>e. coded (k e)) \<Longrightarrow> coded n \<Longrightarrow> coded (case y of R_ERROR e \<Rightarrow> k e | _ \<Rightarrow> n)"
  "coded m \<Longrightarrow> (\<And>e. coded (k e)) \<Longrightarrow> (\<And>h. coded (l h)) \<Longrightarrow>
   coded (case d of MyInitFail \<Rightarrow> m | MyConnFail e \<Rightarrow> k e | MyConnected h \<Rightarrow> l h)"
  by (cases c; cases y; cases d; simp)+

lemma coded_forE [coded_intros]: "(\<And>x. coded (f x)) \<Longrightarrow> coded (forE xs f)"
  by (induction xs) (simp_all only: forE.simps coded_intros)

lemma coded_state: "(\<And>w. coded (m w)) \<Longrightarrow> coded (\<lambda>w. m w w)"
  by (simp add: coded_def)

lemma coded_when: "(\<And>w. coded (m w)) \<Longrightarrow> coded (\<lambda>w. if b w then (Ret x, w) else m w w)"
  by (auto simp: coded_def)

lemma coded_ret: "(\<And>w. \<exists>x t. m w = (Ret x, t)) \<Longrightarrow> coded m"
  unfolding coded_def by (metis Pair_inject outcome.distinct(1))

section \<open>The services\<close>

lemma coded_utils [coded_intros]:
  "coded (fileExists A p)" "coded (fileSize A p)" "coded (ensureDir A p)" "coded (randomHex A n)"
  "coded (md5File A p)" "coded (md5FileRange A p off len)"
proof -
  show "coded (ensureDir A p)" by (rule coded_ret) (metis ensureDir_frame)
  have md5: "coded_result (md5Hex A x)" for x
    by (auto simp: coded_result_def md5Hex_def digestHex_def split: evp_result.splits)
  show "coded (md5FileRange A p off len)"
    unfolding md5FileRange_def Let_def by (rule coded_state, intro coded_intros md5) simp_all
qed (auto simp: coded_def fileExists_def fileSize_def randomHex_def md5File_def bindE_def on_os_run
      split: option.splits evp_result.splits)

lemma coded_pure:
  "coded_result (hashPassword A s p)" "coded_result (verifyPassword A s p h)" "coded_result (stoull t)"
  "coded_result (objectPathFor A m)" "coded_result (encode ty q fl)" "coded_result (encodeChunk i off d)"
proof -
  show 1: "coded_result (hashPassword A s p)"
    by (auto simp: coded_result_def hashPassword_def sha256Hex_def digestHex_def split: evp_result.splits)
  then show "coded_result (verifyPassword A s p h)" by (auto simp: coded_result_def verifyPassword_def split: sum.splits)
  show "coded_result (stoull t)" by (auto simp: coded_result_def stoull_def Let_def split: if_splits option.splits)
qed (auto simp: coded_result_def objectPathFor_def encode_def encodeChunk_def)

lemma coded_redis [coded_intros]: "coded (command A args)"
proof -
  have "coded (ensure A)" unfolding ensure_def by (rule coded_when, intro coded_intros; simp)
  then show ?thesis unfolding command_def by (intro coded_intros)
qed

lemma coded_store [coded_intros]:
  "coded (setSession A t j n)" "coded (getSession A t)" "coded (delSession A t)" "coded (setObject A m ob sz)"
  "coded (getObjectPath A m)" "coded (deleteObjectMeta A m)" "coded (addRef A m u p)" "coded (removeRef A m u p)"
  "coded (setPathMd5 A u p m)" "coded (getPathMd5 A u p)" "coded (delPathMd5 A u p)"
  "coded (setChallenge A t m off len)" "coded (getChallenge A t m)" "coded (delChallenge A t m)"
  unfolding setSession_def getSession_def delSession_def setObject_def getObjectPath_def deleteObjectMeta_def
    addRef_def removeRef_def setPathMd5_def getPathMd5_def delPathMd5_def setChallenge_def getChallenge_def
    delChallenge_def cmdGet_def cmdSetEx_def cmdSet_def cmdDel_def cmdSAdd_def cmdSRem_def cmdSCard_def
  by (intro coded_intros coded_pure)+

lemma coded_pool [coded_intros]:
  "(\<And>c. coded (body c)) \<Longrightarrow> coded (with_conn A body)" "coded (stmt_new A c text)" "coded (stmt_execute A c text ps)"
proof -
  have "coded (acquire A)" unfolding acquire_def connectOne_def coded_def
    by (auto simp: bindE_def on_mysql_run split: if_splits my_conn.splits)
  then show "(\<And>c. coded (body c)) \<Longrightarrow> coded (with_conn A body)" unfolding with_conn_def by (intro coded_intros)
qed (unfold stmt_new_def stmt_execute_def, (intro coded_intros; simp)+)

lemma coded_index [coded_intros]:
  "coded (indexFile A u p m n d s)" "coded (unindex A u p)" "coded (lookupFile A u p)" "coded (listIndexed A u q)"
  unfolding indexFile_def unindex_def lookupFile_def listIndexed_def Let_def by (intro coded_intros; simp)+

lemma coded_copy [coded_intros]: "coded (copyToObjectStore A src dest n)"
proof -
  have abort: "coded (copy_abort A fin fout dest t :: (('a, 'b, 'c, 'd) world_scheme, 'e) cpp)" for fin fout t
    unfolding copy_abort_def close_fd_def unlink_def by (intro coded_intros) simp
  have wr: "coded (write_loop A k fin fout dest data :: (('a, 'b, 'c, 'd) world_scheme, unit) cpp)" for k fin fout data
    by (induction k arbitrary: data) (subst write_loop.simps, auto intro!: coded_intros abort)+
  have cp: "coded (copy_loop A k fin fout dest b c :: (('a, 'b, 'c, 'd) world_scheme, u64) cpp)" for k fin fout b c
    by (induction k arbitrary: c) (auto intro!: coded_intros abort wr)
  show ?thesis unfolding copyToObjectStore_def close_fd_def unlink_def by (intro coded_intros cp) simp_all
qed

lemma coded_objects [coded_intros]:
  "coded (resolveObjectPath A m)" "coded (publishObject A m src n)" "coded (addContentRef A u p m n)"
  "coded (gcObject A m)" "coded (contentMd5 A u p)" "coded (unlink A p)" "coded (close_fd A fd)"
  unfolding resolveObjectPath_def publishObject_def addContentRef_def gcObject_def contentMd5_def unlink_def close_fd_def
  by (intro coded_intros coded_pure; simp)+

lemma coded_release [coded_intros]:
  "coded (releaseContentRef A u p)" "coded (releaseIndexedUnderPrefix A u p)" "coded (renameIndexedFile A u p q m n)"
  unfolding releaseContentRef_def releaseIndexedUnderPrefix_def renameIndexedFile_def by (intro coded_intros; simp)+

lemma coded_remove:
  "coded (removeRecursive A n q :: (('r, 'm, 'f, 'z) world_scheme, unit) cpp)"
  "coded (remove_loop A n' q' names :: (('r, 'm, 'f, 'z) world_scheme, unit) cpp)"
proof (induction A n q and A n' q' names rule: removeRecursive_remove_loop.induct)
  case (2 A n physical)
  show ?case unfolding removeRecursive.simps by (intro coded_intros 2) simp_all
next
  case (4 A n physical name names)
  show ?case unfolding remove_loop.simps by (intro coded_intros 4)
qed (simp_all only: removeRecursive.simps remove_loop.simps coded_intros)

lemma listDir_coded:
  "listDirRecursive P f n q l r = Raise e \<Longrightarrow> failure e" "list_loop P f n' q' l' r' names = Raise e \<Longrightarrow> failure e"
  by (induction P f n q l r and P f n' q' l' r' names rule: listDirRecursive_list_loop.induct)
    (auto simp: Let_def split: option.splits outcome.splits if_splits)

lemma coded_manager [coded_intros]:
  "coded (removePath A p)" "coded (renamePath A p q)" "coded (makeDir A p)" "coded (statPath A p)" "coded (listDir A p b)"
  unfolding removePath_def renamePath_def makeDir_def statPath_def
  by (intro coded_intros coded_remove; simp)+ (auto simp: coded_def listDir_def dest: listDir_coded)

lemma coded_service [coded_intros]:
  "coded (queryInstant A ses m n)" "coded (instantUpload A ses dest p m n off prf overwrite)"
  "coded (beginUpload A ses dest p m n)" "coded (writeChunk A off d len)" "coded (finishUpload A ses)"
  "coded (closeUpload A)" "coded (beginDownload A ses p)" "coded (readChunk A off len)" "coded (closeDownload A)"
  "coded (removeUserPath A ses phys p)" "coded (renameUserPath A ses phys p phys' q)"
  unfolding queryInstant_def instantUpload_def beginUpload_def writeChunk_def finishUpload_def closeUpload_def
    beginDownload_def readChunk_def closeDownload_def removeUserPath_def renameUserPath_def Let_def
  by (intro coded_intros; simp)+

section \<open>The handlers\<close>

text \<open>The exceptions of the JSON library are its own, never a \<open>CloudError\<close>.\<close>

definition json_errors :: "'j jsoncpp \<Rightarrow> bool" where
  "json_errors J \<longleftrightarrow> (\<forall>v k d. coded_result (j_isMember J v k) \<and> coded_result (j_at J v k) \<and> coded_result (j_get J v k d) \<and>
     coded_result (j_asString J v) \<and> coded_result (j_asInt J v) \<and> coded_result (j_asUInt J v) \<and>
     coded_result (j_asUInt64 J v) \<and> coded_result (j_asBool J v))"

lemma coded_get_as: "json_errors J \<Longrightarrow> (\<And>y. coded_result (as y)) \<Longrightarrow> coded_result (get_as J as v k x)"
  by (auto simp: json_errors_def get_as_def coded_result_def split: sum.splits)

lemma coded_json:
  assumes "json_errors J"
  shows "coded_result (j_at J v k)" "coded_result (get_string J v k d)" "coded_result (get_u64 J v k)" "coded_result (get_bool J v k)"
    "coded_result (get_as J (j_asInt J) v k x)" "coded_result (get_as J (j_asUInt J) v k x)"
  unfolding get_string_def get_u64_def get_bool_def
  using assms [unfolded json_errors_def] by (simp_all add: coded_get_as [OF assms])

lemma coded_normalize: "coded_result (normalizeLogical p)"
proof -
  have "normalize_go parts st = Inl e \<Longrightarrow> failure e" for parts st e
    by (induction parts arbitrary: st) (auto simp: normalize_go.simps(2) split: if_splits)
  then show ?thesis by (auto simp: coded_result_def normalizeLogical_def split: if_splits sum.splits)
qed

lemma resolve_parts_coded: "resolve_parts P f root nrm must parts cur = Raise e \<Longrightarrow> failure e"
  by (induction P f root nrm must parts cur rule: resolve_parts.induct)
    (auto simp: guarded_def mustRealpath_def Let_def split: if_splits option.splits bool.splits sum.splits)

lemma resolve_coded: "resolve P f root logical must = Raise e \<Longrightarrow> failure e"
  using coded_normalize [of logical]
  by (auto simp: resolve_def mustRealpath_def coded_result_def split: if_splits option.splits sum.splits dest: resolve_parts_coded)

lemma coded_guards [coded_intros]: "coded requireLogin" "coded (resolveUserPath A path b)" "coded (resolveAny A path)"
proof -
  show 1: "coded requireLogin" unfolding requireLogin_def by (intro coded_intros) simp
  show 2: "coded (resolveUserPath A path b)" for b
    unfolding resolveUserPath_def by (intro coded_intros 1) (auto simp: coded_def dest: resolve_coded)
  show "coded (resolveAny A path)" unfolding resolveAny_def by (intro coded_intros 2) simp_all
qed

lemma coded_send [coded_intros]:
  "coded (sendJson J v)" "coded (sendError J seq c t)" "coded (sendOk J seq d)" "coded (sendChunk i off data)"
  unfolding sendError_def sendOk_def sendJson_def sendChunk_def bufferevent_write_def
  by (intro coded_intros coded_pure)+

lemma coded_auth:
  assumes "json_errors J"
  shows "coded (registerUser A u pw)" "coded (login A J u pw ip)" "coded (checkToken A J t)" "coded (logout A t)"
  unfolding registerUser_def login_def logLogin_def ensureUserRoot_def checkToken_def logout_def Let_def
  by (intro coded_intros coded_pure coded_json [OF assms]; simp)+

lemma coded_dispatch:
  assumes "json_errors J"
  shows "coded (dispatch A J cmd root seq)"
  unfolding dispatch_def onRegister_def onLogin_def onLogout_def onList_def onMkdir_def onRm_def onStat_def onRename_def
    onInstantQuery_def onInstantUpload_def onUploadBegin_def onUploadEnd_def onDownloadBegin_def onDownloadChunk_def
  by (intro coded_intros coded_normalize coded_json [OF assms] coded_auth [OF assms]; simp)

section \<open>Error replies\<close>

text \<open>A frame that reports a failure.\<close>

definition reports_failure :: "'j jsoncpp \<Rightarrow> string \<Rightarrow> bool" where
  "reports_failure J raw \<longleftrightarrow> (\<exists>seq c msg. c \<noteq> Ok \<and> encode FT_Json (dumpJson J (makeReply J seq (code_value c) msg (j_objectValue J))) 0 = Inr raw)"

lemma sendError_reports:
  assumes "sendError J seq c msg w = (r, w')" and "c \<noteq> Ok"
  shows "(\<exists>raw. w' = w\<lparr>c_out := c_out w @ raw\<rparr> \<and> reports_failure J raw \<and> r = Ret ()) \<or>
    w' = w \<and> r = Raise (CloudError PayloadTooLarge ''frame too large'')"
proof (cases "encode FT_Json (dumpJson J (makeReply J seq (code_value c) msg (j_objectValue J))) 0")
  case (Inr raw)
  then show ?thesis using assms by (auto simp: sendError_def sendJson_def bufferevent_write_def reports_failure_def bindE_def)
next
  case (Inl e)
  then show ?thesis using assms
    by (auto simp: sendError_def sendJson_def encode_def bindE_def split: if_splits)
qed

text \<open>What handling a command comes to, once its envelope has been read.\<close>

lemma handleJson_dispatch:
  fixes w :: "('r, 'm, 'f, 'z) cstate_scheme"
  assumes "parseJson J payload = (True, root, err)" and "get_string J root ''cmd'' [] = Inr cmd"
    and "get_u64 J root ''seq'' = Inr seq" and "given_token J root cmd (c_authed w) = Inr []"
  shows "handleJson A J payload w = catchE (dispatch A J cmd root seq)
    (\<lambda>e. case e of CloudError c m \<Rightarrow> sendError J seq c m | StdException m \<Rightarrow> throw e) w"
  using assms by (simp add: handleJson_def bindE_def)

lemma guarded_failure:
  fixes w :: "('r, 'm, 'f, 'z) cstate_scheme"
  assumes "handleFrame A J fr w = (Raise e, v)" and "failure e" and "c_out v = c_out w"
  shows "(\<exists>raw. guardedFrame A J fr w = (Ret (), v\<lparr>c_out := c_out w @ raw\<rparr>) \<and> reports_failure J raw) \<or>
    guardedFrame A J fr w = (Raise (CloudError PayloadTooLarge ''frame too large''), v)"
proof -
  define c msg where "c = (case e of CloudError c m \<Rightarrow> c | StdException m \<Rightarrow> Internal)"
    and "msg = (case e of CloudError c m \<Rightarrow> m | StdException m \<Rightarrow> m)"
  have "guardedFrame A J fr w = sendError J 0 c msg v" "c \<noteq> Ok"
    using assms(1,2) by (cases e; simp add: guardedFrame_def catchE_run c_def msg_def)+
  moreover obtain r w' where s: "sendError J 0 c msg v = (r, w')" by fastforce
  ultimately show ?thesis using sendError_reports [OF s] assms(3) by auto
qed

lemma dispatch_failure:
  fixes w :: "('r, 'm, 'f, 'z) cstate_scheme"
  assumes "json_errors J" and "f_type fr = FT_Json" and "parseJson J (f_payload fr) = (True, root, err)"
    and "get_string J root ''cmd'' [] = Inr cmd" and "get_u64 J root ''seq'' = Inr seq"
    and "given_token J root cmd (c_authed w) = Inr []" and "dispatch A J cmd root seq w = (Raise e, v)"
  shows "(\<exists>raw. guardedFrame A J fr w = (Ret (), v\<lparr>c_out := c_out w @ raw\<rparr>) \<and> reports_failure J raw) \<or>
    guardedFrame A J fr w = (Raise (CloudError PayloadTooLarge ''frame too large''), v)"
proof -
  have e: "failure e" by (rule codedD [OF coded_dispatch [OF assms(1)] assms(7)])
  have out: "c_out v = c_out w"
    using answers_dispatch [of A J cmd root seq] assms(7) by (auto simp: answers_def same_buffers_def dest: spec [of _ w])
  have h: "handleFrame A J fr w = (case e of CloudError c m \<Rightarrow> sendError J seq c m | StdException m \<Rightarrow> throw e) v"
    using handleJson_dispatch [OF assms(3-6), of A] assms(2,7) by (simp add: handleFrame_def catchE_run)
  show ?thesis
  proof (cases e)
    case (CloudError c m)
    obtain r w' where s: "sendError J seq c m v = (r, w')" by fastforce
    then have hf: "handleFrame A J fr w = (r, w')" using h CloudError by simp
    from sendError_reports [OF s] e CloudError
    consider raw where "w' = v\<lparr>c_out := c_out w @ raw\<rparr>" "reports_failure J raw" "r = Ret ()"
      | "w' = v" "r = Raise (CloudError PayloadTooLarge ''frame too large'')" using out by auto
    then show ?thesis
    proof cases
      case 1
      then show ?thesis using hf by (auto simp: guardedFrame_def catchE_run)
    next
      case 2
      show ?thesis by (rule guarded_failure [of A J fr w "CloudError PayloadTooLarge ''frame too large''"]) (use hf 2 out in simp_all)
    qed
  next
    case (StdException m)
    then show ?thesis by (intro guarded_failure [OF _ e]) (use h out in simp_all)
  qed
qed

end
