(* ===== verification/Json_Wire.thy ===== *)
theory Json_Wire
  imports Reference_Json
begin

text \<open>
  JSON values on the wire: a value that one side writes and the other parses. The writer is not exact
  on types (an unsigned number is parsed as a signed one when it fits), so the parsed value is the
  written one up to \<open>norm\<close>; what the program reads out of it is what was put in. The locale
  \<open>json_wire\<close> states these laws of the library for the values the program sends: objects of text,
  numbers and booleans, nested once.
\<close>

section \<open>The values the program sends\<close>

definition scalar :: "'j jsoncpp \<Rightarrow> 'j \<Rightarrow> bool" where
  "scalar J x \<longleftrightarrow> (\<exists>s. x = j_str J s) \<or> (\<exists>n. x = j_UInt64 J n) \<or> (\<exists>n. x = j_UInt J n) \<or> (\<exists>b. x = j_bool J b) \<or>
     (\<exists>i. x = j_Int J i \<and> - (2 ^ 31) \<le> i \<and> i < 2 ^ 31)"

definition scalars :: "'j jsoncpp \<Rightarrow> (string \<times> 'j) list \<Rightarrow> bool" where
  "scalars J gs \<longleftrightarrow> (\<forall>(k, x) \<in> set gs. scalar J x)"

definition members :: "'j jsoncpp \<Rightarrow> (string \<times> 'j) list \<Rightarrow> bool" where
  "members J fs \<longleftrightarrow> (\<forall>(k, x) \<in> set fs. scalar J x \<or> x = j_objectValue J \<or> (\<exists>gs. x = assign J (j_null J) gs \<and> scalars J gs))"

lemma scalar_simps [simp]:
  "scalar J (j_str J s)" "scalar J (j_UInt64 J n)" "scalar J (j_UInt J k)" "scalar J (j_bool J b)"
  "- (2 ^ 31) \<le> i \<Longrightarrow> i < 2 ^ 31 \<Longrightarrow> scalar J (j_Int J i)"
  by (auto simp: scalar_def)

lemma scalars_simps [simp]: "scalars J []" "scalars J ((k, x) # gs) \<longleftrightarrow> scalar J x \<and> scalars J gs"
  by (auto simp: scalars_def)

lemma members_simps [simp]:
  "members J []" "scalar J x \<Longrightarrow> members J ((k, x) # fs) \<longleftrightarrow> members J fs"
  "members J ((k, j_objectValue J) # fs) \<longleftrightarrow> members J fs"
  "scalars J gs \<Longrightarrow> members J ((k, assign J (j_null J) gs) # fs) \<longleftrightarrow> members J fs"
  "members J ((k, j_null J) # fs) \<longleftrightarrow> members J fs"
  by (auto simp: members_def assign_def intro: exI [of _ "[]"])

definition printable :: "string \<Rightarrow> bool" where
  "printable s \<longleftrightarrow> (\<forall>c \<in> set s. 0x20 \<le> (of_char c :: nat) \<and> (of_char c :: nat) < 0x7f)"

section \<open>The laws\<close>

locale json_wire = json_service J obj plain
  for J :: "'j jsoncpp" and obj :: "'j \<Rightarrow> bool" and plain :: "string \<Rightarrow> bool" +
  fixes norm :: "'j \<Rightarrow> 'j"
  assumes written: "members J fs \<Longrightarrow>
      j_parse J (j_write J (assign J (j_null J) fs)) = (True, assign J (j_null J) (map (apsnd norm) fs), [])"
    and norm_object: "scalars J gs \<Longrightarrow> norm (assign J (j_null J) gs) = assign J (j_null J) (map (apsnd norm) gs)"
    and norm_str: "plain s \<Longrightarrow> norm (j_str J s) = j_str J s"
    and norm_u64: "j_asUInt64 J (norm (j_UInt64 J n)) = Inr n"
    and norm_u32: "j_asUInt J (norm (j_UInt J k)) = Inr k"
    and norm_bool: "j_asBool J (norm (j_bool J b)) = Inr b"
    and norm_Int: "- (2 ^ 31) \<le> i \<Longrightarrow> i < 2 ^ 31 \<Longrightarrow> j_asInt J (norm (j_Int J i)) = Inr i"
    and plain_printable: "printable s \<Longrightarrow> plain s"
begin

lemma parse_dump:
  "members J fs \<Longrightarrow> parseJson J (dumpJson J (assign J (j_null J) fs)) = (True, assign J (j_null J) (map (apsnd norm) fs), [])"
  by (simp add: parseJson_def dumpJson_def written)

lemma at_assign: "map_of (rev fs) k = Some x \<Longrightarrow> j_at J (assign J (j_null J) fs) k = Inr x"
  by (induction fs rule: rev_induct) (auto simp: assign_Nil assign_snoc at_set obj_assign obj_null split: if_splits)

lemma get_as_assign: "map_of (rev fs) k = Some x \<Longrightarrow> get_as J as (assign J (j_null J) fs) k d = as x"
  by (simp add: get_as_def get_assign)

lemma get_u64_assign: "map_of (rev fs) k = Some (norm (j_UInt64 J n)) \<Longrightarrow> get_u64 J (assign J (j_null J) fs) k = Inr n"
  by (simp add: get_u64_def get_as_assign norm_u64)

text \<open>A member of the object that is the member \<open>data\<close>.\<close>

lemma data_member:
  assumes "map_of (rev fs) ''data'' = Some (norm (assign J (j_null J) gs))" and "scalars J gs"
  shows "j_at J (assign J (j_null J) fs) ''data'' = Inr (assign J (j_null J) (map (apsnd norm) gs))"
  using assms by (simp add: at_assign norm_object)

end

lemma apsnd_same [simp]: "map (apsnd (\<lambda>v. v)) fs = fs"
  by (simp add: apsnd_def map_prod_def id_def)

lemma ref_parse_write: "j_parse ref_json (j_write ref_json v) = (True, v, [])"
  by (simp add: ref_json_def r_parse_write)

interpretation ref_wire: json_wire ref_json r_obj "\<lambda>_. True" "\<lambda>v. v"
proof (unfold_locales, goal_cases)
  case (1 fs)
  show ?case by (simp only: ref_parse_write apsnd_same)
next
  case (5 k)
  have "uint (ucast k :: u64) = uint k" "uint k < 2 ^ 32" using uint_lt2p [of k] by (simp_all add: unsigned_ucast_eq take_bit_int_eq_self)
  then show ?case by (simp add: ref_json_def in_range_def)
qed (auto simp: ref_json_def in_range_def)

end
