(* ===== verification/Peer_Facts.thy ===== *)
theory Peer_Facts
  imports Error_Codes Json_Wire Client_Properties
begin

text \<open>
  A client's request and the server's answer, over the wire: what the server's handler did decides what
  the client's call does. On a logged-in connection with empty buffers there are two cases only. Either
  the handler returned, and the client gets its answer; or the client's call throws, because the answer
  reports a failure or there is none.
\<close>

section \<open>The server's side\<close>

lemma map_of_apsnd: "map_of (rev (map (apsnd h) fs)) k = map_option h (map_of (rev fs) k)"
  by (simp add: rev_map apsnd_def map_prod_def id_def map_of_map)

text \<open>Both buffers of a logged-in connection are empty.\<close>

definition attentive :: "('r, 'm, 'f, 'z) cstate_scheme \<Rightarrow> bool" where
  "attentive w \<longleftrightarrow> c_authed w \<and> c_in w = [] \<and> c_out w = []"

text \<open>Bytes \<open>pre\<close> in front of a command: either the server takes them in, in a state of \<open>U\<close>, without an
  answer, or the first answer reports a failure, or there is none.\<close>

definition absorbed :: "('r, 'm, 'f) env \<Rightarrow> 'j jsoncpp \<Rightarrow> string \<Rightarrow> ('r, 'm, 'f, 'z) cstate_scheme \<Rightarrow>
    (('r, 'm, 'f, 'z) cstate_scheme \<Rightarrow> bool) \<Rightarrow> bool" where
  "absorbed A J pre w U \<longleftrightarrow> (\<forall>rest.
     (\<exists>u. U u \<and> attentive u \<and> onRead A J (w\<lparr>c_in := pre @ rest\<rparr>) = onRead A J (u\<lparr>c_in := rest\<rparr>)) \<or>
     c_out (snd (onRead A J (w\<lparr>c_in := pre @ rest\<rparr>))) = [] \<or>
     (\<exists>raw x. c_out (snd (onRead A J (w\<lparr>c_in := pre @ rest\<rparr>))) = raw @ x \<and> reports_failure J raw))"

lemma absorbed_nothing: "attentive w \<Longrightarrow> absorbed A J [] w ((=) w)"
  by (auto simp: absorbed_def)

lemma onRead_one:
  assumes "encode FT_Json payload 0 = Inr raw" and "c_in w = []"
  shows "onRead A J (w\<lparr>c_in := raw\<rparr>) =
    bindE (guardedFrame A J \<lparr>f_type = FT_Json, f_flags = 0, f_payload = payload\<rparr>) (\<lambda>_. onRead A J) w"
proof -
  have "nextFrame raw = GotFrame \<lparr>f_type = FT_Json, f_flags = 0, f_payload = payload\<rparr> []"
    using nextFrame_encode [OF assms(1), of "[]"] by simp
  moreover have "(w\<lparr>c_in := raw\<rparr>)\<lparr>c_in := []\<rparr> = w" using assms(2) by simp
  ultimately show ?thesis by (simp add: onRead_unfold)
qed

lemma onRead_idle: "c_in w = [] \<Longrightarrow> onRead A J w = (Ret (), w)"
  by (simp add: onRead_unfold nextFrame_def header_size_pos)

context json_wire
begin

text \<open>One command on such a connection: what its handler returned in, or a reply that reports a failure,
  or nothing at all.\<close>

lemma served:
  fixes w :: "('r, 'm, 'f, 'z) cstate_scheme"
  assumes "json_errors J" and "attentive w" and "members J fs"
    and "map_of (rev fs) ''cmd'' = Some (j_str J cmd)" and "printable cmd" and "map_of (rev fs) ''seq'' = Some (j_UInt64 J seq)"
    and "encode FT_Json (dumpJson J (assign J (j_null J) fs)) 0 = Inr raw"
    and "snd (onRead A J (w\<lparr>c_in := raw\<rparr>)) = v"
  shows "dispatch A J cmd (assign J (j_null J) (map (apsnd norm) fs)) seq w = (Ret (), v) \<and> c_in v = [] \<or>
    c_out v = [] \<or> reports_failure J (c_out v)"
proof -
  let ?root = "assign J (j_null J) (map (apsnd norm) fs)" let ?p = "dumpJson J (assign J (j_null J) fs)"
  let ?fr = "\<lparr>f_type = FT_Json, f_flags = 0, f_payload = ?p\<rparr>"
  have w: "c_authed w" "c_in w = []" "c_out w = []" using assms(2) by (simp_all add: attentive_def)
  have env: "parseJson J ?p = (True, ?root, [])" "get_string J ?root ''cmd'' [] = Inr cmd" "get_u64 J ?root ''seq'' = Inr seq"
    "given_token J ?root cmd (c_authed w) = Inr []"
    using assms(3-6) w(1) plain_printable
    by (simp_all add: parse_dump get_string_def get_as_assign map_of_apsnd norm_str as_str get_u64_assign given_token_def)
  obtain r u where d: "dispatch A J cmd ?root seq w = (r, u)" by fastforce
  have v: "v = snd (bindE (guardedFrame A J ?fr) (\<lambda>_. onRead A J) w)"
    using onRead_one [OF assms(7) w(2), of A J] assms(8) by simp
  have h: "handleFrame A J ?fr w = catchE (dispatch A J cmd ?root seq)
      (\<lambda>e. case e of CloudError c m \<Rightarrow> sendError J seq c m | StdException m \<Rightarrow> throw e) w"
    using handleJson_dispatch [OF env, of A] by (simp add: handleFrame_def)
  note ans = answers_dispatch [of A J cmd ?root seq, unfolded answers_def, THEN spec [of _ w]]
  show ?thesis
  proof (cases r)
    case (Ret x)
    then have "c_in u = []" using ans d w by auto
    then show ?thesis using v h d Ret by (simp add: guardedFrame_def catchE_run bindE_run onRead_idle)
  next
    case (Raise e)
    then have u: "c_in u = []" "c_out u = []" using ans d w by (auto simp: same_buffers_def)
    from dispatch_failure [OF assms(1) _ _ env(2-4), of ?fr "[]" A e u] env(1) d Raise
    show ?thesis using v u w by (auto simp: bindE_run onRead_idle)
  next
    case Blocked
    then have "c_out u = []" using ans d w by (auto simp: same_buffers_def)
    then show ?thesis using v h d Blocked by (simp add: guardedFrame_def catchE_run bindE_run)
  next
    case Undef
    then have "c_out u = []" using ans d w by (auto simp: same_buffers_def)
    then show ?thesis using v h d Undef by (simp add: guardedFrame_def catchE_run bindE_run)
  qed
qed

end

section \<open>The client's side\<close>

lemma peer_env_simps [simp]:
  "json (peer_env A J piece E) = J" "lib (peer_env A J piece E) = lib E" "turns (peer_env A J piece E) = turns E"
  "ofs_open (peer_env A J piece E) = ofs_open E" "ofs_write (peer_env A J piece E) = ofs_write E"
  by (simp_all add: peer_env_def)

text \<open>An answer that does not come: the client's \<open>recv\<close> delivers nothing.\<close>

lemma exchange_nothing:
  assumes "encode FT_Json payload 0 = Inr raw"
    and "c_out (snd (onRead A J ((srv (net s))\<lparr>c_in := c_in (srv (net s)) @ inbox (net s) @ raw\<rparr>))) = []"
  shows "\<exists>e t. exchange (peer_env A J piece E) payload s = (Raise e, t)"
proof -
  let ?E = "peer_env A J piece E"
  obtain n1 where n1: "sendFrame ?E FT_Json payload s = (Ret (), s\<lparr>net := n1\<rparr>)" "inbox n1 = inbox (net s) @ raw" "srv n1 = srv (net s)"
    using peer_out.sendFrame_run [OF assms(1), of A J piece E s] by auto
  have "c_out (srv (peer_reads A J n1)) = []"
    using n1 assms(2) encode_nonempty [OF assms(1)] by (simp add: peer_reads_def)
  then have "fst (sk_recv ?E fd len n1) = []" for fd len
    by (simp add: peer_env_def peer_recv_def Let_def)
  then have "\<exists>t. readAll ?E kHeaderSize (s\<lparr>net := n1\<rparr>) = (Raise (StdException ''connection closed while receiving''), t)"
    using header_size_pos
    by (cases "sk_recv ?E (cl_fd s) kHeaderSize n1") (auto simp: readAll.simps [of ?E] dest: arg_cong [where f = fst])
  then show ?thesis using n1(1) by (auto simp: exchange_def recvFrame_def bindE_run)
qed

text \<open>The members of a request.\<close>

definition envelope :: "'j jsoncpp \<Rightarrow> string \<Rightarrow> 'j \<Rightarrow> ('r, 'm, 'f, 'n, 'z) client_scheme \<Rightarrow> (string \<times> 'j) list" where
  "envelope J cmd data s = [(''cmd'', j_str J cmd), (''seq'', j_UInt64 J (cl_seq s + 1))] @
     (if cl_token s \<noteq> [] then [(''token'', j_str J (cl_token s))] else []) @ [(''data'', data)]"

lemma envelope_members:
  "map_of (rev (envelope J cmd data s)) ''cmd'' = Some (j_str J cmd)"
  "map_of (rev (envelope J cmd data s)) ''seq'' = Some (j_UInt64 J (cl_seq s + 1))"
  "map_of (rev (envelope J cmd data s)) ''data'' = Some data"
  "members J [(''data'', data)] \<Longrightarrow> members J (envelope J cmd data s)"
  by (auto simp: envelope_def members_def)

lemma request_exchange:
  "request (peer_env A J piece E) cmd data s =
     bindE (exchange (peer_env A J piece E) (dumpJson J (assign J (j_null J) (envelope J cmd data s)))) (\<lambda>f.
     bindE (if f_type f \<noteq> FT_Json then throw (StdException ''expected json reply'')
       else (case parseJson J (f_payload f) of (ok, v, err) \<Rightarrow>
         if \<not> ok then throw (StdException ''bad json reply'') else return v)) (\<lambda>reply.
     bindE (liftS (get_as J (j_asInt J) reply ''code'' (j_Int J 500))) (\<lambda>code.
       if code \<noteq> 0 then
         bindE (liftS (get_string J reply ''msg'' ''error'')) (\<lambda>msg.
         throw (StdException (cmd @ '' failed: '' @ msg)))
       else return reply))) (s\<lparr>cl_seq := cl_seq s + 1\<rparr>)"
  by (simp add: request_def exchange_def recvJson_def envelope_def bindE_assoc Let_def bindE_run(1) [OF gets_run] bindE_run(1) [OF modify_run]
      cong: if_cong)

context json_wire
begin

text \<open>A reply as the client parses it.\<close>

definition reply :: "u64 \<Rightarrow> int \<Rightarrow> string \<Rightarrow> 'j \<Rightarrow> 'j" where
  "reply seq code msg d = assign J (j_null J) (map (apsnd norm)
     [(''seq'', j_UInt64 J seq), (''code'', j_Int J code), (''msg'', j_str J msg), (''data'', d)])"

lemma reply_parsed:
  "members J [(''data'', d)] \<Longrightarrow> - (2 ^ 31) \<le> code \<Longrightarrow> code < 2 ^ 31 \<Longrightarrow>
   parseJson J (dumpJson J (makeReply J seq code msg d)) = (True, reply seq code msg d, [])"
  unfolding makeReply_def reply_def by (rule parse_dump) simp

lemma reply_code: "- (2 ^ 31) \<le> code \<Longrightarrow> code < 2 ^ 31 \<Longrightarrow> get_as J (j_asInt J) (reply seq code msg d) ''code'' x = Inr code"
  unfolding reply_def by (subst get_as_assign [where x = "norm (j_Int J code)"], simp) (rule norm_Int)

text \<open>Reading a member of the reply's data.\<close>

lemma reply_data:
  assumes "scalars J gs" and "map_of (rev gs) key \<noteq> None"
  shows "data_at J as (reply seq code msg (assign J (j_null J) gs)) key = as (norm (the (map_of (rev gs) key)))"
    and "data_get J as (reply seq code msg (assign J (j_null J) gs)) key def = as (norm (the (map_of (rev gs) key)))"
proof -
  obtain y where y: "map_of (rev gs) key = Some y" using assms(2) by blast
  have d: "j_at J (reply seq code msg (assign J (j_null J) gs)) ''data'' = Inr (assign J (j_null J) (map (apsnd norm) gs))"
    unfolding reply_def by (rule data_member) (use assms(1) in simp_all)
  have x: "map_of (rev (map (apsnd norm) gs)) key = Some (norm y)" using y by (simp add: map_of_apsnd)
  show "data_at J as (reply seq code msg (assign J (j_null J) gs)) key = as (norm (the (map_of (rev gs) key)))"
    using d at_assign [OF x] y by (simp add: data_at_def)
  show "data_get J as (reply seq code msg (assign J (j_null J) gs)) key def = as (norm (the (map_of (rev gs) key)))"
    using d get_as_assign [OF x] y by (simp add: data_get_def)
qed

lemma failure_parsed:
  assumes "encode FT_Json p 0 = Inr raw" and "reports_failure J raw"
  shows "\<exists>seq c msg. p = dumpJson J (makeReply J seq (code_value c) msg (j_objectValue J)) \<and> c \<noteq> Ok \<and>
    parseJson J p = (True, reply seq (code_value c) msg (j_objectValue J), [])"
proof -
  obtain seq c msg where r: "c \<noteq> Ok" "encode FT_Json (dumpJson J (makeReply J seq (code_value c) msg (j_objectValue J))) 0 = Inr raw"
    using assms(2) by (auto simp: reports_failure_def)
  have "p = dumpJson J (makeReply J seq (code_value c) msg (j_objectValue J))"
    using nextFrame_encode [OF assms(1), of "[]"] nextFrame_encode [OF r(2), of "[]"] by simp
  moreover have "parseJson J (dumpJson J (makeReply J seq (code_value c) msg (j_objectValue J))) =
      (True, reply seq (code_value c) msg (j_objectValue J), [])"
    by (rule reply_parsed) (cases c; simp)+
  ultimately show ?thesis using r(1) by blast
qed

lemma code_value_failure: "c \<noteq> Ok \<Longrightarrow> code_value c \<noteq> 0" "- (2 ^ 31) \<le> code_value c" "code_value c < 2 ^ 31"
  by (cases c; simp)+

text \<open>The three ways an exchange ends: it throws, the answer reports a failure, or it is what the handler
  sent.\<close>

lemma exchanged:
  fixes s :: "('a, 'b, 'c, ('r, 'm, 'f) peer, 'z) client_scheme"
  assumes "json_errors J" and "c_in (srv (net s)) = []" and "absorbed A J (inbox (net s)) (srv (net s)) U" and "members J fs"
    and "map_of (rev fs) ''cmd'' = Some (j_str J cmd)" and "printable cmd" and "map_of (rev fs) ''seq'' = Some (j_UInt64 J seq)"
  obtains (raised) e t where "exchange (peer_env A J piece E) (dumpJson J (assign J (j_null J) fs)) s = (Raise e, t)"
    | (failed) q n k c msg where
      "exchange (peer_env A J piece E) (dumpJson J (assign J (j_null J) fs)) s = (Ret \<lparr>f_type = FT_Json, f_flags = 0, f_payload = q\<rparr>, s\<lparr>net := n\<rparr>)"
      "c \<noteq> Ok" "parseJson J q = (True, reply k (code_value c) msg (j_objectValue J), [])"
    | (answered) u v t q where "U u" "attentive u"
      "dispatch A J cmd (assign J (j_null J) (map (apsnd norm) fs)) seq u = (Ret (), v)" "encode t q 0 = Inr (c_out v)"
      "exchange (peer_env A J piece E) (dumpJson J (assign J (j_null J) fs)) s =
         (Ret \<lparr>f_type = t, f_flags = 0, f_payload = q\<rparr>, s\<lparr>net := \<lparr>srv = v\<lparr>c_out := []\<rparr>, inbox = []\<rparr>\<rparr>)"
proof -
  let ?E = "peer_env A J piece E" let ?p = "dumpJson J (assign J (j_null J) fs)"
  show thesis
  proof (cases "encode FT_Json ?p 0")
    case (Inl e)
    then show thesis by (intro raised) (simp add: exchange_def sendFrame_def bindE_def)
  next
    case (Inr raw)
    define v where "v = snd (onRead A J ((srv (net s))\<lparr>c_in := inbox (net s) @ raw\<rparr>))"
    have first: "exchange ?E ?p s = (Ret \<lparr>f_type = t, f_flags = 0, f_payload = q\<rparr>, s\<lparr>net := \<lparr>srv = v\<lparr>c_out := rest\<rparr>, inbox = []\<rparr>\<rparr>)"
      if "encode t q 0 = Inr x" "c_out v = x @ rest" for t q x rest
      by (rule exchange_first [OF Inr _ that]) (use assms(2) in \<open>simp add: v_def\<close>)
    have none: thesis if "c_out v = []"
    proof -
      have "\<exists>e t. exchange ?E ?p s = (Raise e, t)" by (rule exchange_nothing [OF Inr]) (use assms(2) that in \<open>simp add: v_def\<close>)
      then show thesis using raised by blast
    qed
    have bad: thesis if c: "c_out v = x @ rest" "reports_failure J x" for x rest
    proof -
      obtain q where q: "encode FT_Json q 0 = Inr x" using c(2) by (auto simp: reports_failure_def)
      show thesis using failed [OF first [OF q c(1)]] failure_parsed [OF q c(2)] by blast
    qed
    from assms(3) [unfolded absorbed_def, THEN spec [of _ raw]] consider u where "U u" "attentive u" "v = snd (onRead A J (u\<lparr>c_in := raw\<rparr>))"
      | "c_out v = []" | x rest where "c_out v = x @ rest" "reports_failure J x" unfolding v_def by fastforce
    then show thesis
    proof cases
      case (1 u)
      from served [OF assms(1) 1(2) assms(4-7) Inr 1(3) [symmetric]]
      consider "dispatch A J cmd (assign J (j_null J) (map (apsnd norm) fs)) seq u = (Ret (), v)" | "c_out v = []" | "reports_failure J (c_out v)" by blast
      then show thesis
      proof cases
        case ok: 1
        then have "one_frame (c_out v)" using answers_Ret [OF answers_dispatch ok] 1(2) by (auto simp: attentive_def)
        then obtain t q where "encode t q 0 = Inr (c_out v)" by (auto simp: one_frame_def)
        with answered [OF 1(1,2) ok] first [of t q "c_out v" "[]"] show thesis by simp
      qed (use none bad [of _ "[]"] in auto)
    qed (use none bad in blast)+
  qed
qed

text \<open>The client gives up on an answer that reports a failure.\<close>

lemma failure_thrown:
  assumes "c \<noteq> Ok"
  shows "\<exists>e. bindE (liftS (get_as J (j_asInt J) (reply k (code_value c) msg d) ''code'' x)) (\<lambda>code.
     if code \<noteq> 0 then bindE (liftS (get_string J (reply k (code_value c) msg d) ''msg'' def)) (\<lambda>msg. throw (h msg))
     else m) s = (Raise e, s)"
  using code_value_failure [of c] assms
  by (cases "get_string J (reply k (code_value c) msg d) ''msg'' def") (simp_all add: reply_code bindE_run)

text \<open>A request whose handler, when it returns, has answered by \<open>sendOk\<close>.\<close>

lemma request_served:
  fixes s :: "('a, 'b, 'c, ('r, 'm, 'f) peer, 'z) client_scheme"
  assumes "json_errors J" and "c_in (srv (net s)) = []" and "absorbed A J (inbox (net s)) (srv (net s)) U"
    and "members J [(''data'', data)]" and "printable cmd"
    and handled: "\<And>w v. U w \<Longrightarrow> attentive w \<Longrightarrow>
      dispatch A J cmd (assign J (j_null J) (map (apsnd norm) (envelope J cmd data s))) (cl_seq s + 1) w = (Ret (), v) \<Longrightarrow>
      \<exists>u d. Q u d \<and> members J [(''data'', d)] \<and> c_out u = [] \<and> sendOk J (cl_seq s + 1) d u = (Ret (), v)"
  shows "(\<exists>e t. request (peer_env A J piece E) cmd data s = (Raise e, t)) \<or>
    (\<exists>u d. Q u d \<and> request (peer_env A J piece E) cmd data s =
       (Ret (reply (cl_seq s + 1) 0 ''ok'' d), s\<lparr>cl_seq := cl_seq s + 1, net := \<lparr>srv = u, inbox = []\<rparr>\<rparr>))"
proof -
  let ?seq = "cl_seq s + 1" and ?fs = "envelope J cmd data s" and ?s = "s\<lparr>cl_seq := cl_seq s + 1\<rparr>"
  note req = request_exchange [of A J piece E cmd data s]
  have s: "c_in (srv (net ?s)) = []" "absorbed A J (inbox (net ?s)) (srv (net ?s)) U" using assms(2,3) by simp_all
  show ?thesis
  proof (cases rule: exchanged [OF assms(1) s envelope_members(4) [OF assms(4), of cmd s] envelope_members(1) assms(5) envelope_members(2),
        of piece E, case_names raised failed answered])
    case (raised e t)
    then show ?thesis by (simp add: req bindE_run)
  next
    case (failed q n k c msg)
    let ?r = "reply k (code_value c) msg (j_objectValue J)"
    obtain e where "request (peer_env A J piece E) cmd data s = (Raise e, ?s\<lparr>net := n\<rparr>)"
      using failed failure_thrown [OF failed(2), of k msg "j_objectValue J" "j_Int J 500" "''error''"
          "\<lambda>msg. StdException (cmd @ '' failed: '' @ msg)" "return ?r" "?s\<lparr>net := n\<rparr>"] by (auto simp: req bindE_run)
    then show ?thesis by blast
  next
    case (answered w v t q)
    then obtain u d where u: "Q u d" "members J [(''data'', d)]" "c_out u = []" "sendOk J ?seq d u = (Ret (), v)"
      using handled by blast
    then obtain r where r: "encode FT_Json (dumpJson J (makeReply J ?seq 0 ''ok'' d)) 0 = Inr r" "v = u\<lparr>c_out := r\<rparr>"
      by (auto simp: sendOk_def sendJson_def bufferevent_write_def bindE_def liftS_def split: sum.splits)
    have "t = FT_Json" "q = dumpJson J (makeReply J ?seq 0 ''ok'' d)" "v\<lparr>c_out := []\<rparr> = u"
      using nextFrame_encode [OF answered(4), of "[]"] nextFrame_encode [OF r(1), of "[]"] r(2) u(3) by simp_all
    then have "request (peer_env A J piece E) cmd data s = (Ret (reply ?seq 0 ''ok'' d), ?s\<lparr>net := \<lparr>srv = u, inbox = []\<rparr>\<rparr>)"
      using answered(5) by (simp add: req bindE_run reply_parsed [OF u(2)] reply_code)
    then show ?thesis using u(1) by auto
  qed
qed

text \<open>The same with nothing in front of the request.\<close>

lemma request_alone:
  fixes s :: "('a, 'b, 'c, ('r, 'm, 'f) peer, 'z) client_scheme"
  assumes "json_errors J" and "attentive (srv (net s))" and "inbox (net s) = []" and "members J [(''data'', data)]" and "printable cmd"
    and "\<And>v. dispatch A J cmd (assign J (j_null J) (map (apsnd norm) (envelope J cmd data s))) (cl_seq s + 1) (srv (net s)) = (Ret (), v) \<Longrightarrow>
      \<exists>u d. Q u d \<and> members J [(''data'', d)] \<and> c_out u = [] \<and> sendOk J (cl_seq s + 1) d u = (Ret (), v)"
  shows "(\<exists>e t. request (peer_env A J piece E) cmd data s = (Raise e, t)) \<or>
    (\<exists>u d. Q u d \<and> request (peer_env A J piece E) cmd data s =
       (Ret (reply (cl_seq s + 1) 0 ''ok'' d), s\<lparr>cl_seq := cl_seq s + 1, net := \<lparr>srv = u, inbox = []\<rparr>\<rparr>))"
  by (rule request_served [OF assms(1) _ _ assms(4,5), of _ _ "(=) (srv (net s))"])
    (use assms(2,3,6) absorbed_nothing [OF assms(2), of A J] in \<open>auto simp: attentive_def\<close>)

end

end
