(* ===== verification/Peer_Chunks.thy ===== *)
theory Peer_Chunks
  imports Peer_Facts Delivery_Facts
begin

text \<open>
  The chunks of an upload on their way: the client sends them without waiting for an answer, the server
  finds them in front of the next command. Either it has written them all when it comes to the command,
  or what the client gets in place of the command's answer is not an answer of success.
\<close>

section \<open>What a computation leaves alone\<close>

lemma resolveAny_state: "snd (resolveAny A path w) = w"
proof -
  have r: "\<exists>q. resolveUserPath A path b w = (q, w)" for b
    by (auto simp: resolveUserPath_def requireLogin_def bindE_def)
  obtain q where "resolveUserPath A path True w = (q, w)" using r by blast
  then show ?thesis using r [of False] by (cases q) (auto simp: resolveAny_def catchE_def split: exn.splits)
qed

lemma liftS_Inr: "liftS (Inr x) = return x"
  by (simp add: liftS_def)

lemma no_progress: "bindE (reportProgress None i n phase) k = k ()"
  by (simp add: reportProgress_def)

lemma gets_left: "bindE (gets g) k = (\<lambda>w. k (g w) w)"
  by (simp add: fun_eq_iff bindE_def)

text \<open>Computations that leave the session of the connection as it is.\<close>

definition steady :: "(('r, 'm, 'f, 'z) cstate_scheme, 'a) cpp \<Rightarrow> bool" where
  "steady m \<longleftrightarrow> (\<forall>w. c_session (snd (m w)) = c_session w \<and> c_authed (snd (m w)) = c_authed w)"

lemma steady_bind: "steady m \<Longrightarrow> (\<And>x. steady (f x)) \<Longrightarrow> steady (bindE m f)"
  unfolding steady_def bindE_def by (auto split: prod.splits outcome.splits) (metis snd_conv)+

lemma steady_if: "(b \<Longrightarrow> steady m) \<Longrightarrow> (\<not> b \<Longrightarrow> steady n) \<Longrightarrow> steady (if b then m else n)"
  by simp

lemma steady_more: "more_frame m \<Longrightarrow> steady m"
  unfolding steady_def
proof
  fix w :: "('a, 'b, 'c, 'd) cstate_scheme"
  assume "more_frame m"
  then have "world.more (snd (m w)) = world.more w" by (rule more_frameD)
  then show "c_session (snd (m w)) = c_session w \<and> c_authed (snd (m w)) = c_authed w"
    by (cases w; cases "snd (m w)") simp
qed

lemma steady_finish: "steady (finishUpload A ses)"
  unfolding finishUpload_def
  by (rule steady_bind, rule steady_more, intro more_frame_intros, rule steady_if, rule steady_more, intro more_frame_intros,
      rule steady_bind, rule steady_more, intro more_frame_intros, rule steady_bind, rule steady_more, intro more_frame_intros,
      rule steady_bind, simp add: steady_def, rule steady_more, intro more_frame_intros)

lemma same_more:
  fixes w :: "('r, 'm, 'f, 'z) cstate_scheme"
  assumes "more_frame m" and "m w = (r, w')"
  shows "c_authed w' = c_authed w" "c_in w' = c_in w" "c_out w' = c_out w" "c_session w' = c_session w"
    "upload w' = upload w" "download w' = download w"
proof -
  have e: "world.more w' = world.more w" using more_frameD [OF assms(1), of w] assms(2) by simp
  then show "c_authed w' = c_authed w" "c_in w' = c_in w" "c_out w' = c_out w" "c_session w' = c_session w"
    "upload w' = upload w" "download w' = download w" by (cases w; cases w'; simp)+
qed

section \<open>Chunks in front of a command\<close>

text \<open>Whatever the server does with its input, it only appends to its output.\<close>

lemma guarded_out: "\<exists>x. c_out (snd (guardedFrame A J fr w)) = c_out w @ x"
proof (cases "f_type fr = FT_Json")
  case True
  have "case guardedFrame A J fr w of
       (Ret x, w') \<Rightarrow> \<exists>raw. one_frame raw \<and> c_out w' = c_out w @ raw \<and> c_in w' = c_in w \<and> c_open w' = c_open w
     | (_, w') \<Rightarrow> same_buffers w w'"
    by (rule guardedFrame_json [OF True, unfolded answers_def, THEN spec])
  then show ?thesis by (auto simp: same_buffers_def split: prod.splits outcome.splits)
next
  case False
  obtain r v where h: "handleFrame A J fr w = (r, v)" by fastforce
  have q: "c_out v = c_out w" using quiet_handleFrame [OF False, of A J] h by (auto simp: quiet_def same_buffers_def dest: spec [of _ w])
  have "\<exists>x. c_out (snd (sendError J 0 c t v)) = c_out v @ x" for c t
    by (cases "encode FT_Json (dumpJson J (makeReply J 0 (code_value c) t (j_objectValue J))) 0")
      (auto simp: sendError_def sendJson_def bufferevent_write_def bindE_def)
  then show ?thesis using h q by (cases r) (auto simp: guardedFrame_def catchE_run split: exn.splits)
qed

lemma onRead_out: "\<exists>x. c_out (snd (onRead A J w)) = c_out w @ x"
proof (induction "c_in w" arbitrary: w rule: drain.induct)
  case 1
  show ?case
  proof (cases "nextFrame (c_in w)")
    case BadFrame
    then show ?thesis using closeConnection_run [of A w] by (auto simp: onRead_unfold [of A J w])
  next
    case (GotFrame fr rest)
    obtain r v where g: "guardedFrame A J fr (w\<lparr>c_in := rest\<rparr>) = (r, v)" by fastforce
    obtain x where x: "c_out v = c_out w @ x" using guarded_out [of A J fr "w\<lparr>c_in := rest\<rparr>"] g by auto
    have run: "onRead A J w = bindE (guardedFrame A J fr) (\<lambda>_. onRead A J) (w\<lparr>c_in := rest\<rparr>)"
      using GotFrame by (simp add: onRead_unfold [of A J w])
    show ?thesis
    proof (cases r)
      case (Ret y)
      then have "c_in v = rest" using guardedFrame_run g by fastforce
      then obtain z where "c_out (snd (onRead A J v)) = c_out v @ z" using 1 GotFrame by metis
      then show ?thesis using run g Ret x by (simp add: bindE_run)
    qed (use run g x in \<open>simp_all add: bindE_run\<close>)
  qed (simp add: onRead_unfold [of A J w])
qed

text \<open>A chunk is written whatever else waits in the input, and leaves the connection as it is.\<close>

lemma writeChunk_conn:
  fixes w :: "('r, 'm, 'f, 'z) cstate_scheme"
  shows "writeChunk A off d n (w\<lparr>c_in := x\<rparr>) = (fst (writeChunk A off d n w), (snd (writeChunk A off d n w))\<lparr>c_in := x\<rparr>)"
    and "c_session (snd (writeChunk A off d n w)) = c_session w" and "c_authed (snd (writeChunk A off d n w)) = c_authed w"
  by (simp_all add: writeChunk_def bindE_def on_os_run Let_def)

lemma chunk_handled:
  assumes "length fileId = 32"
  shows "handleFrame A J (chunk_frame fileId (off, d)) = handleChunk A \<lparr>c_fileId = fileId, c_offset = off, c_data = d\<rparr>"
  using assms by (simp add: handleFrame_def chunk_frame_def FT_Json_def FT_Chunk_def decodeChunk_payload)

lemma coded_handleChunk: "coded (handleChunk A chunk)"
  unfolding handleChunk_def by (intro coded_intros) simp_all

text \<open>One chunk.\<close>

lemma chunk_taken:
  fixes w :: "('r, 'm, 'f, 'z) cstate_scheme"
  assumes "attentive w" and "length fileId = 32"
  obtains (written) v where "writeChunk A off d (of_nat (length d)) w = (Ret (), v)" "attentive v"
      "guardedFrame A J (chunk_frame fileId (off, d)) (w\<lparr>c_in := rest\<rparr>) = (Ret (), v\<lparr>c_in := rest\<rparr>)"
    | (refused) v raw where "guardedFrame A J (chunk_frame fileId (off, d)) (w\<lparr>c_in := rest\<rparr>) = (Ret (), v\<lparr>c_out := raw\<rparr>)"
      "reports_failure J raw"
    | (stuck) r v where "guardedFrame A J (chunk_frame fileId (off, d)) (w\<lparr>c_in := rest\<rparr>) = (r, v)" "c_out v = []" "r \<noteq> Ret ()"
proof -
  let ?c = "\<lparr>c_fileId = fileId, c_offset = off, c_data = d\<rparr>" let ?w = "w\<lparr>c_in := rest\<rparr>"
  obtain r v where h: "handleFrame A J (chunk_frame fileId (off, d)) ?w = (r, v)" by fastforce
  then have hc: "handleChunk A ?c ?w = (r, v)" using assms(2) by (simp add: chunk_handled)
  have out: "c_out v = c_out ?w" "c_out v = []"
    using quiet_handleChunk [of A ?c] hc assms(1) by (auto simp: quiet_def same_buffers_def attentive_def dest: spec [of _ ?w])
  show thesis
  proof (cases r)
    case (Ret x)
    obtain v' where v': "writeChunk A off d (of_nat (length d)) w = (Ret (), v')" "v = v'\<lparr>c_in := rest\<rparr>"
      using hc Ret writeChunk_conn(1) [where A = A and off = off and d = d and n = "of_nat (length d)" and w = w and x = rest]
      by (cases "writeChunk A off d (of_nat (length d)) w") (auto simp: handleChunk_def bindE_def split: if_splits)
    have "same_buffers w (snd (writeChunk A off d (of_nat (length d)) w))"
      by (rule quiet_service(1) [unfolded quiet_def, THEN spec])
    then have "attentive v'" using writeChunk_conn(3) [where A = A and off = off and d = d and n = "of_nat (length d)" and w = w] v'(1) assms(1)
      by (simp add: attentive_def same_buffers_def)
    then show thesis using written [OF v'(1)] h Ret v'(2) by (simp add: guardedFrame_def catchE_run)
  next
    case (Raise e)
    have "failure e" by (rule codedD [OF coded_handleChunk]) (use hc Raise in simp)
    from guarded_failure [OF h [unfolded Raise] this out(1)]
    consider raw where "guardedFrame A J (chunk_frame fileId (off, d)) ?w = (Ret (), v\<lparr>c_out := c_out ?w @ raw\<rparr>)" "reports_failure J raw"
      | "guardedFrame A J (chunk_frame fileId (off, d)) ?w = (Raise (CloudError PayloadTooLarge ''frame too large''), v)" by blast
    then show thesis
    proof cases
      case 1
      then show thesis using out by (intro refused) simp_all
    next
      case 2
      then show thesis using stuck [OF _ out(2)] by simp
    qed
  qed (use stuck h out in \<open>auto simp: guardedFrame_def catchE_run\<close>)
qed

lemma chunks_absorbed:
  fixes w :: "('r, 'm, 'f, 'z) cstate_scheme"
  assumes "length fileId = 32"
  shows "attentive w \<Longrightarrow> list_all2 (\<lambda>fr s. encode (f_type fr) (f_payload fr) (f_flags fr) = Inr s) (map (chunk_frame fileId) cs) ss \<Longrightarrow>
    absorbed A J (concat ss) w (\<lambda>u. write_chunks A cs w = (Ret (), u))"
proof (induction cs arbitrary: w ss)
  case Nil
  then show ?case using absorbed_nothing [OF Nil.prems(1), of A J] by (simp add: absorbed_def write_chunks_def)
next
  case (Cons c cs)
  obtain off d where c: "c = (off, d)" by fastforce
  let ?fr = "chunk_frame fileId (off, d)"
  obtain raw rs where ss: "ss = raw # rs" "encode (f_type ?fr) (f_payload ?fr) (f_flags ?fr) = Inr raw"
      "list_all2 (\<lambda>fr s. encode (f_type fr) (f_payload fr) (f_flags fr) = Inr s) (map (chunk_frame fileId) cs) rs"
    using Cons.prems(2) by (auto simp: c list_all2_Cons1)
  have fl: "f_flags ?fr = 0" by (simp add: chunk_frame_def)
  show ?case
    unfolding absorbed_def
  proof
    fix rest
    let ?x = "concat rs @ rest"
    have "nextFrame (raw @ ?x) = GotFrame ?fr ?x"
      using nextFrame_encode [OF ss(2) [unfolded fl], of ?x] fl by (simp add: chunk_frame_def)
    then have run: "onRead A J (w\<lparr>c_in := concat ss @ rest\<rparr>) = bindE (guardedFrame A J ?fr) (\<lambda>_. onRead A J) (w\<lparr>c_in := ?x\<rparr>)"
      by (simp add: ss(1) onRead_unfold)
    show "(\<exists>u. write_chunks A (c # cs) w = (Ret (), u) \<and> attentive u \<and> onRead A J (w\<lparr>c_in := concat ss @ rest\<rparr>) = onRead A J (u\<lparr>c_in := rest\<rparr>)) \<or>
        c_out (snd (onRead A J (w\<lparr>c_in := concat ss @ rest\<rparr>))) = [] \<or>
        (\<exists>raw x. c_out (snd (onRead A J (w\<lparr>c_in := concat ss @ rest\<rparr>))) = raw @ x \<and> reports_failure J raw)"
    proof (cases rule: chunk_taken [OF Cons.prems(1) assms, of A off d J ?x, case_names written refused stuck])
      case (written v)
      then have "write_chunks A (c # cs) w = write_chunks A cs v" by (simp add: write_chunks_def c bindE_run)
      then show ?thesis using Cons.IH [OF written(2) ss(3), unfolded absorbed_def, THEN spec [of _ rest]] run written(3)
        by (simp add: bindE_run)
    next
      case (refused v r)
      then have "onRead A J (w\<lparr>c_in := concat ss @ rest\<rparr>) = onRead A J (v\<lparr>c_out := r\<rparr>)" using run by (simp add: bindE_run)
      then show ?thesis using onRead_out [of A J "v\<lparr>c_out := r\<rparr>"] refused(2) by auto
    next
      case (stuck r v)
      then show ?thesis using run by (cases r) (simp_all add: bindE_run)
    qed
  qed
qed

lemma write_chunks_session: "write_chunks A cs w = (Ret (), u) \<Longrightarrow> c_session u = c_session w"
proof (induction cs arbitrary: w)
  case (Cons c cs)
  obtain off d where c: "c = (off, d)" by fastforce
  from Cons.prems obtain x v where "writeChunk A off d (of_nat (length d)) w = (Ret x, v)" "write_chunks A cs v = (Ret (), u)"
    unfolding write_chunks_def c by (auto elim: bindE_RetD)
  then show ?case using Cons.IH writeChunk_conn(2) [where A = A and off = off and d = d and n = "of_nat (length d)" and w = w] by simp
qed (simp add: write_chunks_def)

text \<open>The upload loop throws, or it has sent the rest of the file as consecutive chunks.\<close>

lemma upload_loop_cases:
  fixes s :: "('a, 'b, 'c, ('r, 'm, 'f) peer, 'z) client_scheme"
  assumes "0 < chunk" and "unat chunk + 40 \<le> kMaxFrameSize" and "sent \<le> fsize" and "length rest = unat (fsize - sent)"
  obtains (raised) e t where "upload_loop (peer_env A J piece E) None fileId chunk fsize sent rest s = (Raise e, t)"
    | (sent) cs ss n' where "upload_loop (peer_env A J piece E) None fileId chunk fsize sent rest s = (Ret (), s\<lparr>net := n'\<rparr>)"
      "inbox n' = inbox (net s) @ concat ss" "srv n' = srv (net s)"
      "list_all2 (\<lambda>fr s. encode (f_type fr) (f_payload fr) (f_flags fr) = Inr s) (map (chunk_frame fileId) cs) ss"
      "consecutive sent cs" "concat (map snd cs) = rest" "cs = [] \<or> length fileId = 32"
proof (cases "length fileId = 32")
  case True
  from peer_out.upload_loop_run [OF this assms, of A J piece E s] True show thesis using that(2) by blast
next
  case False
  show thesis
  proof (cases "sent < fsize")
    case True
    let ?d = "take (unat (min (ucast chunk) (fsize - sent))) rest"
    have "?d \<noteq> []" using upload_step(1,3) [OF True assms(1)] assms(4) by auto
    then have "\<exists>e. upload_loop (peer_env A J piece E) None fileId chunk fsize sent rest s = (Raise e, s)"
      using True False
      by (subst upload_loop.simps) (simp add: Let_def client_sendChunk_def encodeChunk_def bindE_def del: take_eq_Nil)
    then show thesis using that(1) by blast
  next
    case False
    then have "fsize - sent = 0" using assms(3) by simp
    then have "rest = []" using assms(4) by simp
    then show thesis using False that(2) [of "net s" "[]" "[]"] by (simp add: upload_loop.simps)
  qed
qed

lemma chunks_small:
  "list_all2 (\<lambda>fr s. encode (f_type fr) (f_payload fr) (f_flags fr) = Inr s) (map (chunk_frame fileId) cs) ss \<Longrightarrow>
   \<forall>(off, d) \<in> set cs. length d < 2 ^ 32"
proof (induction cs arbitrary: ss)
  case (Cons c cs)
  then have "length (snd c) \<le> kMaxFrameSize" by (auto simp: list_all2_Cons1 chunk_frame_def encode_Inr)
  then show ?case using Cons by (auto simp: list_all2_Cons1 kMaxFrameSize_def)
qed simp

end
