(* ===== verification/Peer_Transfers.thy ===== *)
theory Peer_Transfers
  imports Peer_Chunks Round_Trip
begin

text \<open>
  The client library against the server: the client's own loops, the frames and JSON values between
  them, the connection's handlers and the services behind them. The locale \<open>peers\<close> puts the laws of
  the server's services, of the digests and of the JSON library together. Every call of the server may
  fail; then the client's call throws, and what is shown is shown of the calls that return.
  \<open>End_To_End\<close> interprets the locales and states the properties.
\<close>

section \<open>Client and server\<close>

text \<open>The file \<open>p\<close> a client writes through an \<open>std::ofstream\<close>.\<close>

locale local_file =
  fixes E :: "('a, 'b, 'c, 'n, 'j) cenv" and view :: "'c \<Rightarrow> string \<Rightarrow> string option" and p :: string
  assumes open_local: "view (ofs_open E p f) p = Some []"
    and write_local: "view f p = Some c \<Longrightarrow> view (ofs_write E p d f) p = Some (c @ d)"

text \<open>One turn of the download loop is an exchange.\<close>

definition chunk_request :: "'j jsoncpp \<Rightarrow> string \<Rightarrow> u64 \<Rightarrow> u32 \<Rightarrow> ('r, 'm, 'f, 'n, 'z) client_scheme \<Rightarrow> (string \<times> 'j) list" where
  "chunk_request J fileId got chunk s = [(''cmd'', j_str J ''download_chunk''), (''seq'', j_UInt64 J (cl_seq s + 1)),
     (''token'', j_str J (cl_token s)), (''data'', assign J (j_null J) [(''file_id'', j_str J fileId), (''offset'', j_UInt64 J got),
        (''length'', j_UInt J chunk)])]"

lemma download_turn:
  assumes "got < fsize"
  shows "download_loop (peer_env A J piece E) None (Suc n) fileId chunk localPath fsize got s =
    bindE (exchange (peer_env A J piece E) (dumpJson J (assign J (j_null J) (chunk_request J fileId got chunk s)))) (\<lambda>f.
      if f_type f = FT_Json then
        (case parseJson J (f_payload f) of (ok, v, err) \<Rightarrow>
           bindE (liftS (get_as J (j_asInt J) v ''code'' (j_Int J 1))) (\<lambda>code.
           if code \<noteq> 0 then bindE (liftS (get_string J v ''msg'' ''download failed'')) (\<lambda>msg. throw (StdException msg))
           else
             bindE (liftS (data_get J (j_asBool J) v ''eof'' (j_bool J False))) (\<lambda>eof.
             if eof then return got
             else download_loop (peer_env A J piece E) None n fileId chunk localPath fsize got)))
      else
        (case decodeChunk (f_payload f) of
           None \<Rightarrow> throw (StdException ''bad download chunk'')
         | Some cp \<Rightarrow>
             bindE (modify (\<lambda>s. s\<lparr>w_os := ofs_write E (c_str localPath) (c_data cp) (w_os s)\<rparr>)) (\<lambda>_.
             download_loop (peer_env A J piece E) None n fileId chunk localPath fsize (got + of_nat (length (c_data cp))))))
      (s\<lparr>cl_seq := cl_seq s + 1\<rparr>)"
  using assms
  by (simp add: exchange_def chunk_request_def reportProgress_def Let_def bindE_assoc bindE_run(1) [OF gets_run] bindE_run(1) [OF modify_run]
      cong: if_cong option.case_cong)

locale peers = delivery A strs sets fi ck fits ceq S files fds plain dg + json_wire J jobj utf8 norm
  for A :: "('r, 'm, 'f) env" and strs :: "'r \<Rightarrow> string \<Rightarrow> string option"
    and sets :: "'r \<Rightarrow> string \<Rightarrow> string set"
    and fi :: "'m \<Rightarrow> int \<times> string \<Rightarrow> indexed_file option"
    and ck :: "string \<Rightarrow> string" and fits :: "string \<Rightarrow> string \<Rightarrow> bool"
    and ceq :: "char \<Rightarrow> char \<Rightarrow> bool" and S :: "string set"
    and files :: "'f \<Rightarrow> string \<Rightarrow> string option" and fds :: "'f \<Rightarrow> int \<Rightarrow> (string \<times> nat) option"
    and plain :: "string \<Rightarrow> bool" and dg :: "digest_alg \<Rightarrow> string \<Rightarrow> u8 list"
    and J :: "'j jsoncpp" and jobj :: "'j \<Rightarrow> bool" and utf8 :: "string \<Rightarrow> bool" and norm :: "'j \<Rightarrow> 'j" +
  assumes own_errors: "json_errors J"
begin

text \<open>The arguments of a command as the server reads them.\<close>

lemma arguments:
  assumes "scalars J gs"
  shows "j_at J (assign J (j_null J) (map (apsnd norm) (envelope J cmd (assign J (j_null J) gs) s))) ''data'' =
      Inr (assign J (j_null J) (map (apsnd norm) gs))"
  by (rule data_member [OF _ assms]) (simp add: map_of_apsnd envelope_members)

section \<open>Downloading\<close>

lemma closeDownload_run:
  fixes w :: "('r, 'm, 'f, 'z) cstate_scheme"
  shows "\<exists>f dl. closeDownload A w = (Ret (), w\<lparr>w_os := f, download := dl\<rparr>) \<and> files f = files (w_os w)"
proof (cases "ds_fd (download w) \<ge> 0")
  case True
  then show ?thesis by (auto simp: closeDownload_def close_fd_def bindE_def on_os_run quiet)
next
  case False
  then have "closeDownload A w = (Ret (), w\<lparr>w_os := w_os w, download := download w\<rparr>)" by (simp add: closeDownload_def bindE_def)
  then show ?thesis by blast
qed

text \<open>\<open>download_begin\<close>: the object of the path is open.\<close>

lemma download_begin_handled:
  fixes w :: "('r, 'm, 'f, 'z) cstate_scheme"
  assumes "attentive w" and "live w" and "strs (w_redis w) (pathKey (s_userId (c_session w)) (c_str (''/'' @ logical))) = Some m"
    and "strs (w_redis w) (objKey (c_str m)) = Some obj" and "files (w_os w) (c_str obj) = Some y"
    and "objectPathFor A m = Inr obj" and "plain (c_str obj)" and "m \<noteq> []" and "obj \<noteq> []"
    and "normalizeLogical remote = Inr logical" and "utf8 remote"
    and "dispatch A J ''download_begin'' (assign J (j_null J) (map (apsnd norm)
        (envelope J cmd (assign J (j_null J) [(''path'', j_str J remote)]) s))) seq w = (Ret (), v)"
  shows "\<exists>u. attentive u \<and> sending obj y u \<and> sendOk J seq (assign J (j_null J)
       [(''file_id'', j_str J (ds_fileId (download u))), (''size'', j_UInt64 J (of_nat (length y))),
        (''chunk_size'', j_UInt J (chunkSize (cfg A)))]) u = (Ret (), v)"
proof -
  have path: "get_string J (assign J (j_null J) [(''path'', norm (j_str J remote))]) ''path'' [] = Inr remote"
    using assms(11) by (intro get_string_assign) (simp add: norm_str)
  have w: "c_authed w" "c_in w = []" "c_out w = []" using assms(1) by (simp_all add: attentive_def)
  obtain f dl where c: "closeDownload A w = (Ret (), w\<lparr>w_os := f, download := dl\<rparr>)" "files f = files (w_os w)"
    using closeDownload_run by blast
  define w1 where "w1 = w\<lparr>w_os := f, download := dl\<rparr>"
  from assms(12) have "onDownloadBegin A J (assign J (j_null J) (map (apsnd norm)
        (envelope J cmd (assign J (j_null J) [(''path'', j_str J remote)]) s))) seq w = (Ret (), v)"
    by (simp add: dispatch_def)
  then have "bindE (resolveAny A remote) (\<lambda>phys.
     bindE (gets c_session) (\<lambda>s.
     bindE (beginDownload A s (''/'' @ logical)) (\<lambda>dl.
     bindE (modify (\<lambda>w. w\<lparr>download := dl\<rparr>)) (\<lambda>_.
     sendOk J seq (assign J (j_null J)
       [(''file_id'', j_str J (ds_fileId dl)), (''size'', j_UInt64 J (ds_totalSize dl)),
        (''chunk_size'', j_UInt J (chunkSize (cfg A)))]))))) w1 = (Ret (), v)"
    unfolding onDownloadBegin_def
    by (simp add: requireLogin_def w arguments path assms(10) c(1) bindE_run bindE_run(1) [OF gets_run] w1_def)
  then obtain phys x dl w2 where r: "resolveAny A remote w1 = (Ret phys, x)"
      and b: "beginDownload A (c_session x) (''/'' @ logical) x = (Ret dl, w2)"
      and v: "sendOk J seq (assign J (j_null J) [(''file_id'', j_str J (ds_fileId dl)), (''size'', j_UInt64 J (ds_totalSize dl)),
          (''chunk_size'', j_UInt J (chunkSize (cfg A)))]) (w2\<lparr>download := dl\<rparr>) = (Ret (), v)"
    by (elim bindE_RetD) auto
  have x: "x = w1" using resolveAny_state [of A remote w1] r by simp
  have more: "c_authed w2 = c_authed w1" "c_in w2 = c_in w1" "c_out w2 = c_out w1"
    using same_more [OF more_frame_service(4) b] x by simp_all
  have "files (w_os w2) (c_str obj) = Some y \<and> ds_totalSize dl = of_nat (length y) \<and> (\<exists>k. fds (w_os w2) (ds_fd dl) = Some (c_str obj, k))"
    by (rule triple_Ret [OF d_beginDownload [OF assms(6-9)] _ b]) (use assms(2-5) c(2) x in \<open>simp add: w1_def\<close>)
  then show ?thesis using v more w
    by (intro exI [of _ "w2\<lparr>download := dl\<rparr>"]) (simp add: attentive_def sending_def w1_def)
qed

text \<open>\<open>download_chunk\<close> before the end of the object: the next bytes of it, in one chunk frame.\<close>

lemma download_chunk_handled:
  fixes w :: "('r, 'm, 'f, 'z) cstate_scheme"
  assumes "attentive w" and "sending obj y w" and "length y < 2 ^ 63" and "k < length y"
    and "0 < chunk" and "unat chunk \<le> kMaxFrameSize - 64"
    and "map_of (rev fs) ''data'' = Some (assign J (j_null J) [(''file_id'', j_str J fid), (''offset'', j_UInt64 J (of_nat k)),
        (''length'', j_UInt J chunk)])"
    and "dispatch A J ''download_chunk'' (assign J (j_null J) (map (apsnd norm) fs)) seq w = (Ret (), v)"
  shows "\<exists>i b raw. length i = 32 \<and> encodeChunk i (of_nat k) b = Inr raw \<and> v = w\<lparr>c_out := raw\<rparr> \<and>
    b \<noteq> [] \<and> b = take (length b) (drop k y)"
proof -
  let ?gs = "[(''file_id'', norm (j_str J fid)), (''offset'', norm (j_UInt64 J (of_nat k))), (''length'', norm (j_UInt J chunk))]"
  have w: "c_authed w" "c_out w = []" using assms(1) by (simp_all add: attentive_def)
  have root: "j_at J (assign J (j_null J) (map (apsnd norm) fs)) ''data'' = Inr (assign J (j_null J) ?gs)"
    using data_member [of "map (apsnd norm) fs" "[(''file_id'', j_str J fid), (''offset'', j_UInt64 J (of_nat k)), (''length'', j_UInt J chunk)]"]
      assms(7) by (simp add: map_of_apsnd)
  have off: "get_u64 J (assign J (j_null J) ?gs) ''offset'' = Inr (of_nat k)" by (rule get_u64_assign) simp
  have len: "get_as J (j_asUInt J) (assign J (j_null J) ?gs) ''length'' x = Inr chunk" for x
    by (subst get_as_assign [where x = "norm (j_UInt J chunk)"]) (simp_all add: norm_u32)
  have want: "wanted A chunk = chunk" using assms(5,6) by (auto simp: wanted_def)
  let ?i = "ds_fileId (download w)"
  have "bindE (readChunk A (of_nat k) chunk) (\<lambda>b.
      if b = [] then sendOk J seq (assign J (j_null J) [(''eof'', j_bool J True), (''offset'', j_UInt64 J (of_nat k))])
      else sendChunk ?i (of_nat k) b) w = (Ret (), v)"
    using assms(8) unfolding dispatch_def onDownloadChunk_def requireLogin_def
    by (cases "get_string J (assign J (j_null J) ?gs) ''file_id'' []")
      (simp_all add: w root off len want bindE_run(1) [OF gets_run] bindE_run split: if_splits)
  then obtain b u where r: "readChunk A (of_nat k) chunk w = (Ret b, u)"
    and v: "(if b = [] then sendOk J seq (assign J (j_null J) [(''eof'', j_bool J True), (''offset'', j_UInt64 J (of_nat k))])
       else sendChunk ?i (of_nat k) b) u = (Ret (), v)" by (rule bindE_RetD)
  have "u = w" using r by (auto simp: readChunk_def Let_def bindE_def split: if_splits option.splits)
  moreover have b: "b = take (length b) (drop k y)" "b \<noteq> []"
    using triple_Ret [OF d_readChunk [OF less_imp_le [OF assms(4)] assms(3,5)] assms(2) r] assms(4) by auto
  ultimately have "sendChunk ?i (of_nat k) b w = (Ret (), v)" using v by simp
  then obtain raw where "encodeChunk ?i (of_nat k) b = Inr raw" "v = w\<lparr>c_out := raw\<rparr>"
    using w(2) by (auto simp: sendChunk_def bufferevent_write_def bindE_def liftS_def split: sum.splits)
  then show ?thesis using b by (auto simp: encodeChunk_def split: if_splits)
qed

text \<open>The download loop, from position \<open>k\<close> on.\<close>

lemma download_loop_run:
  fixes s :: "('a, 'b, 'c, ('r, 'm, 'f) peer, 'z) client_scheme"
  assumes "local_file E view (c_str localPath)" and "length y < 2 ^ 63" and "0 < chunk" and "unat chunk \<le> kMaxFrameSize - 64"
  shows "attentive (srv (net s)) \<Longrightarrow> inbox (net s) = [] \<Longrightarrow> sending obj y (srv (net s)) \<Longrightarrow>
    view (w_os s) (c_str localPath) = Some (take k y) \<Longrightarrow> k \<le> length y \<Longrightarrow> length y < n + k \<Longrightarrow>
    case download_loop (peer_env A J piece E) None n fileId chunk localPath (of_nat (length y)) (of_nat k) s of
      (Ret got, t) \<Rightarrow> got = of_nat (length y) \<and> view (w_os t) (c_str localPath) = Some y \<and> attentive (srv (net t)) \<and> inbox (net t) = []
    | (Raise e, t) \<Rightarrow> True | (Blocked, t) \<Rightarrow> False | (Undef, t) \<Rightarrow> False"
proof (induction n arbitrary: k s)
  case (Suc n)
  let ?E = "peer_env A J piece E" let ?fs = "chunk_request J fileId (of_nat k) chunk s" let ?s = "s\<lparr>cl_seq := cl_seq s + 1\<rparr>"
  have lt: "(of_nat k :: u64) < of_nat (length y) \<longleftrightarrow> k < length y"
    using Suc.prems(5) assms(2) by (simp add: word_less_nat_alt unat_of_nat)
  show ?case
  proof (cases "k < length y")
    case False
    then show ?thesis using Suc.prems lt by simp
  next
    case True
    note turn = download_turn [of "of_nat k" "of_nat (length y)" A J piece E n fileId chunk localPath s, OF lt [THEN iffD2, OF True]]
    have fs: "members J ?fs" "map_of (rev ?fs) ''cmd'' = Some (j_str J ''download_chunk'')"
      "map_of (rev ?fs) ''seq'' = Some (j_UInt64 J (cl_seq s + 1))" "printable ''download_chunk''"
      by (simp_all add: chunk_request_def printable_def)
    have s: "c_in (srv (net ?s)) = []" "absorbed A J (inbox (net ?s)) (srv (net ?s)) ((=) (srv (net s)))"
      using Suc.prems(1,2) absorbed_nothing [OF Suc.prems(1)] by (simp_all add: attentive_def)
    show ?thesis
    proof (cases rule: exchanged [OF own_errors s fs(1,2,4,3), of piece E, case_names raised failed answered])
      case (raised e t)
      then show ?thesis by (simp add: turn bindE_run del: download_loop.simps)
    next
      case (failed q m j c msg)
      let ?r = "reply j (code_value c) msg (j_objectValue J)"
      let ?next = "bindE (liftS (data_get J (j_asBool J) ?r ''eof'' (j_bool J False))) (\<lambda>eof. if eof then return (of_nat k)
          else download_loop ?E None n fileId chunk localPath (of_nat (length y)) (of_nat k))"
      obtain e where "download_loop ?E None (Suc n) fileId chunk localPath (of_nat (length y)) (of_nat k) s = (Raise e, ?s\<lparr>net := m\<rparr>)"
        using failed failure_thrown [OF failed(2), of j msg "j_objectValue J" "j_Int J 1" "''download failed''" StdException ?next "?s\<lparr>net := m\<rparr>"]
        by (auto simp: turn bindE_run simp del: download_loop.simps)
      then show ?thesis by (simp del: download_loop.simps)
    next
      case (answered u v t q)
      have data: "map_of (rev ?fs) ''data'' = Some (assign J (j_null J) [(''file_id'', j_str J fileId), (''offset'', j_UInt64 J (of_nat k)),
          (''length'', j_UInt J chunk)])" by (simp add: chunk_request_def)
      from download_chunk_handled [OF Suc.prems(1,3) assms(2) True assms(3,4) data answered(3) [folded answered(1)]] obtain i b raw where
        b: "length i = 32" "encodeChunk i (of_nat k) b = Inr raw" "v = (srv (net s))\<lparr>c_out := raw\<rparr>" "b \<noteq> []" "b = take (length b) (drop k y)"
        by auto
      have q: "t = FT_Chunk" "q = i @ map chr_of (writeU64Be (of_nat k)) @ b"
        using nextFrame_encode [OF answered(4), of "[]"] nextFrame_encode [of FT_Chunk, OF b(2) [unfolded encodeChunk_payload [OF b(1)]], of "[]"] b(3)
        by simp_all
      have v: "v\<lparr>c_out := []\<rparr> = srv (net s)" using b(3) Suc.prems(1) by (simp add: attentive_def)
      let ?t = "?s\<lparr>net := \<lparr>srv = srv (net s), inbox = []\<rparr>, w_os := ofs_write E (c_str localPath) b (w_os s)\<rparr>"
      have run: "download_loop ?E None (Suc n) fileId chunk localPath (of_nat (length y)) (of_nat k) s =
          download_loop ?E None n fileId chunk localPath (of_nat (length y)) (of_nat (k + length b)) ?t"
        using answered(5) v by (simp add: turn q bindE_run decodeChunk_payload [OF b(1)] FT_Json_def FT_Chunk_def del: download_loop.simps)
      have "length b \<le> length y - k" using arg_cong [OF b(5), of length] by simp
      then have len: "k + length b \<le> length y" "length y < n + (k + length b)" using b(4) Suc.prems(6) True by (cases b; simp)+
      have "take k y @ b = take (k + length b) y" using b(5) by (simp add: take_add)
      then have "view (w_os ?t) (c_str localPath) = Some (take (k + length b) y)"
        using local_file.write_local [OF assms(1) Suc.prems(4), of b] by simp
      then show ?thesis unfolding run
        by (intro Suc.IH) (use Suc.prems len in auto)
    qed
  qed
qed simp

text \<open>The whole of \<open>get\<close>.\<close>

lemma client_get_run:
  fixes s :: "('a, 'b, 'c, ('r, 'm, 'f) peer, 'z) client_scheme"
  assumes "local_file E view (c_str localPath)" and "attentive (srv (net s))" and "inbox (net s) = []" and "live (srv (net s))"
    and "strs (w_redis (srv (net s))) (pathKey (s_userId (c_session (srv (net s)))) (c_str (''/'' @ logical))) = Some m"
    and "strs (w_redis (srv (net s))) (objKey (c_str m)) = Some obj" and "files (w_os (srv (net s))) (c_str obj) = Some y"
    and "objectPathFor A m = Inr obj" and "plain (c_str obj)" and "m \<noteq> []" and "obj \<noteq> []"
    and "normalizeLogical remote = Inr logical" and "utf8 remote"
    and "length y < 2 ^ 63" and "length y < turns E" and "0 < chunkSize (cfg A)" and "unat (chunkSize (cfg A)) \<le> kMaxFrameSize - 64"
  shows "case client_get (peer_env A J piece E) None remote localPath s of
      (Ret r, t) \<Rightarrow> view (w_os t) (c_str localPath) = Some y \<and> attentive (srv (net t)) \<and> inbox (net t) = [] \<and>
        r = assign J (j_null J) [(''path'', j_str J remote), (''local'', j_str J localPath), (''size'', j_UInt64 J (of_nat (length y)))]
    | (Raise e, t) \<Rightarrow> True | (Blocked, t) \<Rightarrow> False | (Undef, t) \<Rightarrow> False"
proof -
  let ?E = "peer_env A J piece E" let ?data = "assign J (j_null J) [(''path'', j_str J remote)]"
  let ?d = "\<lambda>i. assign J (j_null J) [(''file_id'', j_str J i), (''size'', j_UInt64 J (of_nat (length y))),
        (''chunk_size'', j_UInt J (chunkSize (cfg A)))]"
  have "(\<exists>e t. request ?E ''download_begin'' ?data s = (Raise e, t)) \<or>
    (\<exists>u d. (attentive u \<and> sending obj y u \<and> (\<exists>i. d = ?d i)) \<and> request ?E ''download_begin'' ?data s =
       (Ret (reply (cl_seq s + 1) 0 ''ok'' d), s\<lparr>cl_seq := cl_seq s + 1, net := \<lparr>srv = u, inbox = []\<rparr>\<rparr>))"
  proof (rule request_alone [OF own_errors assms(2,3)])
    fix v
    assume "dispatch A J ''download_begin'' (assign J (j_null J) (map (apsnd norm) (envelope J ''download_begin'' ?data s))) (cl_seq s + 1) (srv (net s)) = (Ret (), v)"
    from download_begin_handled [OF assms(2,4-13) this] obtain u where
      "attentive u" "sending obj y u" "sendOk J (cl_seq s + 1) (?d (ds_fileId (download u))) u = (Ret (), v)" by blast
    then show "\<exists>u d. (attentive u \<and> sending obj y u \<and> (\<exists>i. d = ?d i)) \<and> members J [(''data'', d)] \<and> c_out u = [] \<and>
        sendOk J (cl_seq s + 1) d u = (Ret (), v)"
      by (intro exI [of _ u] exI [of _ "?d (ds_fileId (download u))"]) (auto simp: attentive_def)
  qed (simp_all add: printable_def)
  then show ?thesis
  proof (elim disjE exE conjE)
    fix e t
    assume "request ?E ''download_begin'' ?data s = (Raise e, t)"
    then show ?thesis by (simp add: client_get_def Let_def bindE_run)
  next
    fix u d i
    assume u: "attentive u" "sending obj y u" "d = ?d i" and req: "request ?E ''download_begin'' ?data s =
       (Ret (reply (cl_seq s + 1) 0 ''ok'' d), s\<lparr>cl_seq := cl_seq s + 1, net := \<lparr>srv = u, inbox = []\<rparr>\<rparr>)"
    have d: "data_at J (j_asUInt64 J) (reply (cl_seq s + 1) 0 ''ok'' d) ''size'' = Inr (of_nat (length y))"
      "data_get J (j_asUInt J) (reply (cl_seq s + 1) 0 ''ok'' d) ''chunk_size'' x = Inr (chunkSize (cfg A))" for x
      unfolding u(3) by (simp_all add: reply_data norm_u64 norm_u32)
    let ?s1 = "\<lambda>f. s\<lparr>cl_seq := cl_seq s + 1, net := \<lparr>srv = u, inbox = []\<rparr>, w_os := ofs_open E (c_str localPath) f\<rparr>"
    obtain f where f: "bindE (ensureDir (lib E) (parentDir localPath)) (\<lambda>_. k) (s\<lparr>cl_seq := cl_seq s + 1, net := \<lparr>srv = u, inbox = []\<rparr>\<rparr>) =
        k (s\<lparr>cl_seq := cl_seq s + 1, net := \<lparr>srv = u, inbox = []\<rparr>, w_os := f\<rparr>)" for k :: "(('a, 'b, 'c, ('r, 'm, 'f) peer, 'z) client_scheme, 'j) cpp"
      using ensureDir_bind by fastforce
    show ?thesis
    proof (cases "data_at J (j_asString J) (reply (cl_seq s + 1) 0 ''ok'' d) ''file_id''")
      case (Inl e)
      then show ?thesis by (simp add: client_get_def Let_def req bindE_run)
    next
      case (Inr fid)
      have "client_get ?E None remote localPath s = bindE (download_loop ?E None (turns E) fid (chunkSize (cfg A)) localPath (of_nat (length y)) 0) (\<lambda>got.
          return (assign J (j_null J) [(''path'', j_str J remote), (''local'', j_str J localPath), (''size'', j_UInt64 J got)])) (?s1 f)"
        by (simp add: client_get_def Let_def req bindE_run Inr d f bindE_run(1) [OF modify_run])
      moreover have "case download_loop ?E None (turns E) fid (chunkSize (cfg A)) localPath (of_nat (length y)) (of_nat 0) (?s1 f) of
          (Ret got, t) \<Rightarrow> got = of_nat (length y) \<and> view (w_os t) (c_str localPath) = Some y \<and> attentive (srv (net t)) \<and> inbox (net t) = []
        | (Raise e, t) \<Rightarrow> True | (Blocked, t) \<Rightarrow> False | (Undef, t) \<Rightarrow> False"
        by (rule download_loop_run [OF assms(1,14,16,17)])
          (use u local_file.open_local [OF assms(1), of f] assms(15) in simp_all)
      ultimately show ?thesis
        by (auto simp: bindE_def split: prod.splits outcome.splits)
    qed
  qed
qed

section \<open>Uploading\<close>

lemma closeUpload_run:
  fixes w :: "('r, 'm, 'f, 'z) cstate_scheme"
  shows "\<exists>f ul. closeUpload A w = (Ret (), w\<lparr>w_os := f, upload := ul\<rparr>) \<and> files f = files (w_os w)"
proof (cases "us_fd (upload w) \<ge> 0")
  case True
  then show ?thesis by (auto simp: closeUpload_def close_fd_def bindE_def on_os_run quiet)
next
  case False
  then have "closeUpload A w = (Ret (), w\<lparr>w_os := w_os w, upload := upload w\<rparr>)" by (simp add: closeUpload_def bindE_def)
  then show ?thesis by blast
qed

lemma hex_text: "(\<And>c. c \<in> set t \<Longrightarrow> is_hex c) \<Longrightarrow> utf8 t"
proof (rule plain_printable)
  have "\<forall>c \<in> set kHex. 0x20 \<le> (of_char c :: nat) \<and> (of_char c :: nat) < 0x7f" by (simp add: kHex_def)
  then show "printable t" if "\<And>c. c \<in> set t \<Longrightarrow> is_hex c" using that by (auto simp: printable_def is_hex_def)
qed

text \<open>\<open>instant_query\<close> for a content whose object is not there.\<close>

lemma query_handled:
  fixes w :: "('r, 'm, 'f, 'z) cstate_scheme"
  assumes "attentive w" and "on_files F w" and "\<And>g. F g \<Longrightarrow> g (c_str obj) = None"
    and "strs (w_redis w) (objKey (c_str m)) \<in> {None, Some obj}" and "objectPathFor A m = Inr obj" and "plain (c_str obj)"
    and "obj \<noteq> []" and "utf8 m" and "length m = 32"
    and "dispatch A J ''instant_query'' (assign J (j_null J) (map (apsnd norm)
        (envelope J cmd (assign J (j_null J) [(''md5'', j_str J m), (''size'', j_UInt64 J n)]) s))) seq w = (Ret (), v)"
  shows "\<exists>u. attentive u \<and> on_files F u \<and> c_session u = c_session w \<and> sendOk J seq (assign J (j_null J)
       [(''hit'', j_bool J False), (''size'', j_UInt64 J 0), (''challenge_offset'', j_UInt64 J 0), (''challenge_len'', j_UInt J 0)]) u = (Ret (), v)"
proof -
  let ?gs = "[(''md5'', norm (j_str J m)), (''size'', norm (j_UInt64 J n))]"
  have args: "get_string J (assign J (j_null J) ?gs) ''md5'' [] = Inr m" "get_u64 J (assign J (j_null J) ?gs) ''size'' = Inr n"
    using assms(8) by (simp_all add: get_string_assign norm_str get_u64_assign)
  have w: "c_authed w" "c_in w = []" "c_out w = []" using assms(1) by (simp_all add: attentive_def)
  obtain x u where g: "getObjectPath A m w = (Ret x, u)" "x \<in> {[], obj}"
    using assms(2,4) by (auto simp: store_runs)
  have u: "on_files F u" by (rule triple_Ret [OF d_redis(3) [where F = F] assms(2) g(1)])
  then have "files (w_os u) (c_str obj) = None" using assms(3) by blast
  then have q: "queryInstant A ses m n w = (Ret \<lparr>iq_hit = False, iq_size = 0, iq_challengeOffset = 0, iq_challengeLen = 0\<rparr>, u)" for ses
    using g assms(5,7,9) d_exists [OF assms(6), of u]
    by (auto simp: queryInstant_def resolveObjectPath_def bindE_run)
  have "more_frame (getObjectPath A m)" by (intro more_frame_intros)
  note same = same_more [OF this g(1)]
  have "sendOk J seq (assign J (j_null J)
       [(''hit'', j_bool J False), (''size'', j_UInt64 J 0), (''challenge_offset'', j_UInt64 J 0), (''challenge_len'', j_UInt J 0)]) u = (Ret (), v)"
    using assms(10) unfolding dispatch_def onInstantQuery_def requireLogin_def
    by (simp add: w arguments args q bindE_run bindE_run(1) [OF gets_run])
  then show ?thesis using u same w by (auto simp: attentive_def)
qed

text \<open>The store before an upload of \<open>content\<close>: its object is not there, and what earlier attempts left of it
  is a beginning of it.\<close>

definition untouched :: "string \<Rightarrow> string \<Rightarrow> user_session \<Rightarrow> string \<Rightarrow> (string \<Rightarrow> string option) \<Rightarrow> bool" where
  "untouched obj m ses content g \<longleftrightarrow> g (c_str obj) = None \<and> (\<forall>dest. resumes content (g (c_str (partPathFor A ses m dest))))"

text \<open>\<open>upload_begin\<close>: the part file is open.\<close>

lemma upload_begin_handled:
  fixes w :: "('r, 'm, 'f, 'z) cstate_scheme"
  assumes "attentive w" and "on_files (untouched obj m ses content) w" and "c_session w = ses"
    and "\<And>dest. plain (c_str (partPathFor A ses m dest))" and "\<And>dest. c_str (partPathFor A ses m dest) \<noteq> c_str obj"
    and "normalizeLogical remote = Inr logical" and "utf8 remote" and "utf8 m" and "length content < 2 ^ 63"
    and "dispatch A J ''upload_begin'' (assign J (j_null J) (map (apsnd norm)
        (envelope J cmd (assign J (j_null J) [(''path'', j_str J remote), (''md5'', j_str J m), (''size'', j_UInt64 J n)]) s))) seq w = (Ret (), v)"
  shows "\<exists>u dest had. attentive u \<and> c_session u = ses \<and> resumes content had \<and>
    started (partPathFor A ses m dest) obj had None m (''/'' @ logical) n (upload u) u \<and>
    sendOk J seq (assign J (j_null J) [(''file_id'', j_str J (us_fileId (upload u))), (''offset'', j_UInt64 J (us_received (upload u))),
        (''chunk_size'', j_UInt J (chunkSize (cfg A)))]) u = (Ret (), v)"
proof -
  let ?gs = "[(''path'', norm (j_str J remote)), (''md5'', norm (j_str J m)), (''size'', norm (j_UInt64 J n))]"
  have args: "get_string J (assign J (j_null J) ?gs) ''path'' [] = Inr remote" "get_string J (assign J (j_null J) ?gs) ''md5'' [] = Inr m"
    "get_u64 J (assign J (j_null J) ?gs) ''size'' = Inr n"
    using assms(7,8) by (simp_all add: get_string_assign norm_str get_u64_assign)
  have w: "c_authed w" "c_in w = []" "c_out w = []" using assms(1) by (simp_all add: attentive_def)
  obtain f ul where c: "closeUpload A w = (Ret (), w\<lparr>w_os := f, upload := ul\<rparr>)" "files f = files (w_os w)"
    using closeUpload_run by blast
  define w1 where "w1 = w\<lparr>w_os := f, upload := ul\<rparr>"
  have "bindE (resolveUserPath A remote False) (\<lambda>phys.
     bindE (gets c_session) (\<lambda>s.
     bindE (beginUpload A s phys (''/'' @ logical) m n) (\<lambda>u.
     bindE (modify (\<lambda>w. w\<lparr>upload := u\<rparr>)) (\<lambda>_.
     sendOk J seq (assign J (j_null J)
       [(''file_id'', j_str J (us_fileId u)), (''offset'', j_UInt64 J (us_received u)),
        (''chunk_size'', j_UInt J (chunkSize (cfg A)))]))))) w1 = (Ret (), v)"
    using assms(10) unfolding dispatch_def onUploadBegin_def requireLogin_def
    by (simp add: w arguments args assms(6) c(1) liftS_Inr gets_left bindE_run w1_def)
  then obtain phys x ul w2 where r: "resolveUserPath A remote False w1 = (Ret phys, x)"
      and b: "beginUpload A (c_session x) phys (''/'' @ logical) m n x = (Ret ul, w2)"
      and v: "sendOk J seq (assign J (j_null J) [(''file_id'', j_str J (us_fileId ul)), (''offset'', j_UInt64 J (us_received ul)),
          (''chunk_size'', j_UInt J (chunkSize (cfg A)))]) (w2\<lparr>upload := ul\<rparr>) = (Ret (), v)"
    by (elim bindE_RetD) auto
  have x: "x = w1" using r by (auto simp: resolveUserPath_def requireLogin_def bindE_def split: if_splits)
  have ses: "c_session x = ses" using x assms(3) by (simp add: w1_def)
  let ?part = "partPathFor A ses m phys" let ?had = "files (w_os w) (c_str ?part)"
  have had: "resumes content ?had" using assms(2) by (simp add: untouched_def)
  have small: "\<forall>y. ?had = Some y \<longrightarrow> length y < 2 ^ 63"
  proof (intro allI impI)
    fix y
    assume "?had = Some y"
    then have "take (length y) content = y" using had by (simp add: resumes_def)
    then have "length y \<le> length content" by (metis length_take min.cobounded1)
    then show "length y < 2 ^ 63" using assms(9) by simp
  qed
  have more: "c_authed w2 = c_authed w1" "c_in w2 = c_in w1" "c_out w2 = c_out w1" "c_session w2 = c_session w1"
    using same_more [OF more_frame_service(3) b] x by simp_all
  have "started ?part obj ?had None m (''/'' @ logical) n ul w2"
    by (rule triple_Ret [OF d_beginUpload [OF refl assms(4,5) small] _ b [unfolded ses]])
      (use assms(2) c(2) x in \<open>simp add: w1_def untouched_def\<close>)
  then show ?thesis using v more w had x ses
    by (intro exI [of _ "w2\<lparr>upload := ul\<rparr>"] exI [of _ phys] exI [of _ ?had]) (simp add: attentive_def started_def w1_def)
qed

text \<open>\<open>upload_end\<close> when the part file holds the content.\<close>

lemma upload_end_handled:
  fixes w :: "('r, 'm, 'f, 'z) cstate_scheme"
  assumes "attentive w" and "receiving part obj None m p (of_nat (length content)) content w" and "c_session w = ses"
    and "objectPathFor A m = Inr obj" and "plain (c_str part)" and "plain (c_str obj)" and "c_str part \<noteq> c_str obj"
    and "length content < loop_bound A" and "length content < 2 ^ 63" and "p \<in> S" and "length m = 32"
    and "dispatch A J ''upload_end'' root seq w = (Ret (), v)"
  shows "\<exists>u d. attentive u \<and> c_session u = ses \<and> stored content None m obj (s_userId ses) p u \<and> scalars J d \<and>
    sendOk J seq (assign J (j_null J) d) u = (Ret (), v)"
proof -
  have w: "c_authed w" "c_in w = []" "c_out w = []" using assms(1) by (simp_all add: attentive_def)
  have "bindE (finishUpload A ses) (\<lambda>_.
     bindE (gets upload) (\<lambda>u.
     bindE (modify (\<lambda>w. w\<lparr>upload := no_upload\<rparr>)) (\<lambda>_.
     sendOk J seq (assign J (j_null J)
       [(''md5'', j_str J (us_md5 u)), (''size'', j_UInt64 J (us_totalSize u)), (''status'', j_str J ''ready'')])))) w = (Ret (), v)"
    using assms(3,12) unfolding dispatch_def onUploadEnd_def requireLogin_def
    by (simp add: w bindE_run bindE_run(1) [OF gets_run])
  then obtain x w1 where fin: "finishUpload A ses w = (Ret x, w1)"
    and v: "sendOk J seq (assign J (j_null J) [(''md5'', j_str J (us_md5 (upload w1))), (''size'', j_UInt64 J (us_totalSize (upload w1))),
        (''status'', j_str J ''ready'')]) (w1\<lparr>upload := no_upload\<rparr>) = (Ret (), v)"
    by (elim bindE_RetD) auto
  have q: "same_buffers w (snd (finishUpload A ses w))" by (rule quiet_service(2) [unfolded quiet_def, THEN spec])
  have st: "c_session (snd (finishUpload A ses w)) = c_session w \<and> c_authed (snd (finishUpload A ses w)) = c_authed w"
    by (rule steady_finish [unfolded steady_def, THEN spec])
  have "stored content None m obj (s_userId ses) p w1 \<and> (md5_text content = m \<and> of_nat (length content) = (of_nat (length content) :: u64))"
    by (rule triple_Ret [OF d_finish [OF assms(4-7), where n = "of_nat (length content)"] _ fin])
      (use assms in \<open>auto simp: receiving_def\<close>)
  then show ?thesis using v q st fin w assms(3)
    by (intro exI [of _ "w1\<lparr>upload := no_upload\<rparr>"] exI [of _ "[(''md5'', j_str J (us_md5 (upload w1))),
        (''size'', j_UInt64 J (us_totalSize (upload w1))), (''status'', j_str J ''ready'')]"])
      (simp add: attentive_def same_buffers_def stored_def published_def)
qed

text \<open>The part file holds the content when the chunks of the client have been written.\<close>

lemma chunks_received:
  fixes u :: "('r, 'm, 'f, 'z) cstate_scheme"
  assumes "started part obj had None m p (of_nat (length content)) (upload u) u" and "resumes content had" and "c_str part \<noteq> c_str obj"
    and "consecutive (us_received (upload u)) cs" and "concat (map snd cs) = drop (unat (us_received (upload u))) content"
    and "\<forall>(off, d) \<in> set cs. length d < 2 ^ 32" and "length content < 2 ^ 63" and "write_chunks A cs u = (Ret (), v)"
  shows "receiving part obj None m p (of_nat (length content)) content v"
proof -
  let ?n = "of_nat (length content) :: u64" let ?k = "unat (us_received (upload u))"
  obtain x where x: "receiving part obj None m p ?n x u" "?k \<le> length x" "us_received (upload u) \<le> ?n" "x = [] \<or> had = Some x"
    using assms(1) unfolding started_def receiving_def by blast
  have k: "?k \<le> length content" using x(3) assms(7) by (simp add: word_le_nat_alt unat_of_nat)
  have cs: "consecutive (of_nat ?k) cs" "?k + length (concat (map snd cs)) < 2 ^ 63" using assms(4,5,7) k by simp_all
  from triple_Ret [OF d_write_chunks [OF assms(3) cs(1) assms(6) x(2) cs(2)] x(1) assms(8)]
  show ?thesis using resumes_all [OF assms(2) x(4,2)] k by (simp add: assms(5))
qed

text \<open>\<open>put_full\<close>: what the client sends is what the server stores.\<close>

lemma put_full_run:
  fixes s :: "('a, 'b, 'c, ('r, 'm, 'f) peer, 'z) client_scheme"
  assumes "attentive (srv (net s))" and "inbox (net s) = []" and "on_files (untouched obj m ses content) (srv (net s))"
    and "c_session (srv (net s)) = ses"
    and "\<And>dest. plain (c_str (partPathFor A ses m dest))" and "\<And>dest. c_str (partPathFor A ses m dest) \<noteq> c_str obj"
    and "objectPathFor A m = Inr obj" and "plain (c_str obj)" and "normalizeLogical remote = Inr logical" and "utf8 remote" and "utf8 m"
    and "length m = 32" and "(''/'' @ logical) \<in> S" and "length content < 2 ^ 63" and "length content < loop_bound A"
    and "0 < chunkSize (cfg A)" and "unat (chunkSize (cfg A)) \<le> kMaxFrameSize - 64"
    and "ifs_bytes (os (lib E)) (c_str localPath) (w_os s) = Some content"
  shows "case put_full (peer_env A J piece E) None localPath remote m (of_nat (length content)) s of
      (Ret r, t) \<Rightarrow> attentive (srv (net t)) \<and> inbox (net t) = [] \<and> c_session (srv (net t)) = ses \<and> w_os t = w_os s \<and>
        stored content None m obj (s_userId ses) (''/'' @ logical) (srv (net t))
    | (Raise e, t) \<Rightarrow> True | (Blocked, t) \<Rightarrow> False | (Undef, t) \<Rightarrow> False"
proof -
  let ?E = "peer_env A J piece E" let ?n = "of_nat (length content) :: u64" let ?p = "''/'' @ logical"
  let ?data = "assign J (j_null J) [(''path'', j_str J remote), (''md5'', j_str J m), (''size'', j_UInt64 J ?n)]"
  let ?d = "\<lambda>u. assign J (j_null J) [(''file_id'', j_str J (us_fileId (upload u))), (''offset'', j_UInt64 J (us_received (upload u))),
        (''chunk_size'', j_UInt J (chunkSize (cfg A)))]"
  let ?Q = "\<lambda>u d. attentive u \<and> c_session u = ses \<and> d = ?d u \<and>
    (\<exists>dest had. resumes content had \<and> started (partPathFor A ses m dest) obj had None m ?p ?n (upload u) u)"
  let ?s1 = "\<lambda>u. s\<lparr>cl_seq := cl_seq s + 1, net := \<lparr>srv = u, inbox = []\<rparr>\<rparr>"
  have "(\<exists>e t. request ?E ''upload_begin'' ?data s = (Raise e, t)) \<or>
    (\<exists>u d. ?Q u d \<and> request ?E ''upload_begin'' ?data s = (Ret (reply (cl_seq s + 1) 0 ''ok'' d), ?s1 u))"
  proof (rule request_alone [OF own_errors assms(1,2)])
    fix v
    assume "dispatch A J ''upload_begin'' (assign J (j_null J) (map (apsnd norm) (envelope J ''upload_begin'' ?data s))) (cl_seq s + 1) (srv (net s)) = (Ret (), v)"
    from upload_begin_handled [OF assms(1,3,4-6,9-11,14) this] obtain u dest had where
      "attentive u" "c_session u = ses" "resumes content had" "started (partPathFor A ses m dest) obj had None m ?p ?n (upload u) u"
      "sendOk J (cl_seq s + 1) (?d u) u = (Ret (), v)" by blast
    then show "\<exists>u d. ?Q u d \<and> members J [(''data'', d)] \<and> c_out u = [] \<and> sendOk J (cl_seq s + 1) d u = (Ret (), v)"
      by (intro exI [of _ u] exI [of _ "?d u"]) (auto simp: attentive_def)
  qed (simp_all add: printable_def)
  then show ?thesis
  proof (elim disjE exE conjE)
    fix e t
    assume "request ?E ''upload_begin'' ?data s = (Raise e, t)"
    then show ?thesis by (simp add: put_full_def Let_def bindE_run)
  next
    fix u d dest had
    assume u: "attentive u" "c_session u = ses" "d = ?d u" "resumes content had"
      "started (partPathFor A ses m dest) obj had None m ?p ?n (upload u) u"
      and req: "request ?E ''upload_begin'' ?data s = (Ret (reply (cl_seq s + 1) 0 ''ok'' d), ?s1 u)"
    let ?r = "us_received (upload u)" and ?part = "partPathFor A ses m dest"
    have d: "data_at J (j_asUInt64 J) (reply (cl_seq s + 1) 0 ''ok'' d) ''offset'' = Inr ?r"
      "data_get J (j_asUInt J) (reply (cl_seq s + 1) 0 ''ok'' d) ''chunk_size'' x = Inr (chunkSize (cfg A))" for x
      unfolding u(3) by (simp_all add: reply_data norm_u64 norm_u32)
    have r: "?r \<le> ?n" using u(5) by (auto simp: started_def)
    have rest: "length (drop (unat ?r) content) = unat (?n - ?r)"
      using r assms(14) by (simp add: unat_sub unat_of_nat)
    have chunk: "unat (chunkSize (cfg A)) + 40 \<le> kMaxFrameSize" using assms(17) by (simp add: kMaxFrameSize_def)
    show ?thesis
    proof (cases "data_at J (j_asString J) (reply (cl_seq s + 1) 0 ''ok'' d) ''file_id''")
      case (Inl e)
      then show ?thesis by (simp add: put_full_def Let_def req bindE_run)
    next
      case (Inr fid)
      let ?tail = "\<lambda>_ :: unit. bindE (request ?E ''upload_end'' (j_null J)) (\<lambda>_. return (assign J (j_null J) [(''mode'', j_str J ''upload''),
          (''md5'', j_str J m), (''size'', j_UInt64 J ?n)]))"
      have put: "put_full ?E None localPath remote m ?n s =
          bindE (upload_loop ?E None fid (chunkSize (cfg A)) ?n ?r (drop (unat ?r) content)) ?tail (?s1 u)"
        using assms(18) by (simp add: put_full_def Let_def req bindE_run Inr d bindE_run(1) [OF gets_run] no_progress return_def)
      show ?thesis
      proof (cases rule: upload_loop_cases [OF assms(16) chunk r rest, of A J piece E fid "?s1 u", case_names raised sent])
        case (raised e t)
        then show ?thesis by (simp add: put bindE_run)
      next
        case (sent cs ss n')
        let ?s2 = "(?s1 u)\<lparr>net := n'\<rparr>"
        have n: "inbox n' = concat ss" "srv n' = u" using sent(2,3) by simp_all
        have "absorbed A J (concat ss) u (\<lambda>v. write_chunks A cs u = (Ret (), v))"
        proof (cases "cs = []")
          case True
          then show ?thesis using sent(4) absorbed_nothing [OF u(1), of A J] by (simp add: write_chunks_def)
        next
          case False
          then show ?thesis using sent(7) chunks_absorbed [OF _ u(1) sent(4), of A J] by simp
        qed
        then have ab: "absorbed A J (inbox (net ?s2)) (srv (net ?s2)) (\<lambda>v. write_chunks A cs u = (Ret (), v))" by (simp add: n)
        have idle: "c_in (srv (net ?s2)) = []" using u(1) by (simp add: n attentive_def)
        have fin: "(\<exists>e t. request ?E ''upload_end'' (j_null J) ?s2 = (Raise e, t)) \<or>
          (\<exists>v d. (attentive v \<and> c_session v = ses \<and> stored content None m obj (s_userId ses) ?p v) \<and> request ?E ''upload_end'' (j_null J) ?s2 =
            (Ret (reply (cl_seq ?s2 + 1) 0 ''ok'' d), ?s2\<lparr>cl_seq := cl_seq ?s2 + 1, net := \<lparr>srv = v, inbox = []\<rparr>\<rparr>))"
        proof (rule request_served [OF own_errors idle ab])
          fix w v
          assume w: "write_chunks A cs u = (Ret (), w)" "attentive w"
            and "dispatch A J ''upload_end'' (assign J (j_null J) (map (apsnd norm) (envelope J ''upload_end'' (j_null J) ?s2))) (cl_seq ?s2 + 1) w = (Ret (), v)"
          note end_run = upload_end_handled [OF w(2) chunks_received [OF u(5,4) assms(6) sent(5,6) chunks_small [OF sent(4)] assms(14) w(1)]
              _ assms(7,5,8,6,15,14,13,12) this(3)]
          obtain v' d where "attentive v'" "c_session v' = ses" "stored content None m obj (s_userId ses) ?p v'" "scalars J d"
              "sendOk J (cl_seq ?s2 + 1) (assign J (j_null J) d) v' = (Ret (), v)"
            using end_run write_chunks_session [OF w(1)] u(2) by blast
          then show "\<exists>u d. (attentive u \<and> c_session u = ses \<and> stored content None m obj (s_userId ses) ?p u) \<and> members J [(''data'', d)] \<and>
              c_out u = [] \<and> sendOk J (cl_seq ?s2 + 1) d u = (Ret (), v)"
            by (intro exI [of _ v'] exI [of _ "assign J (j_null J) d"]) (simp add: attentive_def)
        qed (simp_all add: printable_def)
        have "put_full ?E None localPath remote m ?n s = ?tail () ?s2" by (simp add: put bindE_run sent(1))
        with fin show ?thesis by (auto simp: bindE_run)
      qed
    qed
  qed
qed

text \<open>The whole of \<open>put\<close>, for a content the server does not have.\<close>

lemma client_put_run:
  fixes s :: "('a, 'b, 'c, ('r, 'm, 'f) peer, 'z) client_scheme"
  assumes "attentive (srv (net s))" and "inbox (net s) = []" and "on_files (untouched obj m ses content) (srv (net s))"
    and "c_session (srv (net s)) = ses" and "strs (w_redis (srv (net s))) (objKey (c_str m)) \<in> {None, Some obj}"
    and "\<And>dest. plain (c_str (partPathFor A ses m dest))" and "\<And>dest. c_str (partPathFor A ses m dest) \<noteq> c_str obj"
    and "objectPathFor A m = Inr obj" and "plain (c_str obj)" and "obj \<noteq> []" and "normalizeLogical remote = Inr logical" and "utf8 remote"
    and "(''/'' @ logical) \<in> S" and "md5_text content = m" and "length content < 2 ^ 63" and "length content < loop_bound A"
    and "0 < chunkSize (cfg A)" and "unat (chunkSize (cfg A)) \<le> kMaxFrameSize - 64" and "digest_env (lib E) dg"
    and "ifs_bytes (os (lib E)) (c_str localPath) (w_os s) = Some content"
    and "os_stat (os (lib E)) (c_str localPath) (w_os s) = Some info" and "st_size info = int (length content)"
  shows "case client_put (peer_env A J piece E) None localPath remote overwrite s of
      (Ret r, t) \<Rightarrow> attentive (srv (net t)) \<and> inbox (net t) = [] \<and> c_session (srv (net t)) = ses \<and> w_os t = w_os s \<and>
        stored content None m obj (s_userId ses) (''/'' @ logical) (srv (net t))
    | (Raise e, t) \<Rightarrow> True | (Blocked, t) \<Rightarrow> False | (Undef, t) \<Rightarrow> False"
proof (cases "os_lstat (os (lib E)) (c_str localPath) (w_os s)")
  case None
  then show ?thesis by (simp add: client_put_def bindE_run(1) [OF fileExists_run])
next
  case (Some lst)
  let ?E = "peer_env A J piece E" let ?n = "of_nat (length content) :: u64"
  let ?data = "assign J (j_null J) [(''md5'', j_str J m), (''size'', j_UInt64 J ?n)]"
  let ?d = "assign J (j_null J) [(''hit'', j_bool J False), (''size'', j_UInt64 J 0), (''challenge_offset'', j_UInt64 J 0),
      (''challenge_len'', j_UInt J 0)]"
  let ?Q = "\<lambda>u d. attentive u \<and> on_files (untouched obj m ses content) u \<and> c_session u = ses \<and> d = ?d"
  let ?s1 = "\<lambda>u. s\<lparr>cl_seq := cl_seq s + 1, net := \<lparr>srv = u, inbox = []\<rparr>\<rparr>"
  have m: "utf8 m" "length m = 32" using hex_text [of m] md5_text_hex(1) [of content] md5_text_hex(2) [of _ content] assms(14) by auto
  have sz: "fileSize (lib E) localPath s = (Ret ?n, s)" using assms(21,22) by (simp add: fileSize_run)
  have put: "client_put ?E None localPath remote overwrite s = bindE (request ?E ''instant_query'' ?data) (\<lambda>qr.
      bindE (liftS (data_get J (j_asBool J) qr ''hit'' (j_bool J False))) (\<lambda>hit.
      if hit then put_instant ?E None qr localPath remote m ?n overwrite else put_full ?E None localPath remote m ?n)) s"
    using digest_env.md5File_run [OF assms(19,20)] Some assms(14) sz
    by (simp add: client_put_def bindE_run(1) [OF fileExists_run] bindE_run no_progress)
  have "(\<exists>e t. request ?E ''instant_query'' ?data s = (Raise e, t)) \<or>
    (\<exists>u d. ?Q u d \<and> request ?E ''instant_query'' ?data s = (Ret (reply (cl_seq s + 1) 0 ''ok'' d), ?s1 u))"
  proof (rule request_alone [OF own_errors assms(1,2)])
    fix v
    assume "dispatch A J ''instant_query'' (assign J (j_null J) (map (apsnd norm) (envelope J ''instant_query'' ?data s))) (cl_seq s + 1) (srv (net s)) = (Ret (), v)"
    from query_handled [where F = "untouched obj m ses content", OF assms(1,3) _ assms(5,8-10) m this] assms(4)
    show "\<exists>u d. ?Q u d \<and> members J [(''data'', d)] \<and> c_out u = [] \<and> sendOk J (cl_seq s + 1) d u = (Ret (), v)"
      by (fastforce simp: untouched_def attentive_def)
  qed (simp_all add: printable_def)
  then consider (raised) e t where "request ?E ''instant_query'' ?data s = (Raise e, t)"
    | (missed) u where "?Q u ?d" "request ?E ''instant_query'' ?data s = (Ret (reply (cl_seq s + 1) 0 ''ok'' ?d), ?s1 u)" by blast
  then show ?thesis
  proof cases
    case (raised e t)
    then show ?thesis by (simp add: put bindE_run)
  next
    case (missed u)
    note u = missed(1) and req = missed(2)
    have "data_get J (j_asBool J) (reply (cl_seq s + 1) 0 ''ok'' ?d) ''hit'' x = Inr False" for x
      by (simp add: reply_data norm_bool)
    then have "client_put ?E None localPath remote overwrite s = put_full ?E None localPath remote m ?n (?s1 u)"
      by (simp add: put bindE_run req liftS_Inr)
    moreover have "case put_full ?E None localPath remote m ?n (?s1 u) of
      (Ret r, t) \<Rightarrow> attentive (srv (net t)) \<and> inbox (net t) = [] \<and> c_session (srv (net t)) = ses \<and> w_os t = w_os (?s1 u) \<and>
        stored content None m obj (s_userId ses) (''/'' @ logical) (srv (net t))
      | (Raise e, t) \<Rightarrow> True | (Blocked, t) \<Rightarrow> False | (Undef, t) \<Rightarrow> False"
      by (rule put_full_run [OF _ _ _ _ assms(6-9,11,12) m assms(13,15-18)]) (use u assms(20) in simp_all)
    ultimately show ?thesis by (simp split: prod.splits outcome.splits)
  qed
qed

end

end
