(* ===== verification/Reference_Run.thy ===== *)
theory Reference_Run
  imports Peer_Transfers
begin

text \<open>
  One run of the client library against the reference server, evaluated: a file is put and got back.
  The steps of the server are rewritten handler by handler, the client's by \<open>exchange_ok\<close> and
  \<open>request_ok\<close>, which say what an exchange comes to when the handler returns. The witnesses of
  \<open>End_To_End\<close> rest on it. It is not part of the program.
\<close>

section \<open>An exchange that succeeds\<close>

context json_wire
begin

lemma exchange_ok:
  fixes s :: "('a, 'b, 'c, ('r, 'm, 'f) peer, 'z) client_scheme"
  assumes "\<And>raw. onRead A J ((srv (net s))\<lparr>c_in := c_in (srv (net s)) @ inbox (net s) @ raw\<rparr>) = onRead A J (u\<lparr>c_in := raw\<rparr>)"
    and "attentive u" and "members J fs" and "map_of (rev fs) ''cmd'' = Some (j_str J cmd)" and "printable cmd"
    and "map_of (rev fs) ''seq'' = Some (j_UInt64 J seq)" and "encode FT_Json (dumpJson J (assign J (j_null J) fs)) 0 = Inr raw"
    and "dispatch A J cmd (assign J (j_null J) (map (apsnd norm) fs)) seq u = (Ret (), v)" and "encode t q 0 = Inr (c_out v)"
  shows "exchange (peer_env A J piece E) (dumpJson J (assign J (j_null J) fs)) s =
    (Ret \<lparr>f_type = t, f_flags = 0, f_payload = q\<rparr>, s\<lparr>net := \<lparr>srv = v\<lparr>c_out := []\<rparr>, inbox = []\<rparr>\<rparr>)"
proof -
  let ?root = "assign J (j_null J) (map (apsnd norm) fs)" let ?p = "dumpJson J (assign J (j_null J) fs)"
  have w: "c_authed u" "c_in u = []" "c_out u = []" using assms(2) by (simp_all add: attentive_def)
  have env: "parseJson J ?p = (True, ?root, [])" "get_string J ?root ''cmd'' [] = Inr cmd" "get_u64 J ?root ''seq'' = Inr seq"
    "given_token J ?root cmd (c_authed u) = Inr []"
    using assms(3-6) w(1) plain_printable
    by (simp_all add: parse_dump get_string_def get_as_assign map_of_apsnd norm_str as_str get_u64_assign given_token_def)
  have "c_in v = []" using answers_dispatch [of A J cmd ?root seq, unfolded answers_def, THEN spec [of _ u]] assms(8) w by auto
  then have "snd (onRead A J (u\<lparr>c_in := raw\<rparr>)) = v"
    using handleJson_dispatch [OF env, of A] onRead_one [OF assms(7) w(2), of A J] assms(8)
    by (simp add: handleFrame_def guardedFrame_def catchE_run bindE_run onRead_idle)
  then show ?thesis using exchange_first [OF assms(7) _ assms(9), of A J s v "[]" piece E] assms(1) by simp
qed

lemma request_ok:
  fixes s :: "('a, 'b, 'c, ('r, 'm, 'f) peer, 'z) client_scheme"
  assumes "\<And>raw. onRead A J ((srv (net s))\<lparr>c_in := c_in (srv (net s)) @ inbox (net s) @ raw\<rparr>) = onRead A J (u\<lparr>c_in := raw\<rparr>)"
    and "attentive u" and "members J [(''data'', data)]" and "printable cmd"
    and "encode FT_Json (dumpJson J (assign J (j_null J) (envelope J cmd data s))) 0 = Inr raw"
    and "dispatch A J cmd (assign J (j_null J) (map (apsnd norm) (envelope J cmd data s))) (cl_seq s + 1) u = sendOk J (cl_seq s + 1) d v"
    and "c_out v = []" and "members J [(''data'', d)]" and "encode FT_Json (dumpJson J (makeReply J (cl_seq s + 1) 0 ''ok'' d)) 0 = Inr ans"
  shows "request (peer_env A J piece E) cmd data s =
    (Ret (reply (cl_seq s + 1) 0 ''ok'' d), s\<lparr>cl_seq := cl_seq s + 1, net := \<lparr>srv = v, inbox = []\<rparr>\<rparr>)"
proof -
  have sent: "sendOk J (cl_seq s + 1) d v = (Ret (), v\<lparr>c_out := ans\<rparr>)"
    using assms(7,9) by (simp add: sendOk_def sendJson_def bufferevent_write_def bindE_run)
  have "exchange (peer_env A J piece E) (dumpJson J (assign J (j_null J) (envelope J cmd data s))) (s\<lparr>cl_seq := cl_seq s + 1\<rparr>) =
    (Ret \<lparr>f_type = FT_Json, f_flags = 0, f_payload = dumpJson J (makeReply J (cl_seq s + 1) 0 ''ok'' d)\<rparr>,
     (s\<lparr>cl_seq := cl_seq s + 1\<rparr>)\<lparr>net := \<lparr>srv = (v\<lparr>c_out := ans\<rparr>)\<lparr>c_out := []\<rparr>, inbox = []\<rparr>\<rparr>)"
    by (rule exchange_ok [OF _ assms(2) envelope_members(4) [OF assms(3)] envelope_members(1) assms(4) envelope_members(2) assms(5)])
      (use assms sent in simp_all)
  moreover have "(v\<lparr>c_out := ans\<rparr>)\<lparr>c_out := []\<rparr> = v" using assms(7) by simp
  ultimately show ?thesis by (simp add: request_exchange bindE_run reply_parsed [OF assms(8)] reply_code)
qed

end

section \<open>The server's steps\<close>

lemma ref_literals:
  "normalizeLogical ''/a'' = Inr ''a''" "split ''a'' CHR ''/'' = [''a'']" "isInside ''/d/users/al'' ''/d/users/al'' = Some True"
  "isInside ''/d/users/al/a'' ''/d/users/al'' = Some True"
  "joinPath ''/d/users/al'' ''a'' = ''/d/users/al/a''" "c_str ''/d/users/al'' = ''/d/users/al''" "is_store ''/d/users/al'' = False"
  "''/d/users/al'' \<in> set ref_dirs" "s_rootDir ref_user = ''/d/users/al''" "''/d/users/al'' \<noteq> ref_obj" "''/d/users/al'' \<noteq> ref_part"
  "s_token ref_user = ''t''" "toHex (replicate 16 3) \<noteq> []" "toHex (replicate 16 7) \<noteq> []"
  by code_simp+

lemma ref_as_str: "j_asString ref_json (j_str ref_json t) = Inr t"
  by (simp add: ref_json_def)

lemmas ref_json_run = ref_wire.at_assign ref_wire.get_as_assign get_string_def get_u64_def get_bool_def ref_as_str
  ref_wire.norm_u64 ref_wire.norm_u32 ref_wire.norm_bool ref_wire.norm_Int

lemma ref_resolve:
  assumes "rf_dirs f = ref_dirs" and "rf_files f ''/d/users/al'' = None" and "rf_files f ''/d/users/al/a'' = None"
  shows "resolve ref_posix f ''/d/users/al'' ''/a'' must = (if must then Raise (CloudError NotFound ''path not found: /a'') else Ret ''/d/users/al/a'')"
  using assms
  by (simp add: resolve_def mustRealpath_def ref_posix_def ref_lstat_def ref_literals ref_paths ref_more_paths guarded_def Let_def)

lemma ref_resolveAny:
  fixes w :: "(ref_redis, ref_db, ref_fs, 'z) cstate_scheme"
  assumes "c_authed w" and "c_session w = ref_user" and "rf_dirs (w_os w) = ref_dirs" and "rf_files (w_os w) ''/d/users/al'' = None" and "rf_files (w_os w) ''/d/users/al/a'' = None"
  shows "resolveAny ref_env ''/a'' w = (Ret ''/d/users/al/a'', w)"
  using ref_resolve [OF assms(3-5)] assms(1,2)
  by (simp add: resolveAny_def resolveUserPath_def requireLogin_def bindE_def catchE_def ref_literals)

lemma ref_resolveNew:
  fixes w :: "(ref_redis, ref_db, ref_fs, 'z) cstate_scheme"
  assumes "c_authed w" and "c_session w = ref_user" and "rf_dirs (w_os w) = ref_dirs" and "rf_files (w_os w) ''/d/users/al'' = None" and "rf_files (w_os w) ''/d/users/al/a'' = None"
  shows "resolveUserPath ref_env ''/a'' False w = (Ret ''/d/users/al/a'', w)"
  using ref_resolve [OF assms(3-5)] assms(1,2)
  by (simp add: resolveUserPath_def requireLogin_def bindE_def ref_literals)

text \<open>The states of the server.\<close>

definition ref_idle :: "(ref_redis, ref_db, ref_fs) cstate" where
  "ref_idle = ref_conn\<lparr>w_os := w_os ref_home, w_redis := w_redis ref_home, c_session := ref_user, c_authed := True\<rparr>"

definition ref_taking :: "(ref_redis, ref_db, ref_fs) cstate" where
  "ref_taking = ref_idle\<lparr>w_os := w_os ref_begun, upload := upload ref_begun\<rparr>"

definition ref_taken :: "(ref_redis, ref_db, ref_fs) cstate" where
  "ref_taken = ref_idle\<lparr>w_os := w_os ref_filled, upload := upload ref_filled\<rparr>"

definition ref_holding :: "(ref_redis, ref_db, ref_fs) cstate" where
  "ref_holding = ref_idle\<lparr>w_os := w_os ref_kept, w_redis := w_redis ref_kept, w_mysql := w_mysql ref_kept\<rparr>"

definition ref_giving :: "(ref_redis, ref_db, ref_fs) cstate" where
  "ref_giving = ref_holding\<lparr>w_os := (w_os ref_kept)\<lparr>rf_fds := [8 \<mapsto> (ref_obj, 0)], rf_next := 9\<rparr>,
     download := \<lparr>ds_fileId = toHex (replicate 16 7), ds_srcPath = ref_obj, ds_totalSize = 1, ds_fd = 8\<rparr>\<rparr>"

lemmas ref_states = ref_giving_def ref_holding_def ref_taken_def ref_taking_def ref_idle_def ref_conn_def ref_kept_def ref_filled_def ref_begun_def
  ref_home_def ref_state_def no_download_def no_upload_def ref_fs0_def ref_redis0_def

lemmas ref_steps = requireLogin_def bindE_run randomHex_def resolveObjectPath_def ref_files_run ref_sel ref_paths ref_more_paths ref_services
  ref_keys ref_literals ref_json_run ref_ensure

abbreviation "ref_assign fs \<equiv> assign ref_json (j_null ref_json) fs"

lemma ref_queried:
  "dispatch ref_env ref_json ''instant_query'' (ref_assign [(''cmd'', j_str ref_json ''instant_query''), (''seq'', j_UInt64 ref_json 1),
     (''data'', ref_assign [(''md5'', j_str ref_json ref_md5), (''size'', j_UInt64 ref_json 1)])]) 1 ref_idle =
   sendOk ref_json 1 (ref_assign [(''hit'', j_bool ref_json False), (''size'', j_UInt64 ref_json 0), (''challenge_offset'', j_UInt64 ref_json 0),
      (''challenge_len'', j_UInt ref_json 0)]) ref_idle"
  by (simp add: dispatch_def onInstantQuery_def queryInstant_def ref_states ref_steps)

lemma ref_upload_begun:
  "dispatch ref_env ref_json ''upload_begin'' (ref_assign [(''cmd'', j_str ref_json ''upload_begin''), (''seq'', j_UInt64 ref_json 2),
     (''data'', ref_assign [(''path'', j_str ref_json ''/a''), (''md5'', j_str ref_json ref_md5), (''size'', j_UInt64 ref_json 1)])]) 2 ref_idle =
   sendOk ref_json 2 (ref_assign [(''file_id'', j_str ref_json (toHex (replicate 16 3))), (''offset'', j_UInt64 ref_json 0),
      (''chunk_size'', j_UInt ref_json 65536)]) ref_taking"
  by (simp add: dispatch_def onUploadBegin_def closeUpload_def ref_resolveNew beginUpload_def Let_def ref_states ref_steps)

lemma ref_chunk_taken:
  "handleChunk ref_env \<lparr>c_fileId = toHex (replicate 16 3), c_offset = 0, c_data = ''x''\<rparr> (ref_taking\<lparr>c_in := r\<rparr>) = (Ret (), ref_taken\<lparr>c_in := r\<rparr>)"
  by (simp add: handleChunk_def writeChunk_def ref_pwrite_def ref_states ref_steps)

lemma ref_upload_ended:
  "dispatch ref_env ref_json ''upload_end'' (ref_assign [(''cmd'', j_str ref_json ''upload_end''), (''seq'', j_UInt64 ref_json 3),
     (''data'', j_null ref_json)]) 3 ref_taken =
   sendOk ref_json 3 (ref_assign [(''md5'', j_str ref_json ref_md5), (''size'', j_UInt64 ref_json 1), (''status'', j_str ref_json ''ready'')]) ref_holding"
  by (simp add: dispatch_def onUploadEnd_def finishUpload_def ref_digests ref_published addContentRef_def ref_states ref_steps)

lemma ref_download_begun:
  "dispatch ref_env ref_json ''download_begin'' (ref_assign [(''cmd'', j_str ref_json ''download_begin''), (''seq'', j_UInt64 ref_json n),
     (''data'', ref_assign [(''path'', j_str ref_json ''/a'')])]) n ref_holding =
   sendOk ref_json n (ref_assign [(''file_id'', j_str ref_json (toHex (replicate 16 7))), (''size'', j_UInt64 ref_json 1),
      (''chunk_size'', j_UInt ref_json 65536)]) ref_giving"
  by (simp add: dispatch_def onDownloadBegin_def closeDownload_def ref_resolveAny beginDownload_def ref_states ref_steps)

lemma ref_chunk_given:
  "dispatch ref_env ref_json ''download_chunk'' (ref_assign [(''cmd'', j_str ref_json ''download_chunk''), (''seq'', j_UInt64 ref_json n),
     (''token'', j_str ref_json []), (''data'', ref_assign [(''file_id'', j_str ref_json (toHex (replicate 16 7))),
      (''offset'', j_UInt64 ref_json 0), (''length'', j_UInt ref_json 65536)])]) n ref_giving =
   sendChunk (toHex (replicate 16 7)) 0 ''x'' ref_giving"
  by (simp add: dispatch_def onDownloadChunk_def wanted_def kMaxFrameSize_def readChunk_def Let_def ref_pread_def bindE_assoc ref_states ref_steps)

section \<open>The runs\<close>

lemma ref_ids: "length (toHex (replicate 16 3)) = 32" "length (toHex (replicate 16 7)) = 32"
  by code_simp+

lemma ref_attentive: "attentive ref_idle" "attentive ref_taken" "attentive ref_holding" "attentive ref_giving"
  by (simp_all add: attentive_def ref_states)

lemma ref_client_fields [simp]: "cl_seq (ref_client n) = 0" "cl_token (ref_client n) = []" "w_os (ref_client n) = ref_fs0"
  by (simp_all add: ref_client_def)

text \<open>A frame is long enough for every JSON text of the runs.\<close>

lemma short_frame: "length (dumpJson J v) \<le> 2000 \<Longrightarrow> \<exists>raw. encode FT_Json (dumpJson J v) 0 = Inr raw"
  by (auto simp: encode_def kMaxFrameSize_def)

definition ref_envelope :: "string \<Rightarrow> rjson \<Rightarrow> u64 \<Rightarrow> rjson" where
  "ref_envelope cmd data n = ref_assign [(''cmd'', j_str ref_json cmd), (''seq'', j_UInt64 ref_json n), (''data'', data)]"

lemma ref_short:
  "length (dumpJson ref_json (ref_envelope ''instant_query'' (ref_assign [(''md5'', j_str ref_json ref_md5), (''size'', j_UInt64 ref_json 1)]) 1)) \<le> 2000"
  "length (dumpJson ref_json (ref_envelope ''upload_begin''
     (ref_assign [(''path'', j_str ref_json ''/a''), (''md5'', j_str ref_json ref_md5), (''size'', j_UInt64 ref_json 1)]) 2)) \<le> 2000"
  "length (dumpJson ref_json (ref_envelope ''upload_end'' (j_null ref_json) 3)) \<le> 2000"
  "length (dumpJson ref_json (ref_envelope ''download_begin'' (ref_assign [(''path'', j_str ref_json ''/a'')]) 4)) \<le> 2000"
  by code_simp+

definition "ref_missed = ref_assign [(''hit'', j_bool ref_json False), (''size'', j_UInt64 ref_json 0), (''challenge_offset'', j_UInt64 ref_json 0),
      (''challenge_len'', j_UInt ref_json 0)]"
definition "ref_accepted = ref_assign [(''file_id'', j_str ref_json (toHex (replicate 16 3))), (''offset'', j_UInt64 ref_json 0),
      (''chunk_size'', j_UInt ref_json 65536)]"
definition "ref_finished = ref_assign [(''md5'', j_str ref_json ref_md5), (''size'', j_UInt64 ref_json 1), (''status'', j_str ref_json ''ready'')]"
definition "ref_offered = ref_assign [(''file_id'', j_str ref_json (toHex (replicate 16 7))), (''size'', j_UInt64 ref_json 1),
      (''chunk_size'', j_UInt ref_json 65536)]"
lemmas ref_data = ref_missed_def ref_accepted_def ref_finished_def ref_offered_def
lemma ref_short_replies:
  "length (dumpJson ref_json (makeReply ref_json 1 0 ''ok'' ref_missed)) \<le> 2000"
  "length (dumpJson ref_json (makeReply ref_json 2 0 ''ok'' ref_accepted)) \<le> 2000"
  "length (dumpJson ref_json (makeReply ref_json 3 0 ''ok'' ref_finished)) \<le> 2000"
  "length (dumpJson ref_json (makeReply ref_json 4 0 ''ok'' ref_offered)) \<le> 2000"
  by code_simp+

lemma ref_request:
  fixes s :: "('a, 'b, 'c, (ref_redis, ref_db, ref_fs) peer, 'z) client_scheme"
  assumes "\<And>raw. onRead ref_env ref_json ((srv (net s))\<lparr>c_in := c_in (srv (net s)) @ inbox (net s) @ raw\<rparr>) = onRead ref_env ref_json (u\<lparr>c_in := raw\<rparr>)"
    and "attentive u" and "cl_token s = []" and "cl_seq s + 1 = n"
    and "members ref_json [(''data'', data)]" and "printable cmd" and "length (dumpJson ref_json (ref_envelope cmd data n)) \<le> 2000"
    and "dispatch ref_env ref_json cmd (ref_envelope cmd data n) n u = sendOk ref_json n d v"
    and "c_out v = []" and "members ref_json [(''data'', d)]" and "length (dumpJson ref_json (makeReply ref_json n 0 ''ok'' d)) \<le> 2000"
  shows "request (peer_env ref_env ref_json piece E) cmd data s = (Ret (ref_wire.reply n 0 ''ok'' d), s\<lparr>cl_seq := n, net := \<lparr>srv = v, inbox = []\<rparr>\<rparr>)"
proof -
  have env: "ref_assign (envelope ref_json cmd data s) = ref_envelope cmd data n" using assms(3,4) by (simp add: envelope_def ref_envelope_def)
  obtain raw ans where "encode FT_Json (dumpJson ref_json (ref_envelope cmd data n)) 0 = Inr raw"
    "encode FT_Json (dumpJson ref_json (makeReply ref_json n 0 ''ok'' d)) 0 = Inr ans"
    using short_frame [OF assms(7)] short_frame [OF assms(11)] by blast
  with ref_wire.request_ok [OF assms(1,2,5,6) _ _ assms(9,10), of raw ans piece E] assms(4,8) show ?thesis by (simp add: env)
qed

lemma ref_absorbs:
  assumes "encodeChunk (toHex (replicate 16 3)) 0 ''x'' = Inr c"
  shows "onRead ref_env ref_json (ref_taking\<lparr>c_in := c @ raw\<rparr>) = onRead ref_env ref_json (ref_taken\<lparr>c_in := raw\<rparr>)"
proof -
  let ?fr = "chunk_frame (toHex (replicate 16 3)) (0, ''x'')"
  have "encode (f_type ?fr) (f_payload ?fr) (f_flags ?fr) = Inr c"
    using assms chunk_encoded [OF ref_ids(1), of "''x''" 0] by (simp add: kMaxFrameSize_def)
  then have "nextFrame (c @ raw) = GotFrame ?fr raw" using nextFrame_encode by fastforce
  then show ?thesis using ref_chunk_taken [of raw]
    by (simp add: onRead_unfold [of _ _ "ref_taking\<lparr>c_in := c @ raw\<rparr>"] guardedFrame_def catchE_run chunk_handled [OF ref_ids(1)] bindE_run)
qed

definition ref_sender :: "(ref_redis, ref_db, ref_fs, (ref_redis, ref_db, ref_fs) peer) client" where
  "ref_sender = (ref_client \<lparr>srv = ref_idle, inbox = []\<rparr>)\<lparr>w_os := ref_fs0\<lparr>rf_files := [''/s'' \<mapsto> ''x'']\<rparr>\<rparr>"

definition ref_stored :: "(ref_redis, ref_db, ref_fs, (ref_redis, ref_db, ref_fs) peer) client" where
  "ref_stored = ref_sender\<lparr>cl_seq := 3, net := \<lparr>srv = ref_holding, inbox = []\<rparr>\<rparr>"

lemma ref_sends:
  assumes "encodeChunk (toHex (replicate 16 3)) 0 ''x'' = Inr c" and "net s = \<lparr>srv = w, inbox = []\<rparr>"
  shows "upload_loop (peer_env ref_env ref_json piece E) None (toHex (replicate 16 3)) 65536 1 0 ''x'' s = (Ret (), s\<lparr>net := \<lparr>srv = w, inbox = c\<rparr>\<rparr>)"
proof -
  obtain n where "client_sendChunk (peer_env ref_env ref_json piece E) (toHex (replicate 16 3)) 0 ''x'' s = (Ret (), s\<lparr>net := n\<rparr>)"
    "inbox n = c" "srv n = w"
    using peer_out.sendChunk_run [OF assms(1), of ref_env ref_json piece E s] assms(2) by auto
  moreover have "n = \<lparr>srv = w, inbox = c\<rparr>" using calculation(2,3) by simp
  ultimately show ?thesis by (simp add: upload_loop.simps [of _ _ _ _ _ 0] upload_loop.simps [of _ _ _ _ _ 1] bindE_run reportProgress_def min_def)
qed

lemma ref_put: "client_put (peer_env ref_env ref_json piece ref_cenv) None ''/s'' ''/a'' False ref_sender =
    (Ret (ref_assign [(''mode'', j_str ref_json ''upload''), (''md5'', j_str ref_json ref_md5), (''size'', j_UInt64 ref_json 1)]), ref_stored)"
proof -
  let ?E = "peer_env ref_env ref_json piece ref_cenv"
  let ?s = "\<lambda>n w c. ref_sender\<lparr>cl_seq := n, net := \<lparr>srv = w, inbox = c\<rparr>\<rparr>"
  have c: "c_str ''/s'' = ''/s''" by code_simp
  obtain c where c': "encodeChunk (toHex (replicate 16 3)) 0 ''x'' = Inr c"
    using chunk_encoded [OF ref_ids(1), of "''x''" 0] by (auto simp: kMaxFrameSize_def)
  have 1: "request ?E ''instant_query'' (ref_assign [(''md5'', j_str ref_json ref_md5), (''size'', j_UInt64 ref_json 1)]) ref_sender =
      (Ret (ref_wire.reply 1 0 ''ok'' ref_missed), ?s 1 ref_idle [])"
    by (subst ref_request [OF _ ref_attentive(1) _ _ _ _ ref_short(1) _ _ _ ref_short_replies(1)])
      (simp_all add: ref_sender_def ref_queried ref_envelope_def ref_data printable_def attentive_def, simp_all add: ref_states)
  have 2: "request ?E ''upload_begin'' (ref_assign [(''path'', j_str ref_json ''/a''), (''md5'', j_str ref_json ref_md5), (''size'', j_UInt64 ref_json 1)]) (?s 1 ref_idle []) =
      (Ret (ref_wire.reply 2 0 ''ok'' ref_accepted), ?s 2 ref_taking [])"
    by (subst ref_request [OF _ ref_attentive(1) _ _ _ _ ref_short(2) _ _ _ ref_short_replies(2)])
      (simp_all add: ref_sender_def ref_upload_begun ref_envelope_def ref_data printable_def attentive_def, simp_all add: ref_states)
  have 3: "upload_loop ?E None (toHex (replicate 16 3)) 65536 1 0 ''x'' (?s 2 ref_taking []) = (Ret (), ?s 2 ref_taking c)"
    by (simp add: ref_sends [OF c'])
  have "onRead ref_env ref_json (ref_taking\<lparr>c_in := c_in ref_taking @ c @ raw\<rparr>) = onRead ref_env ref_json (ref_taken\<lparr>c_in := raw\<rparr>)" for raw
    using ref_absorbs [OF c'] by (simp add: ref_states)
  then have 4: "request ?E ''upload_end'' (j_null ref_json) (?s 2 ref_taking c) = (Ret (ref_wire.reply 3 0 ''ok'' ref_finished), ref_stored)"
    by (subst ref_request [OF _ ref_attentive(2) _ _ _ _ ref_short(3) _ _ _ ref_short_replies(3)])
      (simp_all add: ref_sender_def ref_stored_def ref_upload_ended ref_envelope_def ref_data printable_def attentive_def, simp_all add: ref_states)
  have src: "w_os ref_sender = ref_fs0\<lparr>rf_files := [''/s'' \<mapsto> ''x'']\<rparr>" by (simp add: ref_sender_def)
  have 5: "fileExists ref_env ''/s'' ref_sender = (Ret True, ref_sender)" "fileSize ref_env ''/s'' ref_sender = (Ret 1, ref_sender)"
    "md5File ref_env ''/s'' ref_sender = (Ret ref_md5, ref_sender)"
    by (simp_all add: fileExists_run fileSize_run ref_digests c src ref_posix_def ref_lstat_def)
  have lib: "lib ref_cenv = ref_env" by (simp add: ref_cenv_def)
  have 6: "put_full ?E None ''/s'' ''/a'' ref_md5 1 (?s 1 ref_idle []) =
    (Ret (ref_assign [(''mode'', j_str ref_json ''upload''), (''md5'', j_str ref_json ref_md5), (''size'', j_UInt64 ref_json 1)]), ref_stored)"
    using 2 3 4
    by (simp add: put_full_def bindE_run lib c src ref_posix_def ref_accepted_def ref_wire.reply_data ref_json_run no_progress)
  show ?thesis using 1 5 6
    by (simp add: client_put_def bindE_run lib no_progress ref_missed_def ref_wire.reply_data ref_json_run liftS_Inr)
qed

lemma ref_chunk_asked: "length (dumpJson ref_json (ref_assign [(''cmd'', j_str ref_json ''download_chunk''), (''seq'', j_UInt64 ref_json 5),
     (''token'', j_str ref_json []), (''data'', ref_assign [(''file_id'', j_str ref_json (toHex (replicate 16 7))),
      (''offset'', j_UInt64 ref_json 0), (''length'', j_UInt ref_json 65536)])])) \<le> 2000"
  by code_simp

lemma ref_get: "\<exists>r t. client_get (peer_env ref_env ref_json piece ref_cenv) None ''/a'' ''/t'' ref_stored = (Ret r, t)"
proof -
  let ?E = "peer_env ref_env ref_json piece ref_cenv" let ?id = "toHex (replicate 16 7)"
  have lib: "lib ref_cenv = ref_env" by (simp add: ref_cenv_def)
  have 1: "request ?E ''download_begin'' (ref_assign [(''path'', j_str ref_json ''/a'')]) ref_stored =
      (Ret (ref_wire.reply 4 0 ''ok'' ref_offered), ref_stored\<lparr>cl_seq := 4, net := \<lparr>srv = ref_giving, inbox = []\<rparr>\<rparr>)"
    by (subst ref_request [OF _ ref_attentive(3) _ _ _ _ ref_short(4) _ _ _ ref_short_replies(4)])
      (simp_all add: ref_sender_def ref_stored_def ref_download_begun ref_envelope_def ref_data printable_def attentive_def, simp_all add: ref_states)
  define s where "s = ref_stored\<lparr>cl_seq := 4, net := \<lparr>srv = ref_giving, inbox = []\<rparr>,
      w_os := ofs_open ?E (c_str ''/t'') (dir_made ref_env (parentDir ''/t'') (ref_stored\<lparr>cl_seq := 4, net := \<lparr>srv = ref_giving, inbox = []\<rparr>\<rparr>))\<rparr>"
  have s: "cl_seq s = 4" "cl_token s = []" "net s = \<lparr>srv = ref_giving, inbox = []\<rparr>" by (simp_all add: s_def ref_stored_def ref_sender_def)
  obtain raw where raw: "encode FT_Json (dumpJson ref_json (ref_assign (chunk_request ref_json ?id 0 65536 s))) 0 = Inr raw"
    using short_frame [OF ref_chunk_asked] s by (auto simp: chunk_request_def)
  obtain c where c: "encodeChunk ?id 0 ''x'' = Inr c"
    using chunk_encoded [OF ref_ids(2), of "''x''" 0] by (auto simp: kMaxFrameSize_def)
  have "dispatch ref_env ref_json ''download_chunk'' (ref_assign (chunk_request ref_json ?id 0 65536 s)) 5 ref_giving = (Ret (), ref_giving\<lparr>c_out := c\<rparr>)"
    using c ref_chunk_given [of 5] ref_attentive(4) by (simp add: chunk_request_def s sendChunk_def bufferevent_write_def bindE_run attentive_def)
  then have 2: "exchange ?E (dumpJson ref_json (ref_assign (chunk_request ref_json ?id 0 65536 s))) (s\<lparr>cl_seq := 5\<rparr>) =
    (Ret \<lparr>f_type = FT_Chunk, f_flags = 0, f_payload = ?id @ map chr_of (writeU64Be 0) @ ''x''\<rparr>,
     (s\<lparr>cl_seq := 5\<rparr>)\<lparr>net := \<lparr>srv = (ref_giving\<lparr>c_out := c\<rparr>)\<lparr>c_out := []\<rparr>, inbox = []\<rparr>\<rparr>)"
    using ref_attentive(4) c encodeChunk_payload [OF ref_ids(2), of 0 "''x''"]
    by (intro ref_wire.exchange_ok [OF _ ref_attentive(4) _ _ _ _ raw, where cmd = "''download_chunk''" and seq = 5])
      (simp_all add: s attentive_def chunk_request_def printable_def)
  have loop: "download_loop ?E None (Suc (Suc 6)) ?id 65536 ''/t'' 1 0 s =
      download_loop ?E None (Suc 6) ?id 65536 ''/t'' 1 1 (s\<lparr>cl_seq := 5, net := \<lparr>srv = (ref_giving\<lparr>c_out := c\<rparr>)\<lparr>c_out := []\<rparr>, inbox = []\<rparr>,
        w_os := ofs_write ?E (c_str ''/t'') ''x'' (w_os s)\<rparr>)"
    by (subst download_turn) (simp_all add: s(1) 2 bindE_run(1) decodeChunk_payload [OF ref_ids(2)]
      FT_Json_def FT_Chunk_def del: download_loop.simps)
  have 3: "client_get ?E None ''/a'' ''/t'' ref_stored = bindE (download_loop ?E None (turns ?E) ?id 65536 ''/t'' 1 0) (\<lambda>got.
      return (ref_assign [(''path'', j_str ref_json ''/a''), (''local'', j_str ref_json ''/t''), (''size'', j_UInt64 ref_json got)])) s"
    using 1 by (simp add: client_get_def bindE_run ref_offered_def ref_wire.reply_data ref_json_run ensureDir_bind s_def lib del: download_loop.simps)
  have turns: "turns ?E = Suc (Suc 6)" by (simp add: ref_cenv_def)
  have stop: "download_loop ?E None (Suc n) i k l 1 1 t = (Ret 1, t)" for n i k l t by (simp add: return_def)
  show ?thesis by (simp only: 3 turns bindE_def loop stop) (simp add: return_def)
qed

end
