(* ===== verification/End_To_End.thy ===== *)
theory End_To_End
  imports Reference_Run
begin

text \<open>
  From the client's file to the client's file: what the client library's \<open>put\<close> and \<open>get\<close> do against the
  model's server.
\<close>

section \<open>The reference peers\<close>

lemma ref_errors: "json_errors ref_json"
  by (auto simp: json_errors_def coded_result_def ref_json_def type_error_def with_default_def in_range_def
      split: rjson.splits sum.splits option.splits if_splits)

interpretation ref_local: local_file "ref_cenv :: (ref_redis, ref_db, ref_fs, 'n, rjson) cenv" rf_files p
  by unfold_locales (simp_all add: ref_cenv_def)

lemma ref_peers:
  "peers ref_env rr_strs ref_sets ref_fi (\<lambda>p. p) (\<lambda>p d. True) (=) {p. NUL \<notin> set p} rf_files ref_fds is_store ref_sum
     ref_json r_obj (\<lambda>_. True) (\<lambda>v. v)"
  by (intro peers.intro peers_axioms.intro ref_delivery ref_wire.json_wire_axioms ref_errors)

interpretation ref_peered: peers ref_env rr_strs ref_sets ref_fi "\<lambda>p. p" "\<lambda>p d. True" "(=)" "{p. NUL \<notin> set p}"
  rf_files ref_fds is_store ref_sum ref_json r_obj "\<lambda>_. True" "\<lambda>v. v"
  by (rule ref_peers)

lemma ref_parts: "is_store (c_str (partPathFor ref_env ref_user ref_md5 dest))"
proof -
  let ?b = "takeWhile (\<lambda>c. c \<noteq> NUL) (''_'' @ baseName dest @ ''.part'')"
  have lit: "c_str (''/d/tmp/al/'' @ ref_md5) = ''/d/tmp/al/'' @ ref_md5" "CHR ''/'' \<notin> set ref_md5" "hd ref_md5 \<noteq> CHR ''/''"
    by code_simp+
  have "partPathFor ref_env ref_user ref_md5 dest = (''/d/tmp/al/'' @ ref_md5) @ ''_'' @ baseName dest @ ''.part''"
    using lit(3) by (simp add: partPathFor_def ref_sel ref_paths) (simp add: joinPath_def ref_more_paths)
  moreover have "\<forall>c \<in> set (''/d/tmp/al/'' @ ref_md5). c \<noteq> NUL" using lit(1) unfolding c_str_def takeWhile_eq_all_conv .
  then have "c_str ((''/d/tmp/al/'' @ ref_md5) @ x) = (''/d/tmp/al/'' @ ref_md5) @ takeWhile (\<lambda>c. c \<noteq> NUL) x" for x
    unfolding c_str_def by (rule takeWhile_append2 [OF bspec])
  ultimately have "c_str (partPathFor ref_env ref_user ref_md5 dest) = ''/d/tmp/al'' @ ''/'' @ ref_md5 @ ?b" by simp
  moreover have "CHR ''/'' \<notin> set (ref_md5 @ ?b)" using lit(2) baseName_no_slash [of dest] by (auto dest!: set_takeWhileD)
  ultimately show ?thesis using ref_paths(10) baseName_append [of "ref_md5 @ ?b" "''/d/tmp/al''"] by (simp add: is_store_def)
qed

lemma ref_holding_up: "store_up ref_env rr_strs ref_sets ref_holding"
  by (auto simp: store_up_def redis_ready_def ref_sets_def ref_hiredis_def ref_states)

section \<open>Failures\<close>

text \<open>C13: a command that fails is never answered as if it had succeeded. When the handler of a command
  throws, whatever it threw, the connection answers it by one reply whose code is that of a failure (or,
  when not even that reply fits into a frame, by none), and the reply is all that is added to what the
  handler left behind.\<close>

theorem failed_command_reported:
  fixes w :: "('r, 'm, 'f, 'z) cstate_scheme"
  assumes "json_errors J" and "f_type fr = FT_Json" and "parseJson J (f_payload fr) = (True, root, err)"
    and "get_string J root ''cmd'' [] = Inr cmd" and "get_u64 J root ''seq'' = Inr seq"
    and "given_token J root cmd (c_authed w) = Inr []" and "dispatch A J cmd root seq w = (Raise e, v)"
  shows "(\<exists>raw. guardedFrame A J fr w = (Ret (), v\<lparr>c_out := c_out w @ raw\<rparr>) \<and> reports_failure J raw) \<or>
    guardedFrame A J fr w = (Raise (CloudError PayloadTooLarge ''frame too large''), v)"
  by (rule dispatch_failure [OF assms])

theorem failed_command_reported_witness:
  "\<exists>raw. guardedFrame ref_env ref_json (json_frame (ref_request ''rm'')) ref_conn = (Ret (), ref_conn\<lparr>c_out := c_out ref_conn @ raw\<rparr>) \<and>
     reports_failure ref_json raw"
proof -
  have "dispatch ref_env ref_json ''rm'' (RObj [(''cmd'', RStr ''rm''), (''seq'', RUInt 7)]) 7 ref_conn =
      (Raise (CloudError Unauthorized ''login required''), ref_conn)"
    by (simp add: dispatch_def onRm_def requireLogin_def bindE_def ref_conn_def)
  then have "(\<exists>raw. guardedFrame ref_env ref_json (json_frame (ref_request ''rm'')) ref_conn = (Ret (), ref_conn\<lparr>c_out := c_out ref_conn @ raw\<rparr>) \<and>
      reports_failure ref_json raw) \<or>
    guardedFrame ref_env ref_json (json_frame (ref_request ''rm'')) ref_conn = (Raise (CloudError PayloadTooLarge ''frame too large''), ref_conn)"
    by (intro failed_command_reported [OF ref_errors, where cmd = "''rm''" and seq = 7])
      (simp_all add: json_frame_def ref_request_parse, simp_all add: given_token_def get_string_def get_u64_def get_as_def ref_json_def
        with_default_def in_range_def)
  moreover have "fst (guardedFrame ref_env ref_json (json_frame (ref_request ''rm'')) ref_conn) = Ret ()" by code_simp
  ultimately show ?thesis by auto
qed

section \<open>Downloads\<close>

text \<open>C5: the client library and the server deliver a stored file whole. Whenever \<open>get\<close> returns on a
  logged-in connection, however \<open>send\<close> and \<open>recv\<close> cut the frames and however short the server's reads
  are, the local file holds exactly the bytes of the object that the user's path refers to, the size
  reported is theirs, and client and server are in step for the next command; and \<open>get\<close> never hangs.
  (The path has a Redis entry, the local file can be written, and the chunk size fits into a frame.)\<close>

theorem get_delivers_object:
  fixes s :: "('a, 'b, 'c, ('r, 'm, 'f) peer, 'z) client_scheme"
  assumes "peers A strs sets fi ck fits ceq S files fds plain dg J jobj utf8 norm" and "local_file E view (c_str localPath)"
    and "attentive (srv (net s))" and "inbox (net s) = []" and "store_up A strs sets (srv (net s))"
    and "strs (w_redis (srv (net s))) (pathKey (s_userId (c_session (srv (net s)))) (c_str (''/'' @ logical))) = Some m"
    and "strs (w_redis (srv (net s))) (objKey (c_str m)) = Some obj" and "files (w_os (srv (net s))) (c_str obj) = Some y"
    and "objectPathFor A m = Inr obj" and "plain (c_str obj)" and "m \<noteq> []"
    and "normalizeLogical remote = Inr logical" and "utf8 remote" and "length y < min (2 ^ 63) (turns E)"
    and "0 < chunkSize (cfg A)" and "unat (chunkSize (cfg A)) \<le> kMaxFrameSize - 64"
  shows "case client_get (peer_env A J piece E) None remote localPath s of
      (Ret r, t) \<Rightarrow> view (w_os t) (c_str localPath) = Some y \<and> attentive (srv (net t)) \<and> inbox (net t) = [] \<and>
        r = assign J (j_null J) [(''path'', j_str J remote), (''local'', j_str J localPath), (''size'', j_UInt64 J (of_nat (length y)))]
    | (Raise e, t) \<Rightarrow> True | (Blocked, t) \<Rightarrow> False | (Undef, t) \<Rightarrow> False"
  by (rule peers.client_get_run [OF assms(1-4) _ assms(6-11) object_nonempty [OF assms(9)] assms(12,13) _ _ assms(15,16)])
    (use assms(5,14) in \<open>simp_all add: store_up_def\<close>)

theorem get_delivers_object_witness:
  "\<exists>r t. client_get (peer_env ref_env ref_json (\<lambda>k. 3) ref_cenv) None ''/a'' ''/t'' ref_stored = (Ret r, t) \<and>
     rf_files (w_os t) ''/t'' = Some ''x'' \<and> inbox (net t) = []"
proof -
  have c: "c_str ''/t'' = ''/t''" by code_simp
  obtain r t where run: "client_get (peer_env ref_env ref_json (\<lambda>k. 3) ref_cenv) None ''/a'' ''/t'' ref_stored = (Ret r, t)"
    using ref_get by blast
  have "case client_get (peer_env ref_env ref_json (\<lambda>k. 3) ref_cenv) None ''/a'' ''/t'' ref_stored of
      (Ret r, t) \<Rightarrow> rf_files (w_os t) (c_str ''/t'') = Some ''x'' \<and> attentive (srv (net t)) \<and> inbox (net t) = [] \<and>
        r = assign ref_json (j_null ref_json) [(''path'', j_str ref_json ''/a''), (''local'', j_str ref_json ''/t''),
          (''size'', j_UInt64 ref_json (of_nat (length ''x'')))]
    | (Raise e, t) \<Rightarrow> True | (Blocked, t) \<Rightarrow> False | (Undef, t) \<Rightarrow> False"
    by (rule get_delivers_object [OF ref_peers ref_local.local_file_axioms _ _ _ _ _ _ ref_paths(2), where logical = "''a''"])
      (simp_all add: ref_stored_def ref_attentive ref_holding_up, simp_all add: ref_states ref_steps store_up_def ref_cenv_def kMaxFrameSize_def)
  then show ?thesis using run c by auto
qed

section \<open>Round trips\<close>



end
