(* ===== verification/Spec2Isabelle.thy ===== *)
theory Spec2Isabelle
  imports Transfer_Properties Object_Copy Connection_Properties Auth_Properties Mysql_Stmt
    Server_Properties Client_Properties Client_Cli Gui_Properties Logger Content_Loss End_To_End
begin

text \<open>
  CloudStore: a file server with per-user directories, content-addressed storage and instant upload,
  its client library, a command-line client and a local HTTP front end (C++ under \<open>src/\<close>). This
  theory imports the whole library.

  \<^bold>\<open>The program.\<close> One process runs an event loop (\<open>src/server.cpp\<close>) over its connections. A
  connection (\<open>src/connection.cpp\<close>) cuts the byte stream into frames (\<open>src/protocol.cpp\<close>) and runs one
  handler per JSON command (\<open>src/json_util.cpp\<close>) or chunk. The handlers check the session
  (\<open>src/auth.cpp\<close>), resolve the client's path below the user's directory (\<open>src/path_guard.cpp\<close>),
  work on directories (\<open>src/file_manager.cpp\<close>) and on contents (\<open>src/transfer.cpp\<close>): a content is a file
  named by its MD5, the set \<open>cs:refs:<md5>\<close> in Redis holds the paths that refer to it, and
  \<open>cs:path:...\<close> in Redis and \<open>file_index\<close> in MySQL map a path to its MD5. Releasing the last reference
  removes the file. Redis is reached by \<open>src/redis_store.cpp\<close>, MySQL by \<open>src/mysql_pool.cpp\<close> and
  \<open>src/mysql_stmt.cpp\<close>. The clients (\<open>client/\<close>) speak the same frames.

  \<^bold>\<open>How it is modelled.\<close> A C++ function is a state-passing function with an outcome: a value, an
  exception, \<open>Blocked\<close> (waits for ever) or \<open>Undef\<close> (undefined behaviour); see \<open>CS_Prelude\<close>. The state
  of the server is the record \<open>world\<close> (\<open>Services\<close>: file system, Redis, MySQL, pool), which \<open>tstate\<close>
  extends by the upload and the download in progress and \<open>cstate\<close> by the rest of a connection. What
  the repository does not contain (POSIX calls, hiredis, the MySQL client, OpenSSL, jsoncpp, the
  sockets and the HTTP library) is a record of functions over abstract states that the definitions
  take as an argument. Machine integers are words of their width and the wrap-around of the source
  is that of the words.

  \<^bold>\<open>The theories.\<close>
  \<^item> \<open>CS_Prelude\<close>, \<open>Services\<close>: outcomes, the rules \<open>triple\<close> for partial correctness with exceptions,
    frame rules, the parameters and the state (\<open>include/common.h\<close>, \<open>include/config.h\<close>).
  \<^item> \<open>CS_Utils\<close>, \<open>Os_Utils\<close>: \<open>src/utils.cpp\<close> and \<open>src/crypto_util.cpp\<close>; the locale \<open>be_codec\<close> for the
    big-endian integers, \<open>digest\<close> for the digests: hashing in blocks, as a range and at once agree.
  \<^item> \<open>Protocol\<close>: frames and chunks; round trips, and that cutting a stream of frames anywhere does
    not change the frames.
  \<^item> \<open>Path_Guard\<close>, \<open>File_Manager\<close>: a resolved path lies below the root; the directory operations.
  \<^item> \<open>Redis_Store\<close>: the entries; the locales \<open>key_family\<close> (keys of different families differ) and
    \<open>redis_service\<close> (the documented effect of the seven commands).
  \<^item> \<open>Mysql_Pool\<close>, \<open>Mysql_Stmt\<close>: the pool; the buffers of a prepared statement with the pointers into
    its vectors. With room in the vectors the values bound are the values sent, which is the contract
    the other theories use; without, binding a second text leaves a dangling pointer.
  \<^item> \<open>Transfer_Service\<close>, \<open>Transfer_Facts\<close>, \<open>Store_Invariant\<close>, \<open>Store_Properties\<close>: the object store, the
    laws of the table (\<open>index_service\<close>), the invariant \<open>refs_inv\<close> over the three services and that
    every operation keeps it (\<open>content_env\<close>), the step relation \<open>transfer_step\<close> over all operations, and
    the refinement of a map from paths to digests.
  \<^item> \<open>Transfer_Properties\<close>, \<open>Object_Copy\<close>: possession proof, challenges and chunks at machine width,
    the checks at the end of an upload; the copy loop ends and copies (\<open>file_service\<close>).
  \<^item> \<open>Delivery_Facts\<close>, \<open>Round_Trip\<close>, \<open>Content_Loss\<close>: a file through upload, publication and download
    (\<open>disk_service\<close>, \<open>delivery\<close>), and the overwriting instant upload that loses its content.
  \<^item> \<open>Auth_Service\<close>, \<open>Auth_Facts\<close>, \<open>Auth_Properties\<close>: accounts, sessions, login and logout
    (\<open>user_service\<close>, \<open>auth_env\<close>, \<open>dir_service\<close>).
  \<^item> \<open>Json_Util\<close>, \<open>Connection\<close>, \<open>Connection_Facts\<close>, \<open>Connection_Properties\<close>: the handlers; every command
    gets one answer, nothing passes before a login, the read loop handles every complete frame and ends.
  \<^item> \<open>Config_File\<close>, \<open>Server\<close>, \<open>Server_Properties\<close>, \<open>Logger\<close>: reading the configuration, start-up with
    its retries, the event loop as a step relation with its invariant, its end by a signal, and that the
    program gives its connections to the backends back however it ends; the log.
  \<^item> \<open>Client\<close>, \<open>Client_Facts\<close>, \<open>Client_Properties\<close>: the client library; \<open>out_stream\<close> and \<open>in_stream\<close> are the
    interfaces of its socket, interpreted with the model's own server as the peer.
  \<^item> \<open>Json_Wire\<close>, \<open>Error_Codes\<close>, \<open>Peer_Facts\<close>, \<open>Peer_Chunks\<close>, \<open>Peer_Transfers\<close>, \<open>End_To_End\<close>: client and
    server together. \<open>json_wire\<close> says what of a JSON value survives the wire; no exception carries the
    code of success, so a failed command is never answered as done; an exchange is the handler's reply, a
    reported failure or an exception; with the laws of the services (\<open>delivery\<close>) and of the client's
    file (\<open>local_file\<close>) put together in \<open>peers\<close>, a file that is put is the file that is got back.
  \<^item> \<open>Client_Cli\<close>, \<open>Client_Gui\<close>, \<open>Gui_Properties\<close>: the shell, and the HTTP handlers with their mutex.
  \<^item> \<open>Reference_Env\<close>, \<open>Reference_Json\<close>, \<open>Reference_Run\<close>: in-memory instances of the parameters, proved to satisfy the
    locales; the witnesses run on them. They are not part of the program.

  \<^bold>\<open>Interfaces.\<close> Each locale states what the program relies on of one service; the properties assume the
  locale of the services they use, and the reference environment interprets all of them. Calls may
  fail and reads and writes may be short wherever the laws do not exclude it. Redis keeps a key set
  with a lifetime until it is deleted: that entries expire is not modelled.

  \<^bold>\<open>Bounds.\<close> \<open>onRead\<close> gives its loop one turn more than the input has bytes, and the bound is
  proved never to be reached. The loops over system calls (copy, directory recursion) take at most
  \<open>loop_bound\<close> turns; a bound above the size of the source is proved to be enough for the copy. The
  start-up tries thirty times, as the code does. The download loop of the client, which the
  server's answers may keep running, takes at most \<open>turns\<close> turns; against the model's server a bound
  above the size of the file is enough, as every chunk has a byte (\<open>End_To_End\<close>: never \<open>Blocked\<close>). A
  client's call may throw, since every service call of the server may fail; \<open>Reference_Run\<close> evaluates a
  \<open>put\<close> and a \<open>get\<close> that return.

  \<^bold>\<open>Assumptions of the store's invariant.\<close> The paths in use have pairwise different collation keys and
  fit their columns; renaming is onto a path without content other than the source, and \<open>mkdir\<close> on a
  path without content. The code checks none of these.

  \<^bold>\<open>Not modelled.\<close> The log lines of the components other than the logger itself; the set-up calls
  of libevent (its events and results are); mutexes of the server, which runs in one thread;
  SQL beyond the effect of the statements on the two tables; the page of the web front end (another
  language) and the HTTP library under \<open>third_party\<close>.
\<close>

end
